(* ===== verification/Prelude.thy ===== *)
theory Prelude
  imports Main "HOL-Library.AList" "HOL-Library.Word" "HOL-Library.Sublist"
begin

text \<open>
  What every component shares: the model of \<open>std::collections::HashMap\<close> as an
  association list with distinct keys, the few \<open>str\<close> operations the source uses,
  decimal rendering of counters, and two interfaces, each a locale: \<open>request_table\<close>
  (requests in flight, each answered at most once) and \<open>machine\<close> (an invariant kept
  by every step is kept by every run). Strings are UTF-8 byte strings, as in Rust.
\<close>

section \<open>Collections of facts\<close>

named_theorems hm_simps \<open>lookup after an operation on a hash map\<close>
named_theorems inv_intros \<open>preservation of the components' invariants\<close>

section \<open>Hash maps\<close>

type_synonym ('k, 'v) hmap = "('k \<times> 'v) list"

abbreviation hm_get :: "('k, 'v) hmap \<Rightarrow> 'k \<Rightarrow> 'v option" where
  "hm_get m k \<equiv> map_of m k"

abbreviation hm_insert :: "'k \<Rightarrow> 'v \<Rightarrow> ('k, 'v) hmap \<Rightarrow> ('k, 'v) hmap" where
  "hm_insert k v m \<equiv> AList.update k v m"

abbreviation hm_remove :: "'k \<Rightarrow> ('k, 'v) hmap \<Rightarrow> ('k, 'v) hmap" where
  "hm_remove k m \<equiv> AList.delete k m"

definition hm_retain :: "('k \<Rightarrow> 'v \<Rightarrow> bool) \<Rightarrow> ('k, 'v) hmap \<Rightarrow> ('k, 'v) hmap" where
  "hm_retain P m = filter (\<lambda>(k, v). P k v) m"

definition hm_ok :: "('k, 'v) hmap \<Rightarrow> bool" where
  "hm_ok m \<longleftrightarrow> distinct (map fst m)"

definition hm_take :: "'k \<Rightarrow> ('k, 'v) hmap \<Rightarrow> 'v option \<times> ('k, 'v) hmap" where
  "hm_take k m = (hm_get m k, hm_remove k m)"

lemma hm_get_insert [simp, hm_simps]:
  "hm_get (hm_insert k v m) j = (if j = k then Some v else hm_get m j)"
  by (simp add: update_conv')

lemma hm_get_remove [simp, hm_simps]:
  "hm_get (hm_remove k m) j = (if j = k then None else hm_get m j)"
  by (simp add: delete_conv')

lemma hm_get_retain [hm_simps]:
  assumes "hm_ok m"
  shows "hm_get (hm_retain P m) k =
    (case hm_get m k of None \<Rightarrow> None | Some v \<Rightarrow> if P k v then Some v else None)"
  using assms
proof (induction m)
  case Nil
  then show ?case by (simp add: hm_retain_def)
next
  case (Cons kv m)
  obtain a b where kv: "kv = (a, b)" by (cases kv)
  have fresh: "hm_get m a = None" and ok: "hm_ok m"
    using Cons.prems kv by (auto simp: hm_ok_def map_of_eq_None_iff)
  show ?case
    using Cons.IH [OF ok] fresh kv
    by (cases "a = k") (auto simp: hm_retain_def split: option.splits)
qed

lemma hm_ok_Nil [simp, intro, inv_intros]: "hm_ok []"
  by (simp add: hm_ok_def)

lemma hm_ok_insert [intro, inv_intros]: "hm_ok m \<Longrightarrow> hm_ok (hm_insert k v m)"
  by (simp add: hm_ok_def distinct_update)

lemma hm_ok_remove [intro, inv_intros]: "hm_ok m \<Longrightarrow> hm_ok (hm_remove k m)"
  by (simp add: hm_ok_def distinct_delete)

lemma hm_ok_retain [intro, inv_intros]: "hm_ok m \<Longrightarrow> hm_ok (hm_retain P m)"
  unfolding hm_ok_def hm_retain_def by (rule distinct_map_filter)

lemma hm_retain_subset: "set (hm_retain P m) \<subseteq> set m"
  by (auto simp: hm_retain_def)

lemma length_hm_retain_le: "length (hm_retain P m) \<le> length m"
  by (simp add: hm_retain_def)

section \<open>Strings\<close>

text \<open>\<open>RawValue\<close> is the text of a JSON value, forwarded without being read.\<close>

type_synonym raw = string

definition starts_with :: "string \<Rightarrow> string \<Rightarrow> bool" where
  "starts_with s p \<longleftrightarrow> take (length p) s = p"

definition ends_with :: "string \<Rightarrow> string \<Rightarrow> bool" where
  "ends_with s p \<longleftrightarrow> starts_with (rev s) (rev p)"

definition strip_prefix :: "string \<Rightarrow> string \<Rightarrow> string option" where
  "strip_prefix p s = (if starts_with s p then Some (drop (length p) s) else None)"

definition strip_suffix :: "string \<Rightarrow> string \<Rightarrow> string option" where
  "strip_suffix p s = (if ends_with s p then Some (take (length s - length p) s) else None)"

fun contains :: "string \<Rightarrow> string \<Rightarrow> bool" where
  "contains [] needle = (needle = [])"
| "contains (c # s) needle = (starts_with (c # s) needle \<or> contains s needle)"

text \<open>\<open>str::split_once\<close> and \<open>str::rsplit_once\<close> at a single byte.\<close>

fun split_once :: "char \<Rightarrow> string \<Rightarrow> (string \<times> string) option" where
  "split_once c [] = None"
| "split_once c (x # xs) =
     (if x = c then Some ([], xs)
      else map_option (\<lambda>(a, b). (x # a, b)) (split_once c xs))"

definition rsplit_once :: "char \<Rightarrow> string \<Rightarrow> (string \<times> string) option" where
  "rsplit_once c s = map_option (\<lambda>(a, b). (rev b, rev a)) (split_once c (rev s))"

lemma split_once_Some:
  "split_once c s = Some (a, b) \<longleftrightarrow> s = a @ c # b \<and> c \<notin> set a"
proof (induction s arbitrary: a)
  case Nil
  then show ?case by simp
next
  case (Cons x s)
  show ?case
  proof (cases a)
    case Nil
    then show ?thesis by auto
  next
    case (Cons y a')
    then show ?thesis using Cons.IH [of a'] by auto
  qed
qed

lemma split_once_None [simp]: "split_once c s = None \<longleftrightarrow> c \<notin> set s"
  by (induction s) auto

lemma rev_eq_append_conv: "rev s = rev b @ c # rev a \<longleftrightarrow> s = a @ c # b"
proof -
  have "rev s = rev b @ c # rev a \<longleftrightarrow> rev s = rev (a @ c # b)" by simp
  then show ?thesis by (simp only: rev_is_rev_conv)
qed

lemma rsplit_once_None [simp]: "rsplit_once c s = None \<longleftrightarrow> c \<notin> set s"
  by (simp add: rsplit_once_def)

lemma rsplit_once_Some:
  "rsplit_once c s = Some (a, b) \<longleftrightarrow> s = a @ c # b \<and> c \<notin> set b"
proof -
  have "rsplit_once c s = Some (a, b) \<longleftrightarrow> split_once c (rev s) = Some (rev b, rev a)"
    by (force simp: rsplit_once_def)
  also have "\<dots> \<longleftrightarrow> rev s = rev b @ c # rev a \<and> c \<notin> set b"
    by (simp add: split_once_Some)
  also have "\<dots> \<longleftrightarrow> s = a @ c # b \<and> c \<notin> set b"
    by (simp add: rev_eq_append_conv)
  finally show ?thesis .
qed

lemma starts_with_prefix: "starts_with s p \<longleftrightarrow> prefix p s"
  unfolding starts_with_def by (metis append_eq_conv_conj prefix_def take_is_prefix)

lemma starts_with_append [simp]: "starts_with (p @ s) p"
  by (simp add: starts_with_def)

lemma strip_prefix_append [simp]: "strip_prefix p (p @ s) = Some s"
  by (simp add: strip_prefix_def)

lemma contains_append [simp]: "contains (a @ p @ b) p"
proof (induction a)
  case Nil
  have "starts_with (p @ b) p" by simp
  then show ?case by (cases "p @ b") (auto simp: starts_with_def)
qed simp

section \<open>Decimal rendering\<close>

definition digit :: "nat \<Rightarrow> char" where
  "digit d = char_of (48 + d)"

fun dec :: "nat \<Rightarrow> string" where
  "dec n = (if n < 10 then [digit n] else dec (n div 10) @ [digit (n mod 10)])"

declare dec.simps [simp del]

definition undec :: "string \<Rightarrow> nat" where
  "undec s = foldl (\<lambda>n c. 10 * n + (of_char c - 48)) 0 s"

lemma of_char_digit [simp]: "d < 10 \<Longrightarrow> (of_char (digit d) :: nat) = 48 + d"
  by (simp add: digit_def)

lemma undec_dec [simp]: "undec (dec n) = n"
proof (induction n rule: dec.induct)
  case (1 n)
  show ?case
  proof (cases "n < 10")
    case True
    then show ?thesis by (simp add: dec.simps [of n] undec_def)
  next
    case False
    then have "undec (dec n) = 10 * undec (dec (n div 10)) + n mod 10"
      by (simp add: dec.simps [of n] undec_def)
    with 1 False show ?thesis by simp
  qed
qed

lemma dec_inject [simp]: "dec m = dec n \<longleftrightarrow> m = n"
  by (metis undec_dec)

lemma dec_nonempty [simp]: "dec n \<noteq> []"
  by (subst dec.simps) simp

lemma dec_digits: "c \<in> set (dec n) \<Longrightarrow> 48 \<le> (of_char c :: nat) \<and> (of_char c :: nat) < 58"
proof (induction n rule: dec.induct)
  case (1 n)
  then show ?case by (auto simp: dec.simps [of n] split: if_splits)
qed

section \<open>Requests in flight\<close>

text \<open>
  Several components keep a table of requests that are waiting for an answer: the
  correlator, the id bridge and the MCP client. All promise the same thing: registering
  an id makes it answerable, answering it takes it off the table, and other ids are not
  affected.
\<close>

locale request_table =
  fixes register :: "'i \<Rightarrow> 'v \<Rightarrow> 't \<Rightarrow> 't"
    and resolve :: "'i \<Rightarrow> 't \<Rightarrow> 'v option \<times> 't"
    and waiting :: "'t \<Rightarrow> 'i \<Rightarrow> 'v option"
  assumes waiting_register:
      "waiting (register i v t) j = (if j = i then Some v else waiting t j)"
    and resolve_value: "fst (resolve i t) = waiting t i"
    and waiting_resolve:
      "waiting (snd (resolve i t)) j = (if j = i then None else waiting t j)"
begin

lemma resolve_registered: "fst (resolve i (register i v t)) = Some v"
  by (simp add: resolve_value waiting_register)

lemma resolve_once: "fst (resolve i (snd (resolve i t))) = None"
  by (simp add: resolve_value waiting_resolve)

lemma resolve_other: "i \<noteq> j \<Longrightarrow> fst (resolve j (snd (resolve i t))) = fst (resolve j t)"
  by (simp add: resolve_value waiting_resolve)

lemma resolve_unknown: "waiting t i = None \<Longrightarrow> fst (resolve i t) = None"
  by (simp add: resolve_value)

end

interpretation hm_table: request_table hm_insert hm_take map_of
  by unfold_locales (auto simp: hm_take_def)

section \<open>Branches\<close>

text \<open>What holds of every branch holds of the case distinction.\<close>

lemma pres_cases:
  "P a \<Longrightarrow> P b \<Longrightarrow> P (if c then a else b)"
  "(\<And>e. P (f e)) \<Longrightarrow> (\<And>v. P (g v)) \<Longrightarrow> P (case_sum f g x)"
  "P a \<Longrightarrow> (\<And>v. P (h v)) \<Longrightarrow> P (case_option a h y)"
  "(\<And>v w. P (k v w)) \<Longrightarrow> P (case_prod k z)"
  by (auto split: sum.split option.split prod.split)

section \<open>Invariants of runs\<close>

locale machine =
  fixes step :: "'s \<Rightarrow> 'e \<Rightarrow> 's"
    and inv :: "'s \<Rightarrow> bool"
  assumes step_inv: "inv s \<Longrightarrow> inv (step s e)"
begin

lemma run_inv: "inv s \<Longrightarrow> inv (foldl step s es)"
  by (induction es arbitrary: s) (auto intro: step_inv)

end

text \<open>A relation between a state and every later one, such as "only grows".\<close>

locale monotone_machine =
  fixes step :: "'s \<Rightarrow> 'e \<Rightarrow> 's"
    and rel :: "'s \<Rightarrow> 's \<Rightarrow> bool"
  assumes rel_refl: "rel s s"
    and rel_trans: "rel a b \<Longrightarrow> rel b c \<Longrightarrow> rel a c"
    and step_rel: "rel s (step s e)"
begin

lemma run_rel: "rel s (foldl step s es)"
proof (induction es arbitrary: s)
  case Nil
  show ?case by (simp add: rel_refl)
next
  case (Cons e es)
  have "rel s (step s e)" by (rule step_rel)
  moreover have "rel (step s e) (foldl step (step s e) es)" by (rule Cons.IH)
  ultimately show ?case by (auto intro: rel_trans)
qed

end

end
