(* ===== verification/Json.thy ===== *)
theory Json
  imports Prelude
begin

text \<open>
  The part of \<open>serde_json::Value\<close> the source works with: the six kinds of value and
  the accessors it calls (\<open>value["k"]\<close>, \<open>get\<close>, \<open>as_str\<close>, \<open>as_object_mut\<close>,
  \<open>entry(k).or_insert_with\<close>, \<open>insert\<close>). Numbers are kept as their text: no modelled
  code computes with one. Objects are association lists; nothing modelled depends on the
  order of an object's keys. Reading and printing JSON text is not here: it belongs to
  serde_json and is a parameter of the definitions that need it.
\<close>

type_synonym json_error = string

datatype json =
    JNull
  | JBool bool
  | JNumber string
  | JString string
  | JArray "json list"
  | JObject "(string \<times> json) list"

fun as_str :: "json \<Rightarrow> string option" where
  "as_str (JString s) = Some s"
| "as_str _ = None"

fun as_object :: "json \<Rightarrow> (string \<times> json) list option" where
  "as_object (JObject kvs) = Some kvs"
| "as_object _ = None"

fun as_array :: "json \<Rightarrow> json list option" where
  "as_array (JArray xs) = Some xs"
| "as_array _ = None"

definition json_get :: "json \<Rightarrow> string \<Rightarrow> json option" where
  "json_get v k = Option.bind (as_object v) (\<lambda>kvs. map_of kvs k)"

text \<open>\<open>value["k"]\<close> reads \<open>Null\<close> where there is nothing to read.\<close>

definition json_index :: "json \<Rightarrow> string \<Rightarrow> json" where
  "json_index v k = (case json_get v k of None \<Rightarrow> JNull | Some w \<Rightarrow> w)"

text \<open>\<open>entry(k).or_insert_with(d)\<close> on a map: the map afterwards and the value at \<open>k\<close>.\<close>

definition or_insert :: "string \<Rightarrow> json \<Rightarrow> (string \<times> json) list \<Rightarrow> (string \<times> json) list \<times> json" where
  "or_insert k d kvs =
     (case map_of kvs k of
        Some v \<Rightarrow> (kvs, v)
      | None \<Rightarrow> (kvs @ [(k, d)], d))"

definition obj_insert :: "string \<Rightarrow> json \<Rightarrow> (string \<times> json) list \<Rightarrow> (string \<times> json) list" where
  "obj_insert k v kvs = AList.update k v kvs"

lemma map_of_obj_insert [simp]:
  "map_of (obj_insert k v kvs) j = (if j = k then Some v else map_of kvs j)"
  by (simp add: obj_insert_def update_conv')

lemma map_of_or_insert [simp]:
  "map_of (fst (or_insert k d kvs)) j = (if j = k then Some (snd (or_insert k d kvs)) else map_of kvs j)"
  by (auto simp: or_insert_def map_add_def split: option.splits)

lemma json_get_simps [simp]:
  "json_get (JObject kvs) k = map_of kvs k"
  "json_get JNull k = None" "json_get (JBool b) k = None"
  "json_get (JNumber n) k = None" "json_get (JString s) k = None"
  "json_get (JArray xs) k = None"
  by (simp_all add: json_get_def)

end
