(* ===== verification/Frame.thy ===== *)
theory Frame
  imports Json
begin

text \<open>
  \<open>crates/mjx-acp-core/src/frame.rs\<close>: request ids, JSON-RPC errors, the three kinds of
  frame, \<open>Frame::parse\<close> with its error paths, the accessors, the constructors and
  \<open>to_line\<close>. Reading a line into the \<open>Wire\<close> struct, escaping a string and printing an
  error object are serde_json's; they are fields of the record \<open>serde\<close>, the parameter
  every definition that touches JSON text takes.
\<close>

section \<open>Identifiers, errors, frames\<close>

datatype request_id = IdNull | IdNumber "64 word" | IdString string

record json_rpc_error =
  err_code :: int
  err_message :: string
  err_data :: "raw option"

definition method_not_found :: "string \<Rightarrow> json_rpc_error" where
  "method_not_found method =
     \<lparr>err_code = -32601, err_message = ''method not found: '' @ method, err_data = None\<rparr>"

definition invalid_params :: "string \<Rightarrow> json_rpc_error" where
  "invalid_params detail =
     \<lparr>err_code = -32602, err_message = ''invalid params: '' @ detail, err_data = None\<rparr>"

definition resource_not_found :: "string \<Rightarrow> json_rpc_error" where
  "resource_not_found detail = \<lparr>err_code = -32002, err_message = detail, err_data = None\<rparr>"

definition internal_error :: "string \<Rightarrow> json_rpc_error" where
  "internal_error detail = \<lparr>err_code = -32603, err_message = detail, err_data = None\<rparr>"

datatype response_payload = Result raw | Error json_rpc_error

datatype frame =
    Request request_id string "raw option"
  | Response request_id response_payload
  | Notification string "raw option"

datatype frame_error = JsonErr json_error | Shape string

text \<open>
  \<open>Wire\<close>: every field optional; \<open>result\<close> doubly so, to tell a missing key from an
  explicit null.
\<close>

record wire =
  w_id :: "request_id option"
  w_method :: "string option"
  w_params :: "raw option"
  w_result :: "raw option option"
  w_error :: "json_rpc_error option"

text \<open>\<open>present_or_absent\<close>: a key that is present is \<open>Some\<close>, whatever it holds.\<close>

definition present_or_absent :: "json_error + raw option \<Rightarrow> json_error + raw option option" where
  "present_or_absent r = (case r of Inl e \<Rightarrow> Inl e | Inr v \<Rightarrow> Inr (Some v))"

definition null_value :: raw where
  "null_value = ''null''"

section \<open>What serde_json provides\<close>

record serde =
  de_wire :: "string \<Rightarrow> json_error + wire"
  ser_string :: "string \<Rightarrow> string"
  ser_error :: "json_rpc_error \<Rightarrow> string"
  de_value :: "raw \<Rightarrow> json_error + json"
  ser_value :: "json \<Rightarrow> json_error + raw"

definition dec_i64 :: "64 word \<Rightarrow> string" where
  "dec_i64 n = (if sint n < 0 then ''-'' @ dec (nat (- sint n)) else dec (nat (sint n)))"

text \<open>\<open>impl Display for RequestId\<close>, and its untagged serialization.\<close>

fun display_id :: "request_id \<Rightarrow> string" where
  "display_id IdNull = ''null''"
| "display_id (IdNumber n) = dec_i64 n"
| "display_id (IdString s) = s"

fun ser_id :: "('a) serde_scheme \<Rightarrow> request_id \<Rightarrow> string" where
  "ser_id E IdNull = ''null''"
| "ser_id E (IdNumber n) = dec_i64 n"
| "ser_id E (IdString s) = ser_string E s"

section \<open>Frame::parse\<close>

definition parse_wire :: "wire \<Rightarrow> frame_error + frame" where
  "parse_wire w =
     (case w_method w of
        Some method \<Rightarrow>
          if w_result w \<noteq> None \<or> w_error w \<noteq> None
          then Inl (Shape ''message has both a method and a result/error'')
          else Inr (case w_id w of
                 None \<Rightarrow> Notification method (w_params w)
               | Some IdNull \<Rightarrow> Notification method (w_params w)
               | Some i \<Rightarrow> Request i method (w_params w))
      | None \<Rightarrow>
          let i = (case w_id w of None \<Rightarrow> IdNull | Some i \<Rightarrow> i)
          in case (w_result w, w_error w) of
               (Some result, None) \<Rightarrow>
                 Inr (Response i (Result (case result of None \<Rightarrow> null_value | Some r \<Rightarrow> r)))
             | (None, Some error) \<Rightarrow> Inr (Response i (Error error))
             | (Some _, Some _) \<Rightarrow> Inl (Shape ''reply has both result and error'')
             | (None, None) \<Rightarrow> Inl (Shape ''neither a call nor a reply''))"

definition parse :: "('a) serde_scheme \<Rightarrow> string \<Rightarrow> frame_error + frame" where
  "parse E line =
     (case de_wire E line of Inl e \<Rightarrow> Inl (JsonErr e) | Inr w \<Rightarrow> parse_wire w)"

section \<open>Accessors and constructors\<close>

fun frame_method :: "frame \<Rightarrow> string option" where
  "frame_method (Request _ m _) = Some m"
| "frame_method (Notification m _) = Some m"
| "frame_method (Response _ _) = None"

fun frame_id :: "frame \<Rightarrow> request_id option" where
  "frame_id (Request i _ _) = Some i"
| "frame_id (Response i _) = Some i"
| "frame_id (Notification _ _) = None"

fun frame_params :: "frame \<Rightarrow> raw option" where
  "frame_params (Request _ _ p) = p"
| "frame_params (Notification _ p) = p"
| "frame_params (Response _ _) = None"

text \<open>\<open>params_as::<T>()\<close>: \<open>Ok(None)\<close> without params, otherwise the typed reading.\<close>

definition params_as :: "(raw \<Rightarrow> json_error + 'a) \<Rightarrow> frame \<Rightarrow> json_error + 'a option" where
  "params_as de f =
     (case frame_params f of
        None \<Rightarrow> Inr None
      | Some p \<Rightarrow> (case de p of Inl e \<Rightarrow> Inl e | Inr x \<Rightarrow> Inr (Some x)))"

definition frame_result :: "request_id \<Rightarrow> json_error + raw \<Rightarrow> json_error + frame" where
  "frame_result i v = (case v of Inl e \<Rightarrow> Inl e | Inr r \<Rightarrow> Inr (Response i (Result r)))"

definition frame_error :: "request_id \<Rightarrow> json_rpc_error \<Rightarrow> frame" where
  "frame_error i e = Response i (Error e)"

definition notification :: "string \<Rightarrow> json_error + raw \<Rightarrow> json_error + frame" where
  "notification m v = (case v of Inl e \<Rightarrow> Inl e | Inr r \<Rightarrow> Inr (Notification m (Some r)))"

section \<open>Frame::to\_line\<close>

definition params_field :: "raw option \<Rightarrow> string" where
  "params_field p = (case p of None \<Rightarrow> [] | Some t \<Rightarrow> '',\"params\":'' @ t)"

fun to_line :: "('a) serde_scheme \<Rightarrow> frame \<Rightarrow> string" where
  "to_line E (Request i m p) =
     ''{\"jsonrpc\":\"2.0\"'' @ '',\"id\":'' @ ser_id E i @ '',\"method\":'' @ ser_string E m @ params_field p @ ''}''"
| "to_line E (Notification m p) =
     ''{\"jsonrpc\":\"2.0\"'' @ '',\"method\":'' @ ser_string E m @ params_field p @ ''}''"
| "to_line E (Response i (Result r)) =
     ''{\"jsonrpc\":\"2.0\"'' @ '',\"id\":'' @ ser_id E i @ '',\"result\":'' @ r @ ''}''"
| "to_line E (Response i (Error e)) =
     ''{\"jsonrpc\":\"2.0\"'' @ '',\"id\":'' @ ser_id E i @ '',\"error\":'' @ ser_error E e @ ''}''"

section \<open>Classification is total and loses nothing\<close>

text \<open>Where each field of a parsed frame comes from.\<close>

fun carries :: "wire \<Rightarrow> frame \<Rightarrow> bool" where
  "carries w (Request i m p) \<longleftrightarrow>
     w_id w = Some i \<and> i \<noteq> IdNull \<and> w_method w = Some m \<and> p = w_params w"
| "carries w (Notification m p) \<longleftrightarrow>
     (w_id w = None \<or> w_id w = Some IdNull) \<and> w_method w = Some m \<and> p = w_params w"
| "carries w (Response i (Result r)) \<longleftrightarrow>
     w_method w = None \<and> w_error w = None \<and> i = (case w_id w of None \<Rightarrow> IdNull | Some j \<Rightarrow> j) \<and>
     (w_result w = Some (Some r) \<or> w_result w = Some None \<and> r = null_value)"
| "carries w (Response i (Error e)) \<longleftrightarrow>
     w_method w = None \<and> w_result w = None \<and> i = (case w_id w of None \<Rightarrow> IdNull | Some j \<Rightarrow> j) \<and>
     w_error w = Some e"

lemma parse_wire_carries: "parse_wire w = Inr f \<Longrightarrow> carries w f"
  by (auto simp: parse_wire_def Let_def split: option.splits if_splits request_id.splits)

text \<open>
  A line that parses is a frame whose fields are the line's own, unaltered; a call
  whose id is null or absent is a notification, so no request ever has a null id.
\<close>

theorem parse_sound:
  "parse E line = Inr f \<Longrightarrow> \<exists>w. de_wire E line = Inr w \<and> carries w f"
  by (auto simp: parse_def parse_wire_carries split: sum.splits)

text \<open>
  An example of the parameter: strings are printed between quotes, and the reader knows
  one line. It instantiates the theorems that take a \<open>serde\<close>.
\<close>

definition quoted :: "string \<Rightarrow> string" where
  "quoted s = ''\"'' @ s @ ''\"''"

definition toy_serde :: "(string \<times> wire) list \<Rightarrow> serde" where
  "toy_serde known = \<lparr>
     de_wire = (\<lambda>l. case map_of known l of None \<Rightarrow> Inl ''expected value'' | Some w \<Rightarrow> Inr w),
     ser_string = quoted,
     ser_error = (\<lambda>e. quoted (err_message e)),
     de_value = (\<lambda>r. if r = null_value then Inr JNull else Inl ''expected value''),
     ser_value = (\<lambda>v. Inr null_value)\<rparr>"

definition no_fields :: wire where
  "no_fields = \<lparr>w_id = None, w_method = None, w_params = None, w_result = None, w_error = None\<rparr>"

theorem parse_sound_witness:
  "\<exists>w. de_wire (toy_serde [(''x'', no_fields\<lparr>w_method := Some ''m'', w_id := Some IdNull\<rparr>)]) ''x'' = Inr w
     \<and> carries w (Notification ''m'' None)"
  by (rule parse_sound) (simp add: parse_def parse_wire_def toy_serde_def no_fields_def)

text \<open>
  A message is refused for its shape exactly when it is a call that also carries a
  result or an error, or a reply that carries both or neither.
\<close>

theorem parse_shape_error_iff:
  "(\<exists>e. parse_wire w = Inl e) \<longleftrightarrow>
     (if w_method w = None then (w_result w = None) = (w_error w = None)
      else w_result w \<noteq> None \<or> w_error w \<noteq> None)"
  by (auto simp: parse_wire_def Let_def split: option.splits)

section \<open>Printing and reading back\<close>

text \<open>
  What serde reads out of the members a frame is printed with: an optional member that
  is null reads as absent, except \<open>result\<close>, which remembers that it was there.
\<close>

definition not_null :: "raw \<Rightarrow> raw option" where
  "not_null r = (if r = null_value then None else Some r)"

definition id_member :: "request_id \<Rightarrow> request_id option" where
  "id_member i = (if i = IdNull then None else Some i)"

fun wire_of :: "frame \<Rightarrow> wire" where
  "wire_of (Request i m p) =
     no_fields\<lparr>w_id := id_member i, w_method := Some m, w_params := Option.bind p not_null\<rparr>"
| "wire_of (Notification m p) =
     no_fields\<lparr>w_method := Some m, w_params := Option.bind p not_null\<rparr>"
| "wire_of (Response i (Result r)) =
     no_fields\<lparr>w_id := id_member i, w_result := Some (not_null r)\<rparr>"
| "wire_of (Response i (Error e)) =
     no_fields\<lparr>w_id := id_member i,
               w_error := Some (e\<lparr>err_data := Option.bind (err_data e) not_null\<rparr>)\<rparr>"

fun normal_form :: "frame \<Rightarrow> frame" where
  "normal_form (Request i m p) =
     (if i = IdNull then Notification m (Option.bind p not_null)
      else Request i m (Option.bind p not_null))"
| "normal_form (Notification m p) = Notification m (Option.bind p not_null)"
| "normal_form (Response i (Result r)) = Response i (Result r)"
| "normal_form (Response i (Error e)) =
     Response i (Error (e\<lparr>err_data := Option.bind (err_data e) not_null\<rparr>))"

lemma parse_wire_of: "parse_wire (wire_of f) = Inr (normal_form f)"
  by (cases f rule: wire_of.cases)
     (auto simp: parse_wire_def no_fields_def id_member_def not_null_def split: request_id.splits)

lemma normal_form_idem: "normal_form (normal_form f) = normal_form f"
  by (cases f rule: normal_form.cases) (auto simp: not_null_def split: bind_splits)

text \<open>
  An object's text out of its members, and what serde reads of one with the readers of
  a member's text: an id, a string and an error.
\<close>

fun members_text :: "(string \<times> raw) list \<Rightarrow> string" where
  "members_text [] = []"
| "members_text [(k, v)] = quoted k @ '':'' @ v"
| "members_text ((k, v) # ms) = quoted k @ '':'' @ v @ '','' @ members_text ms"

definition object_text :: "(string \<times> raw) list \<Rightarrow> string" where
  "object_text ms = ''{'' @ members_text ms @ ''}''"

record readers =
  rd_id :: "raw \<Rightarrow> request_id option"
  rd_string :: "raw \<Rightarrow> string option"
  rd_error :: "raw \<Rightarrow> json_rpc_error option"

definition read_members :: "readers \<Rightarrow> (string \<times> raw) list \<Rightarrow> wire" where
  "read_members R ms = \<lparr>
     w_id = Option.bind (map_of ms ''id'') (rd_id R),
     w_method = Option.bind (map_of ms ''method'') (rd_string R),
     w_params = Option.bind (map_of ms ''params'') not_null,
     w_result = map_option not_null (map_of ms ''result''),
     w_error = Option.bind (map_of ms ''error'') (rd_error R)\<rparr>"

fun members_of :: "('a) serde_scheme \<Rightarrow> frame \<Rightarrow> (string \<times> raw) list" where
  "members_of E (Request i m p) =
     [(''jsonrpc'', quoted ''2.0''), (''id'', ser_id E i), (''method'', ser_string E m)] @
     (case p of None \<Rightarrow> [] | Some t \<Rightarrow> [(''params'', t)])"
| "members_of E (Notification m p) =
     [(''jsonrpc'', quoted ''2.0''), (''method'', ser_string E m)] @
     (case p of None \<Rightarrow> [] | Some t \<Rightarrow> [(''params'', t)])"
| "members_of E (Response i (Result r)) =
     [(''jsonrpc'', quoted ''2.0''), (''id'', ser_id E i), (''result'', r)]"
| "members_of E (Response i (Error e)) =
     [(''jsonrpc'', quoted ''2.0''), (''id'', ser_id E i), (''error'', ser_error E e)]"

lemma to_line_object: "to_line E f = object_text (members_of E f)"
  by (cases f rule: wire_of.cases) (simp_all add: object_text_def quoted_def params_field_def split: option.split)

text \<open>Readers that read what the printers print.\<close>

definition inverse_on :: "('a) serde_scheme \<Rightarrow> readers \<Rightarrow> frame \<Rightarrow> bool" where
  "inverse_on E R f \<longleftrightarrow>
     (case frame_id f of None \<Rightarrow> True | Some i \<Rightarrow> rd_id R (ser_id E i) = id_member i) \<and>
     (case frame_method f of None \<Rightarrow> True | Some m \<Rightarrow> rd_string R (ser_string E m) = Some m) \<and>
     (case f of
        Response _ (Error e) \<Rightarrow>
          rd_error R (ser_error E e) = Some (e\<lparr>err_data := Option.bind (err_data e) not_null\<rparr>)
      | _ \<Rightarrow> True)"

lemma read_members_of: "inverse_on E R f \<Longrightarrow> read_members R (members_of E f) = wire_of f"
  by (cases f rule: wire_of.cases)
     (simp_all add: inverse_on_def read_members_def no_fields_def split: option.split)

text \<open>
  C30: Printing a frame and parsing the line gives the frame back, up to the three
  spellings of nothing (null params, null error data, a null request id). In particular
  a response whose result is an explicit null survives as a response. The line is the text
  of a JSON object with the frame's members; of serde it is used that it reads such a text
  member by member, and reads an id, a string and an error as it printed them.
\<close>

theorem parse_to_line:
  assumes "de_wire E (object_text (members_of E f)) = Inr (read_members R (members_of E f))"
    and "inverse_on E R f"
  shows "parse E (to_line E f) = Inr (normal_form f)"
  using assms by (simp add: parse_def to_line_object read_members_of parse_wire_of)

theorem parse_to_line_witness:
  "let f = Response (IdNumber 7) (Result null_value);
       line = ''{\"jsonrpc\":\"2.0\",\"id\":7,\"result\":null}'';
       E = toy_serde [(line, no_fields\<lparr>w_id := Some (IdNumber 7), w_result := Some None\<rparr>)]
   in to_line E f = line \<and> parse E (to_line E f) = Inr f"
proof -
  let ?f = "Response (IdNumber 7) (Result null_value)"
  let ?line = "''{\"jsonrpc\":\"2.0\",\"id\":7,\"result\":null}''"
  let ?E = "toy_serde [(?line, no_fields\<lparr>w_id := Some (IdNumber 7), w_result := Some None\<rparr>)]"
  let ?R = "\<lparr>rd_id = (\<lambda>_. Some (IdNumber 7)), rd_string = Some, rd_error = (\<lambda>_. None)\<rparr>"
  have id: "dec_i64 7 = ''7''"
    by (simp add: dec_i64_def dec.simps digit_def char_of_def bit_0)
  have shown: "object_text (members_of ?E ?f) = ?line"
    by (simp add: id object_text_def quoted_def null_value_def)
  have "de_wire ?E (object_text (members_of ?E ?f)) = Inr (read_members ?R (members_of ?E ?f))"
    unfolding shown by (simp add: toy_serde_def read_members_def no_fields_def not_null_def id)
  moreover have "inverse_on ?E ?R ?f" by (simp add: inverse_on_def id_member_def)
  ultimately have "parse ?E (to_line ?E ?f) = Inr (normal_form ?f)" by (rule parse_to_line)
  then show ?thesis using shown by (simp add: Let_def to_line_object)
qed

end
