(* ===== verification/Method.thy ===== *)
theory Method
  imports Frame
begin

text \<open>
  \<open>crates/mjx-acp-core/src/method.rs\<close> and the method names of \<open>ext.rs\<close>: which peer
  answers a method, which methods the server answers itself, and the extension
  namespace.
\<close>

section \<open>Method names\<close>

abbreviation "INITIALIZE \<equiv> ''initialize''"
abbreviation "SESSION_NEW \<equiv> ''session/new''"
abbreviation "SESSION_LOAD \<equiv> ''session/load''"
abbreviation "SESSION_DELETE \<equiv> ''session/delete''"
abbreviation "SESSION_RESUME \<equiv> ''session/resume''"
abbreviation "SESSION_CLOSE \<equiv> ''session/close''"
abbreviation "SESSION_FORK \<equiv> ''session/fork''"
abbreviation "SESSION_SET_CONFIG_OPTION \<equiv> ''session/set_config_option''"
abbreviation "SESSION_PROMPT \<equiv> ''session/prompt''"
abbreviation "SESSION_UPDATE \<equiv> ''session/update''"
abbreviation "ELICITATION_CREATE \<equiv> ''elicitation/create''"
abbreviation "ELICITATION_COMPLETE \<equiv> ''elicitation/complete''"
abbreviation "MCP_CONNECT \<equiv> ''mcp/connect''"
abbreviation "MCP_DISCONNECT \<equiv> ''mcp/disconnect''"
abbreviation "MCP_MESSAGE \<equiv> ''mcp/message''"

text \<open>\<open>method::agent\<close>, in the order of the source.\<close>

definition agent_methods :: "string list" where
  "agent_methods =
     [INITIALIZE, ''authenticate'', ''logout'', SESSION_NEW, SESSION_LOAD, ''session/list'',
      SESSION_DELETE, SESSION_RESUME, SESSION_CLOSE, SESSION_FORK, ''session/set_mode'',
      SESSION_SET_CONFIG_OPTION, SESSION_PROMPT, ''session/cancel'', MCP_MESSAGE]"

text \<open>\<open>method::client\<close>.\<close>

definition client_methods :: "string list" where
  "client_methods =
     [SESSION_UPDATE, ''session/request_permission'', ''fs/read_text_file'',
      ''fs/write_text_file'', ''terminal/create'', ''terminal/output'', ''terminal/kill'',
      ''terminal/release'', ''terminal/wait_for_exit'', ELICITATION_CREATE,
      ELICITATION_COMPLETE, MCP_CONNECT, MCP_DISCONNECT, MCP_MESSAGE]"

abbreviation "CANCEL_REQUEST \<equiv> ''$/cancel_request''"

section \<open>Classification\<close>

datatype side = Agent_Side | Client_Side | Either_Side

definition side :: "string \<Rightarrow> side option" where
  "side m =
     (if m \<in> {INITIALIZE, ''authenticate'', ''logout'', SESSION_NEW, SESSION_LOAD,
              ''session/list'', SESSION_DELETE, SESSION_RESUME, SESSION_CLOSE, SESSION_FORK,
              ''session/set_mode'', SESSION_SET_CONFIG_OPTION, SESSION_PROMPT,
              ''session/cancel''}
      then Some Agent_Side
      else if m \<in> {SESSION_UPDATE, ''session/request_permission'', ''fs/read_text_file'',
              ''fs/write_text_file'', ''terminal/create'', ''terminal/output'',
              ''terminal/kill'', ''terminal/release'', ''terminal/wait_for_exit'',
              ELICITATION_CREATE, ELICITATION_COMPLETE, MCP_CONNECT, MCP_DISCONNECT}
      then Some Client_Side
      else if m \<in> {CANCEL_REQUEST, MCP_MESSAGE} then Some Either_Side
      else None)"

definition is_server_provided_capability :: "string \<Rightarrow> bool" where
  "is_server_provided_capability m \<longleftrightarrow>
     m \<in> {''fs/read_text_file'', ''fs/write_text_file'', ''terminal/create'',
          ''terminal/output'', ''terminal/kill'', ''terminal/release'',
          ''terminal/wait_for_exit''}"

definition is_mcp_over_acp :: "string \<Rightarrow> bool" where
  "is_mcp_over_acp m \<longleftrightarrow> m \<in> {MCP_CONNECT, MCP_DISCONNECT, MCP_MESSAGE}"

definition is_extension :: "string \<Rightarrow> bool" where
  "is_extension m \<longleftrightarrow> starts_with m ''_''"

section \<open>The extension methods of ext.rs\<close>

abbreviation "AGENT_INFO \<equiv> ''_mjx/agent/info''"
abbreviation "AGENT_STDERR \<equiv> ''_mjx/agent/stderr''"
abbreviation "TERMINAL_CREATED \<equiv> ''_mjx/terminal/created''"
abbreviation "TERMINAL_OUTPUT_EXT \<equiv> ''_mjx/terminal/output''"
abbreviation "TERMINAL_EXIT \<equiv> ''_mjx/terminal/exit''"
abbreviation "FS_WROTE \<equiv> ''_mjx/fs/wrote''"
abbreviation "INSPECTOR_FRAME \<equiv> ''_mjx/inspector/frame''"
abbreviation "SESSION_REPLAY \<equiv> ''_mjx/session/replay''"
abbreviation "SESSION_TURN_ENDED \<equiv> ''_mjx/session/turn_ended''"
abbreviation "CONNECTION_TAKEN_OVER \<equiv> ''_mjx/connection/taken_over''"

definition ext_methods :: "string list" where
  "ext_methods =
     [AGENT_INFO, AGENT_STDERR, TERMINAL_CREATED, TERMINAL_OUTPUT_EXT, TERMINAL_EXIT,
      FS_WROTE, INSPECTOR_FRAME, SESSION_REPLAY, SESSION_TURN_ENDED, CONNECTION_TAKEN_OVER]"

section \<open>The classes fit together\<close>

lemma extension_unclassified: "is_extension m \<Longrightarrow> side m = None"
  unfolding is_extension_def starts_with_def side_def
  by (cases m) auto

lemma ext_methods_are_extensions: "m \<in> set ext_methods \<Longrightarrow> is_extension m"
  by (auto simp: ext_methods_def is_extension_def starts_with_def)

text \<open>
  Every extension name lies outside the protocol (no ACP method shadows it), every
  method the server answers for the browser is a client method, and MCP-over-ACP is
  never among the methods that are answered unconditionally.
\<close>

theorem method_classes:
  "(is_extension m \<or> m \<in> set ext_methods \<longrightarrow> side m = None) \<and>
   (is_server_provided_capability m \<longrightarrow> side m = Some Client_Side) \<and>
   (is_mcp_over_acp m \<longrightarrow>
      \<not> is_server_provided_capability m \<and> side m \<in> {Some Client_Side, Some Either_Side})"
proof -
  have "is_server_provided_capability m \<Longrightarrow> side m = Some Client_Side"
    by (auto simp: is_server_provided_capability_def side_def)
  moreover have "is_mcp_over_acp m \<Longrightarrow>
      \<not> is_server_provided_capability m \<and> side m \<in> {Some Client_Side, Some Either_Side}"
    by (auto simp: is_mcp_over_acp_def is_server_provided_capability_def side_def)
  ultimately show ?thesis
    using extension_unclassified ext_methods_are_extensions by blast
qed

theorem method_classes_witness:
  "side ''_mjx/session/replay'' = None \<and> side ''fs/read_text_file'' = Some Client_Side \<and>
   side MCP_MESSAGE \<in> {Some Client_Side, Some Either_Side}"
  using method_classes [of "''_mjx/session/replay''"] method_classes [of "''fs/read_text_file''"]
    method_classes [of MCP_MESSAGE]
  by (simp add: is_extension_def starts_with_def is_server_provided_capability_def is_mcp_over_acp_def)

end
