(* ===== verification/Correlator.thy ===== *)
theory Correlator
  imports Method
begin

text \<open>
  \<open>crates/mjx-acp-core/src/correlator.rs\<close>: the two maps that pair a response with the
  method of the request it answers, and their refinement of a specification over the
  frames observed so far.
\<close>

datatype direction = ClientToAgent | AgentToClient

fun reply :: "direction \<Rightarrow> direction" where
  "reply ClientToAgent = AgentToClient"
| "reply AgentToClient = ClientToAgent"

lemma reply_reply [simp]: "reply (reply d) = d"
  by (cases d) auto

lemma reply_eq [simp]: "reply d = reply e \<longleftrightarrow> d = e"
  by (cases d; cases e) auto

record correlator =
  from_client :: "(request_id, string) hmap"
  from_agent :: "(request_id, string) hmap"

definition new_correlator :: correlator where
  "new_correlator = \<lparr>from_client = [], from_agent = []\<rparr>"

fun pending :: "direction \<Rightarrow> correlator \<Rightarrow> (request_id, string) hmap" where
  "pending ClientToAgent c = from_client c"
| "pending AgentToClient c = from_agent c"

text \<open>\<open>pending_mut\<close>: the map of one direction, put back after \<open>f\<close> has changed it.\<close>

fun pending_mut ::
  "direction \<Rightarrow> ((request_id, string) hmap \<Rightarrow> (request_id, string) hmap) \<Rightarrow> correlator \<Rightarrow> correlator" where
  "pending_mut ClientToAgent f c = c\<lparr>from_client := f (from_client c)\<rparr>"
| "pending_mut AgentToClient f c = c\<lparr>from_agent := f (from_agent c)\<rparr>"

fun observe :: "direction \<Rightarrow> frame \<Rightarrow> correlator \<Rightarrow> string option \<times> correlator" where
  "observe d (Request i m p) c = (None, pending_mut d (hm_insert i m) c)"
| "observe d (Response i p) c =
     (hm_get (pending (reply d) c) i, pending_mut (reply d) (hm_remove i) c)"
| "observe d (Notification m p) c = (None, c)"

definition peek :: "correlator \<Rightarrow> direction \<Rightarrow> request_id \<Rightarrow> string option" where
  "peek c d i = hm_get (pending d c) i"

definition in_flight :: "correlator \<Rightarrow> nat" where
  "in_flight c = length (from_client c) + length (from_agent c)"

lemma pending_pending_mut [simp]:
  "pending d (pending_mut e f c) = (if d = e then f (pending e c) else pending d c)"
  by (cases d; cases e) auto

lemma peek_observe:
  "peek (snd (observe d f c)) e i =
     (case f of
        Request j m p \<Rightarrow> if e = d \<and> i = j then Some m else peek c e i
      | Response j p \<Rightarrow> if e = reply d \<and> i = j then None else peek c e i
      | Notification m p \<Rightarrow> peek c e i)"
  by (cases f) (auto simp: peek_def)

text \<open>Requests in one direction are a table of requests in flight.\<close>

interpretation client_calls: request_table
  "\<lambda>i m c. snd (observe ClientToAgent (Request i m None) c)"
  "\<lambda>i c. observe AgentToClient (Response i (Result null_value)) c"
  "\<lambda>c. peek c ClientToAgent"
  by unfold_locales (auto simp: peek_def)

interpretation agent_calls: request_table
  "\<lambda>i m c. snd (observe AgentToClient (Request i m None) c)"
  "\<lambda>i c. observe ClientToAgent (Response i (Result null_value)) c"
  "\<lambda>c. peek c AgentToClient"
  by unfold_locales (auto simp: peek_def)

section \<open>Refinement of the frame history\<close>

text \<open>
  The specification reads the history, newest frame first: a request is open from the
  frame that sent it to the frame that answered it in the other direction.
\<close>

fun last_open :: "(direction \<times> frame) list \<Rightarrow> direction \<Rightarrow> request_id \<Rightarrow> string option" where
  "last_open [] e i = None"
| "last_open ((d, Request j m p) # h) e i = (if e = d \<and> i = j then Some m else last_open h e i)"
| "last_open ((d, Response j p) # h) e i = (if e = reply d \<and> i = j then None else last_open h e i)"
| "last_open ((d, Notification m p) # h) e i = last_open h e i"

definition observe_all :: "(direction \<times> frame) list \<Rightarrow> correlator" where
  "observe_all h = foldl (\<lambda>c (d, f). snd (observe d f c)) new_correlator h"

lemma observe_all_snoc: "observe_all (h @ [(d, f)]) = snd (observe d f (observe_all h))"
  by (simp add: observe_all_def)

lemma peek_observe_all: "peek (observe_all h) e i = last_open (rev h) e i"
proof (induction h rule: rev_induct)
  case Nil
  show ?case by (cases e) (simp_all add: observe_all_def new_correlator_def peek_def)
next
  case (snoc x h)
  obtain d f where "x = (d, f)" by (cases x)
  with snoc show ?case
    by (cases f) (auto simp add: observe_all_snoc peek_def)
qed

text \<open>
  C8: After any interleaving of frames in both directions, the method the correlator
  reports for a response is that of the latest request with this id, sent the other way
  and not yet answered; it reports none for a request or a notification.
\<close>

theorem observe_refines_history:
  "fst (observe d f (observe_all h)) =
     (case f of Response i p \<Rightarrow> last_open (rev h) (reply d) i | _ \<Rightarrow> None)"
  by (cases f) (simp_all add: peek_observe_all [symmetric] peek_def)

text \<open>Both maps keep distinct keys, so \<open>in_flight\<close> counts the open requests.\<close>

definition correlator_ok :: "correlator \<Rightarrow> bool" where
  "correlator_ok c \<longleftrightarrow> hm_ok (from_client c) \<and> hm_ok (from_agent c)"

interpretation correlator_machine: machine
  "\<lambda>c (d, f). snd (observe d f c)" correlator_ok
proof unfold_locales
  fix c :: correlator and e :: "direction \<times> frame"
  assume ok: "correlator_ok c"
  obtain d f where "e = (d, f)" by (cases e)
  moreover from ok have "correlator_ok (snd (observe d f c))"
    by (cases f; cases d) (auto simp: correlator_ok_def)
  ultimately show "correlator_ok (case e of (d, f) \<Rightarrow> snd (observe d f c))" by simp
qed

lemma observe_all_ok: "correlator_ok (observe_all h)"
  unfolding observe_all_def
  by (rule correlator_machine.run_inv) (simp add: correlator_ok_def new_correlator_def)

lemma length_hm_ok: "hm_ok m \<Longrightarrow> length m = card {i. hm_get m i \<noteq> None}"
proof -
  assume "hm_ok m"
  then have "length m = card (fst ` set m)"
    using distinct_card [of "map fst m"] by (simp add: hm_ok_def)
  also have "fst ` set m = {i. hm_get m i \<noteq> None}"
    by (simp add: dom_map_of_conv_image_fst [symmetric] dom_def)
  finally show ?thesis .
qed

text \<open>
  \<open>in_flight\<close> is the number of requests of either direction still awaiting an answer;
  the two directions never share an entry, although both peers number from one.
\<close>

theorem in_flight_counts_open:
  "in_flight (observe_all h) =
     card {i. last_open (rev h) ClientToAgent i \<noteq> None} +
     card {i. last_open (rev h) AgentToClient i \<noteq> None}"
  using observe_all_ok [of h]
  by (simp add: in_flight_def correlator_ok_def length_hm_ok peek_observe_all [symmetric] peek_def)

end
