(* ===== verification/Id_Bridge.thy ===== *)
theory Id_Bridge
  imports Method
begin

text \<open>
  \<open>crates/mjx-acp-server/src/id_bridge.rs\<close>: the browser's request ids mapped onto one
  id space the agent sees. The counter is an \<open>i64\<close>, so it wraps; the theorems say up to
  how many requests the ids are fresh.
\<close>

record id_bridge =
  next_id :: "64 word"
  outstanding :: "(request_id, request_id) hmap"

definition new_bridge :: id_bridge where
  "new_bridge = \<lparr>next_id = 0, outstanding = []\<rparr>"

definition bridge_reattach :: "id_bridge \<Rightarrow> id_bridge" where
  "bridge_reattach b = b\<lparr>outstanding := []\<rparr>"

definition for_agent :: "request_id \<Rightarrow> id_bridge \<Rightarrow> request_id \<times> id_bridge" where
  "for_agent browser b =
     (let n = next_id b + 1; agent = IdNumber n
      in (agent, b\<lparr>next_id := n, outstanding := hm_insert agent browser (outstanding b)\<rparr>))"

definition for_browser :: "request_id \<Rightarrow> id_bridge \<Rightarrow> request_id option \<times> id_bridge" where
  "for_browser agent b =
     (hm_get (outstanding b) agent, b\<lparr>outstanding := hm_remove agent (outstanding b)\<rparr>)"

definition bridge_in_flight :: "id_bridge \<Rightarrow> nat" where
  "bridge_in_flight b = length (outstanding b)"

text \<open>The outstanding ids are a table of requests in flight.\<close>

interpretation bridge_table: request_table
  "\<lambda>i v b. b\<lparr>outstanding := hm_insert i v (outstanding b)\<rparr>" for_browser "\<lambda>b. hm_get (outstanding b)"
  by unfold_locales (auto simp: for_browser_def)

section \<open>Runs of the bridge\<close>

datatype bridge_op = Reattach | ForAgent request_id | ForBrowser request_id

fun bridge_step :: "id_bridge \<Rightarrow> bridge_op \<Rightarrow> id_bridge" where
  "bridge_step b Reattach = bridge_reattach b"
| "bridge_step b (ForAgent i) = snd (for_agent i b)"
| "bridge_step b (ForBrowser i) = snd (for_browser i b)"

definition bridge_run :: "bridge_op list \<Rightarrow> id_bridge" where
  "bridge_run ops = foldl bridge_step new_bridge ops"

fun is_mint :: "bridge_op \<Rightarrow> bool" where
  "is_mint (ForAgent _) = True"
| "is_mint _ = False"

definition mints :: "bridge_op list \<Rightarrow> nat" where
  "mints ops = length (filter is_mint ops)"

definition nth_id :: "nat \<Rightarrow> request_id" where
  "nth_id n = IdNumber (word_of_nat n)"

lemma mints_simps [simp]:
  "mints [] = 0" "mints (op # ops) = (if is_mint op then Suc (mints ops) else mints ops)"
  "mints (xs @ ys) = mints xs + mints ys" "mints (rev ops) = mints ops"
  by (simp_all add: mints_def rev_filter [symmetric])

lemma next_bridge_run: "next_id (bridge_run ops) = word_of_nat (mints ops)"
proof (induction ops rule: rev_induct)
  case Nil
  show ?case by (simp add: bridge_run_def new_bridge_def)
next
  case (snoc op ops)
  then show ?case
    by (cases op) (simp_all add: bridge_run_def bridge_reattach_def for_agent_def for_browser_def Let_def)
qed

lemma nth_id_inject: "m < 2 ^ 64 \<Longrightarrow> n < 2 ^ 64 \<Longrightarrow> nth_id m = nth_id n \<longleftrightarrow> m = n"
  by (simp add: nth_id_def word_of_nat_eq_iff take_bit_nat_eq_self_iff take_bit_nat_eq_self)

text \<open>
  The specification over the operations, newest first: what an agent-side id is owed to.
\<close>

fun owed :: "bridge_op list \<Rightarrow> request_id \<Rightarrow> request_id option" where
  "owed [] a = None"
| "owed (Reattach # h) a = None"
| "owed (ForBrowser j # h) a = (if a = j then None else owed h a)"
| "owed (ForAgent b # h) a = (if a = nth_id (Suc (mints h)) then Some b else owed h a)"

lemma outstanding_bridge_run: "hm_get (outstanding (bridge_run ops)) a = owed (rev ops) a"
proof (induction ops rule: rev_induct)
  case Nil
  show ?case by (simp add: bridge_run_def new_bridge_def)
next
  case (snoc op ops)
  have run: "bridge_run (ops @ [op]) = bridge_step (bridge_run ops) op"
    by (simp add: bridge_run_def)
  show ?case
    unfolding run using snoc
    by (cases op)
       (simp_all add: bridge_reattach_def for_agent_def for_browser_def Let_def
          next_bridge_run nth_id_def)
qed

lemma owed_fresh:
  "a = nth_id n \<Longrightarrow> mints h < n \<Longrightarrow> n < 2 ^ 64 \<Longrightarrow> owed h a = None"
proof (induction h a rule: owed.induct)
  case (4 b h a)
  then show ?case using nth_id_inject [of n "Suc (mints h)"] by auto
qed auto

text \<open>
  C1: The bridge answers an agent-side id with the browser id it was minted for since
  the last reattach and not yet answered, and with nothing otherwise; the id it mints
  next is one more than the number of requests so far and, below 2^64 requests, is owed
  to nobody yet.
\<close>

theorem bridge_refines_history:
  "fst (for_browser a (bridge_run ops)) = owed (rev ops) a \<and>
   fst (for_agent b (bridge_run ops)) = nth_id (Suc (mints ops)) \<and>
   (Suc (mints ops) < 2 ^ 64 \<longrightarrow>
      fst (for_browser (fst (for_agent b (bridge_run ops))) (bridge_run ops)) = None)"
proof -
  have answer: "fst (for_browser a (bridge_run ops)) = owed (rev ops) a" for a
    by (simp add: for_browser_def outstanding_bridge_run)
  have minted: "fst (for_agent b (bridge_run ops)) = nth_id (Suc (mints ops))"
    by (simp add: for_agent_def Let_def next_bridge_run nth_id_def)
  have "owed (rev ops) (nth_id (Suc (mints ops))) = None" if "Suc (mints ops) < 2 ^ 64"
    using that by (intro owed_fresh [where n = "Suc (mints ops)"]) auto
  then show ?thesis by (auto simp: answer minted)
qed

theorem bridge_refines_history_witness:
  "fst (for_browser (nth_id 1) (bridge_run [ForAgent (IdString ''a''), Reattach, ForAgent (IdNumber 1)])) = None \<and>
   fst (for_browser (nth_id 3) (bridge_run [ForAgent (IdString ''a''), Reattach, ForAgent (IdNumber 1)])) = None"
proof -
  let ?ops = "[ForAgent (IdString ''a''), Reattach, ForAgent (IdNumber 1)]"
  have "fst (for_browser (nth_id 1) (bridge_run ?ops)) = owed (rev ?ops) (nth_id 1)"
    using bridge_refines_history [of "nth_id 1" ?ops] by blast
  also have "\<dots> = None"
    using nth_id_inject [of 1 "Suc 1"] by simp
  finally have old: "fst (for_browser (nth_id 1) (bridge_run ?ops)) = None" .
  have "Suc (mints ?ops) = 3" by simp
  then have "fst (for_browser (nth_id 3) (bridge_run ?ops)) = None"
    using bridge_refines_history [of "nth_id 1" ?ops IdNull] by (auto simp: numeral_3_eq_3)
  with old show ?thesis by blast
qed

lemma owed_since_reattach:
  "owed (ops @ Reattach # h) a = Some b \<Longrightarrow> ForAgent b \<in> set ops"
  by (induction "ops @ Reattach # h" a arbitrary: ops rule: owed.induct)
     (force simp: Cons_eq_append_conv split: if_splits)+

text \<open>
  Whatever an earlier browser left in flight, an answer that is delivered after a
  reattach carries an id the browser attached now has itself used.
\<close>

theorem no_delivery_across_reattach:
  assumes "fst (for_browser a (bridge_run (before @ Reattach # since))) = Some b"
  shows "ForAgent b \<in> set since"
proof -
  have "owed (rev since @ Reattach # rev before) a = Some b"
    using assms by (simp add: for_browser_def outstanding_bridge_run)
  then have "ForAgent b \<in> set (rev since)" by (rule owed_since_reattach)
  then show ?thesis by simp
qed

theorem no_delivery_across_reattach_witness:
  "fst (for_browser (nth_id 2) (bridge_run ([ForAgent (IdNumber 1)] @ Reattach # [ForAgent (IdNumber 1)])))
     = Some (IdNumber 1) \<and> ForAgent (IdNumber 1) \<in> set [ForAgent (IdNumber 1)]"
proof -
  have "fst (for_browser (nth_id 2) (bridge_run ([ForAgent (IdNumber 1)] @ Reattach # [ForAgent (IdNumber 1)])))
     = Some (IdNumber 1)"
    by (simp add: for_browser_def outstanding_bridge_run nth_id_def)
  then show ?thesis using no_delivery_across_reattach by blast
qed

end
