(* ===== verification/Acp.thy ===== *)
theory Acp
  imports Method
begin

text \<open>
  The types of the \<open>agent-client-protocol\<close> schema crate that the source pattern matches
  on. That crate is not in the repository: only what the source reads of each type is
  spelled out, everything else a value carries is one \<open>opaque\<close> part that is copied and
  compared but never looked into, and a catch-all constructor stands for the variants a
  \<open>non_exhaustive\<close> enum may have beyond the ones the source names.
\<close>

type_synonym opaque = string

datatype embedded_resource =
    TextResource string opaque
  | BlobResource string opaque
  | OtherResource opaque

datatype content_block =
    TextBlock string opaque
  | ResourceLink string opaque
  | ImageBlock string string opaque
  | AudioBlock string string opaque
  | ResourceBlock embedded_resource opaque
  | OtherBlock opaque

record content_chunk =
  cc_content :: content_block
  cc_message_id :: "string option"

record acp_tool_call =
  atc_id :: string
  atc_title :: string
  atc_kind :: opaque
  atc_status :: opaque
  atc_content :: "opaque list"
  atc_locations :: "opaque list"
  atc_raw_input :: "json option"
  atc_raw_output :: "json option"

record acp_tool_call_update =
  tu_id :: string
  tu_title :: "string option"
  tu_kind :: "opaque option"
  tu_status :: "opaque option"
  tu_content :: "opaque list option"
  tu_locations :: "opaque list option"
  tu_raw_input :: "json option"
  tu_raw_output :: "json option"

record mode_state =
  ms_current :: string
  ms_available :: "opaque list"

record usage_update =
  uu_used :: "64 word"
  uu_size :: "64 word"
  uu_cost :: "(opaque \<times> string) option"

datatype session_update =
    UserMessageChunk content_chunk
  | AgentMessageChunk content_chunk
  | AgentThoughtChunk content_chunk
  | ToolCallNew acp_tool_call
  | ToolCallUpdate acp_tool_call_update
  | Plan "opaque list"
  | AvailableCommandsUpdate "opaque list"
  | CurrentModeUpdate string
  | ConfigOptionUpdate "opaque list"
  | UsageUpdate usage_update
  | OtherUpdate opaque

datatype stop_reason = StopCancelled | StopOther opaque

datatype acp_elicitation_mode =
    AcpForm opaque
  | AcpUrl string string
  | AcpOtherMode opaque

datatype elicitation_scope =
    SessionScope string "string option"
  | OtherScope opaque

record elicitation_request =
  cr_message :: string
  cr_mode :: acp_elicitation_mode
  cr_scope :: elicitation_scope

type_synonym elicitation_content = "(string \<times> opaque) list"

datatype elicitation_action =
    AcceptAction "elicitation_content option"
  | DeclineAction
  | OtherAction opaque

text \<open>The values \<open>ToolKind::default()\<close> and \<open>ToolCallStatus::default()\<close> have.\<close>

record tool_defaults =
  default_kind :: opaque
  default_status :: opaque

end
