(* ===== verification/Thread_Model.thy ===== *)
theory Thread_Model
  imports Acp
begin

text \<open>
  \<open>crates/mjx-acp-thread/src/lib.rs\<close> and \<open>fold.rs\<close>: the conversation a session shows,
  and how each \<open>session/update\<close>, prompt and elicitation is folded into it. This theory
  holds the data and the operations; their properties are in \<open>Thread_Props\<close>.
\<close>

section \<open>Data\<close>

record user_message =
  um_id :: string
  um_protocol_id :: "string option"
  is_optimistic :: bool
  um_content :: "content_block list"

datatype chunk_kind = Message_Kind | Thought_Kind

record assistant_chunk =
  ch_kind :: chunk_kind
  ch_id :: "string option"
  ch_content :: "content_block list"

record assistant_message =
  am_id :: string
  am_chunks :: "assistant_chunk list"

record tool_call =
  tc_id :: string
  tc_title :: string
  tc_kind :: opaque
  tc_status :: opaque
  tc_content :: "opaque list"
  tc_locations :: "opaque list"
  tc_raw_input :: "json option"
  tc_raw_output :: "json option"

datatype elicitation_mode =
    FormMode opaque
  | UrlMode string string

datatype elicitation_state = Pending | Accepted | Declined | Cancelled

record elicitation =
  el_id :: string
  el_request_id :: request_id
  el_message :: string
  el_tool_call_id :: "string option"
  el_mode :: elicitation_mode
  el_state :: elicitation_state
  el_content :: "elicitation_content option"

datatype entry =
    User user_message
  | Assistant assistant_message
  | ToolCall tool_call
  | Elicitation elicitation

fun as_tool_call :: "entry \<Rightarrow> tool_call option" where
  "as_tool_call (ToolCall c) = Some c"
| "as_tool_call _ = None"

fun as_elicitation :: "entry \<Rightarrow> elicitation option" where
  "as_elicitation (Elicitation a) = Some a"
| "as_elicitation _ = None"

fun entry_id :: "entry \<Rightarrow> string" where
  "entry_id (User m) = um_id m"
| "entry_id (Assistant m) = am_id m"
| "entry_id (ToolCall c) = tc_id c"
| "entry_id (Elicitation a) = el_id a"

text \<open>\<open>AssistantChunk::text\<close>: the text blocks, the others skipped.\<close>

fun block_text :: "content_block \<Rightarrow> string" where
  "block_text (TextBlock s r) = s"
| "block_text _ = []"

definition chunk_text :: "assistant_chunk \<Rightarrow> string" where
  "chunk_text c = concat (map block_text (ch_content c))"

datatype thread_status = Idle | Generating

record usage =
  us_used :: "64 word"
  us_size :: "64 word"
  us_cost :: "(opaque \<times> string) option"

record modes =
  current_mode_id :: string
  available_modes :: "opaque list"

record thread =
  entries :: "entry list"
  plan :: "opaque list"
  status :: thread_status
  stop_reason_of_turn :: "stop_reason option"
  thread_usage :: "usage option"
  available_commands :: "opaque list"
  thread_modes :: "modes option"
  config_options :: "opaque list"
  next_entry :: nat

definition new_thread :: thread where
  "new_thread = \<lparr>entries = [], plan = [], status = Idle, stop_reason_of_turn = None,
     thread_usage = None, available_commands = [], thread_modes = None,
     config_options = [], next_entry = 0\<rparr>"

definition thread_last :: "thread \<Rightarrow> entry option" where
  "thread_last t = (if entries t = [] then None else Some (last (entries t)))"

definition find_tool_call :: "thread \<Rightarrow> string \<Rightarrow> tool_call option" where
  "find_tool_call t i = find (\<lambda>c. tc_id c = i) (List.map_filter as_tool_call (entries t))"

definition mint_id :: "string \<Rightarrow> thread \<Rightarrow> string \<times> thread" where
  "mint_id pre t =
     (let n = Suc (next_entry t) in (pre @ ''-'' @ dec n, t\<lparr>next_entry := n\<rparr>))"

definition push_entry :: "entry \<Rightarrow> thread \<Rightarrow> thread" where
  "push_entry e t = t\<lparr>entries := entries t @ [e]\<rparr>"

definition set_entry :: "nat \<Rightarrow> entry \<Rightarrow> thread \<Rightarrow> thread" where
  "set_entry i e t = t\<lparr>entries := (entries t)[i := e]\<rparr>"

section \<open>Prompts, elicitations, the end of a turn\<close>

definition push_user_prompt :: "content_block list \<Rightarrow> thread \<Rightarrow> thread" where
  "push_user_prompt content t =
     (let (i, t1) = mint_id ''user'' t;
          t2 = t1\<lparr>status := Generating, stop_reason_of_turn := None\<rparr>
      in push_entry (User \<lparr>um_id = i, um_protocol_id = None, is_optimistic = True,
                           um_content = content\<rparr>) t2)"

fun read_mode :: "acp_elicitation_mode \<Rightarrow> elicitation_mode option" where
  "read_mode (AcpForm schema) = Some (FormMode schema)"
| "read_mode (AcpUrl i url) = Some (UrlMode i url)"
| "read_mode (AcpOtherMode _) = None"

fun scope_tool_call :: "elicitation_scope \<Rightarrow> string option" where
  "scope_tool_call (SessionScope s i) = i"
| "scope_tool_call (OtherScope _) = None"

definition push_elicitation ::
  "request_id \<Rightarrow> elicitation_request \<Rightarrow> thread \<Rightarrow> bool \<times> thread" where
  "push_elicitation rid request t =
     (case read_mode (cr_mode request) of
        None \<Rightarrow> (False, t)
      | Some mode \<Rightarrow>
          let (i, t1) = mint_id ''elicitation'' t
          in (True, push_entry (Elicitation
                 \<lparr>el_id = i, el_request_id = rid, el_message = cr_message request,
                  el_tool_call_id = scope_tool_call (cr_scope request), el_mode = mode,
                  el_state = Pending, el_content = None\<rparr>) t1))"

text \<open>
  \<open>pending_elicitations().find(p)\<close> hands out the first pending elicitation satisfying
  \<open>p\<close>, mutably: \<open>update_pending p f\<close> applies \<open>f\<close> to it, and is \<open>None\<close> where there is
  none.
\<close>

fun update_pending ::
  "(elicitation \<Rightarrow> bool) \<Rightarrow> (elicitation \<Rightarrow> elicitation) \<Rightarrow> entry list \<Rightarrow> entry list option" where
  "update_pending p f [] = None"
| "update_pending p f (Elicitation a # es) =
     (if el_state a = Pending \<and> p a then Some (Elicitation (f a) # es)
      else map_option (Cons (Elicitation a)) (update_pending p f es))"
| "update_pending p f (e # es) = map_option (Cons e) (update_pending p f es)"

definition settle_elicitation ::
  "request_id \<Rightarrow> elicitation_state \<Rightarrow> elicitation_content option \<Rightarrow> thread \<Rightarrow> bool \<times> thread" where
  "settle_elicitation rid st content t =
     (case update_pending (\<lambda>a. el_request_id a = rid)
             (\<lambda>a. a\<lparr>el_state := st, el_content := content\<rparr>) (entries t) of
        None \<Rightarrow> (False, t)
      | Some es \<Rightarrow> (True, t\<lparr>entries := es\<rparr>))"

fun is_url_mode :: "string \<Rightarrow> elicitation_mode \<Rightarrow> bool" where
  "is_url_mode i (UrlMode j url) \<longleftrightarrow> j = i"
| "is_url_mode i (FormMode _) \<longleftrightarrow> False"

definition complete_elicitation :: "string \<Rightarrow> thread \<Rightarrow> bool \<times> thread" where
  "complete_elicitation i t =
     (case update_pending (\<lambda>a. is_url_mode i (el_mode a)) (\<lambda>a. a\<lparr>el_state := Accepted\<rparr>)
             (entries t) of
        None \<Rightarrow> (False, t)
      | Some es \<Rightarrow> (True, t\<lparr>entries := es\<rparr>))"

fun is_pending :: "entry \<Rightarrow> bool" where
  "is_pending (Elicitation a) \<longleftrightarrow> el_state a = Pending"
| "is_pending _ \<longleftrightarrow> False"

fun cancel_entry :: "entry \<Rightarrow> entry" where
  "cancel_entry (Elicitation a) =
     (if el_state a = Pending then Elicitation (a\<lparr>el_state := Cancelled\<rparr>) else Elicitation a)"
| "cancel_entry e = e"

definition cancel_pending_elicitations :: "thread \<Rightarrow> nat \<times> thread" where
  "cancel_pending_elicitations t =
     (length (filter is_pending (entries t)), t\<lparr>entries := map cancel_entry (entries t)\<rparr>)"

definition finish_turn :: "stop_reason \<Rightarrow> thread \<Rightarrow> thread" where
  "finish_turn r t = t\<lparr>status := Idle, stop_reason_of_turn := Some r\<rparr>"

fun can_merge_message_chunks :: "string option \<Rightarrow> string option \<Rightarrow> bool" where
  "can_merge_message_chunks (Some existing) (Some incoming) \<longleftrightarrow> existing = incoming"
| "can_merge_message_chunks _ _ \<longleftrightarrow> True"

section \<open>Folding session updates\<close>

datatype thread_event =
    EntryAdded nat
  | EntryUpdated nat
  | PlanUpdated
  | CommandsUpdated
  | ModeUpdated
  | ConfigOptionsUpdated
  | UsageUpdated

fun resource_uri :: "embedded_resource \<Rightarrow> string option" where
  "resource_uri (TextResource uri _) = Some uri"
| "resource_uri (BlobResource uri _) = Some uri"
| "resource_uri (OtherResource _) = None"

fun same_block :: "content_block \<Rightarrow> content_block \<Rightarrow> bool" where
  "same_block (TextBlock a _) (TextBlock b _) \<longleftrightarrow> a = b"
| "same_block (ResourceLink a _) (ResourceLink b _) \<longleftrightarrow> a = b"
| "same_block (ImageBlock a m _) (ImageBlock b n _) \<longleftrightarrow> a = b \<and> m = n"
| "same_block (AudioBlock a m _) (AudioBlock b n _) \<longleftrightarrow> a = b \<and> m = n"
| "same_block (ResourceBlock a x) (ResourceBlock b y) \<longleftrightarrow>
     (case (resource_uri a, resource_uri b) of
        (Some u, Some v) \<Rightarrow> u = v
      | _ \<Rightarrow> a = b \<and> x = y)"
| "same_block a b \<longleftrightarrow> a = b"

definition append_content :: "content_block \<Rightarrow> content_block list \<Rightarrow> content_block list" where
  "append_content incoming content =
     (case incoming of
        TextBlock s r \<Rightarrow>
          (case rev content of
             TextBlock existing r' # front \<Rightarrow> rev front @ [TextBlock (existing @ s) r']
           | _ \<Rightarrow> content @ [incoming])
      | _ \<Rightarrow> content @ [incoming])"

text \<open>A chunk that extends nothing starts an entry of its own.\<close>

definition start_user ::
  "content_block \<Rightarrow> string option \<Rightarrow> thread \<Rightarrow> thread_event list \<times> thread" where
  "start_user content mid t =
     (let (i, t1) = mint_id ''user'' t
      in ([EntryAdded (length (entries t))],
          push_entry (User \<lparr>um_id = i, um_protocol_id = mid, is_optimistic = False,
                            um_content = [content]\<rparr>) t1))"

definition push_user_chunk ::
  "content_block \<Rightarrow> string option \<Rightarrow> thread \<Rightarrow> thread_event list \<times> thread" where
  "push_user_chunk content mid t =
     (let n = length (entries t) - 1
      in case thread_last t of
           Some (User m) \<Rightarrow>
             if is_optimistic m \<and> (\<exists>b \<in> set (um_content m). same_block b content)
                \<and> can_merge_message_chunks (um_protocol_id m) mid
             then ([], if um_protocol_id m = None
                       then set_entry n (User (m\<lparr>um_protocol_id := mid\<rparr>)) t else t)
             else if \<not> is_optimistic m \<and> can_merge_message_chunks (um_protocol_id m) mid
             then ([EntryUpdated n],
                   set_entry n (User (m\<lparr>um_content := um_content m @ [content]\<rparr>)) t)
             else start_user content mid t
         | _ \<Rightarrow> start_user content mid t)"

definition start_assistant ::
  "chunk_kind \<Rightarrow> content_block \<Rightarrow> string option \<Rightarrow> thread \<Rightarrow> thread_event list \<times> thread" where
  "start_assistant kind content mid t =
     (let (i, t1) = mint_id ''assistant'' t
      in ([EntryAdded (length (entries t))],
          push_entry (Assistant \<lparr>am_id = i, am_chunks =
            [\<lparr>ch_kind = kind, ch_id = mid, ch_content = [content]\<rparr>]\<rparr>) t1))"

text \<open>
  The chunks of an assistant message after one more: the last run is extended when the
  kind is the same and the labels do not contradict each other, otherwise a run is added.
\<close>

definition extend_chunks ::
  "chunk_kind \<Rightarrow> content_block \<Rightarrow> string option \<Rightarrow> assistant_chunk list \<Rightarrow> assistant_chunk list" where
  "extend_chunks kind content mid chunks =
     (let fresh = chunks @ [\<lparr>ch_kind = kind, ch_id = mid, ch_content = [content]\<rparr>]
      in case rev chunks of
           [] \<Rightarrow> fresh
         | c # front \<Rightarrow>
             if ch_kind c = kind \<and> can_merge_message_chunks (ch_id c) mid
             then rev front @ [c\<lparr>ch_id := (if ch_id c = None then mid else ch_id c),
                                 ch_content := append_content content (ch_content c)\<rparr>]
             else fresh)"

definition push_assistant_chunk ::
  "chunk_kind \<Rightarrow> content_block \<Rightarrow> string option \<Rightarrow> thread \<Rightarrow> thread_event list \<times> thread" where
  "push_assistant_chunk kind content mid t =
     (let n = length (entries t) - 1
      in case thread_last t of
           Some (Assistant m) \<Rightarrow>
             ([EntryUpdated n],
              set_entry n (Assistant (m\<lparr>am_chunks := extend_chunks kind content mid (am_chunks m)\<rparr>)) t)
         | _ \<Rightarrow> start_assistant kind content mid t)"

fun position :: "('a \<Rightarrow> bool) \<Rightarrow> 'a list \<Rightarrow> nat option" where
  "position p [] = None"
| "position p (x # xs) = (if p x then Some 0 else map_option Suc (position p xs))"

definition is_tool_call :: "string \<Rightarrow> entry \<Rightarrow> bool" where
  "is_tool_call i e = (case as_tool_call e of None \<Rightarrow> False | Some c \<Rightarrow> tc_id c = i)"

definition index_of_tool_call :: "thread \<Rightarrow> string \<Rightarrow> nat option" where
  "index_of_tool_call t i = position (is_tool_call i) (entries t)"

definition incoming_tool_call :: "acp_tool_call \<Rightarrow> tool_call" where
  "incoming_tool_call c =
     \<lparr>tc_id = atc_id c, tc_title = atc_title c, tc_kind = atc_kind c,
      tc_status = atc_status c, tc_content = atc_content c, tc_locations = atc_locations c,
      tc_raw_input = atc_raw_input c, tc_raw_output = atc_raw_output c\<rparr>"

definition upsert_tool_call :: "acp_tool_call \<Rightarrow> thread \<Rightarrow> thread_event list \<times> thread" where
  "upsert_tool_call call t =
     (let incoming = incoming_tool_call call
      in case index_of_tool_call t (tc_id incoming) of
           Some index \<Rightarrow> ([EntryUpdated index], set_entry index (ToolCall incoming) t)
         | None \<Rightarrow> ([EntryAdded (length (entries t))], push_entry (ToolCall incoming) t))"

definition or_else :: "'a option \<Rightarrow> 'a \<Rightarrow> 'a" where
  "or_else x d = (case x of None \<Rightarrow> d | Some v \<Rightarrow> v)"

definition orphan_tool_call :: "tool_defaults \<Rightarrow> acp_tool_call_update \<Rightarrow> tool_call" where
  "orphan_tool_call D u =
     \<lparr>tc_id = tu_id u, tc_title = or_else (tu_title u) [],
      tc_kind = or_else (tu_kind u) (default_kind D),
      tc_status = or_else (tu_status u) (default_status D),
      tc_content = or_else (tu_content u) [], tc_locations = or_else (tu_locations u) [],
      tc_raw_input = tu_raw_input u, tc_raw_output = tu_raw_output u\<rparr>"

text \<open>Only the fields the update carries are touched.\<close>

definition revise_tool_call :: "acp_tool_call_update \<Rightarrow> tool_call \<Rightarrow> tool_call" where
  "revise_tool_call u c =
     c\<lparr>tc_title := or_else (tu_title u) (tc_title c),
       tc_kind := or_else (tu_kind u) (tc_kind c),
       tc_status := or_else (tu_status u) (tc_status c),
       tc_content := or_else (tu_content u) (tc_content c),
       tc_locations := or_else (tu_locations u) (tc_locations c),
       tc_raw_input := (if tu_raw_input u = None then tc_raw_input c else tu_raw_input u),
       tc_raw_output := (if tu_raw_output u = None then tc_raw_output c else tu_raw_output u)\<rparr>"

text \<open>
  The \<open>unreachable!\<close> of \<open>update_tool_call\<close> is the branch of an index that does not hold
  a tool call; it is kept as a branch that changes nothing, and \<open>Thread_Props\<close> shows it
  is never taken.
\<close>

definition update_tool_call ::
  "tool_defaults \<Rightarrow> acp_tool_call_update \<Rightarrow> thread \<Rightarrow> thread_event list \<times> thread" where
  "update_tool_call D u t =
     (case index_of_tool_call t (tu_id u) of
        None \<Rightarrow> ([EntryAdded (length (entries t))], push_entry (ToolCall (orphan_tool_call D u)) t)
      | Some index \<Rightarrow>
          (case entries t ! index of
             ToolCall c \<Rightarrow> ([EntryUpdated index], set_entry index (ToolCall (revise_tool_call u c)) t)
           | _ \<Rightarrow> ([], t)))"

fun apply_update ::
  "tool_defaults \<Rightarrow> session_update \<Rightarrow> thread \<Rightarrow> thread_event list \<times> thread" where
  "apply_update D (UserMessageChunk c) t = push_user_chunk (cc_content c) (cc_message_id c) t"
| "apply_update D (AgentMessageChunk c) t =
     push_assistant_chunk Message_Kind (cc_content c) (cc_message_id c) t"
| "apply_update D (AgentThoughtChunk c) t =
     push_assistant_chunk Thought_Kind (cc_content c) (cc_message_id c) t"
| "apply_update D (ToolCallNew c) t = upsert_tool_call c t"
| "apply_update D (ToolCallUpdate u) t = update_tool_call D u t"
| "apply_update D (Plan p) t = ([PlanUpdated], t\<lparr>plan := p\<rparr>)"
| "apply_update D (AvailableCommandsUpdate cs) t = ([CommandsUpdated], t\<lparr>available_commands := cs\<rparr>)"
| "apply_update D (CurrentModeUpdate m) t =
     (case thread_modes t of
        Some ms \<Rightarrow> ([ModeUpdated], t\<lparr>thread_modes := Some (ms\<lparr>current_mode_id := m\<rparr>)\<rparr>)
      | None \<Rightarrow> ([], t))"
| "apply_update D (ConfigOptionUpdate os) t = ([ConfigOptionsUpdated], t\<lparr>config_options := os\<rparr>)"
| "apply_update D (UsageUpdate u) t =
     ([UsageUpdated], t\<lparr>thread_usage := Some \<lparr>us_used = uu_used u, us_size = uu_size u,
                                              us_cost = uu_cost u\<rparr>\<rparr>)"
| "apply_update D (OtherUpdate _) t = ([], t)"

definition set_modes :: "mode_state \<Rightarrow> thread \<Rightarrow> thread" where
  "set_modes s t =
     t\<lparr>thread_modes := Some \<lparr>current_mode_id = ms_current s, available_modes = ms_available s\<rparr>\<rparr>"

definition set_config_options :: "opaque list \<Rightarrow> thread \<Rightarrow> thread" where
  "set_config_options os t = t\<lparr>config_options := os\<rparr>"

end
