(* ===== verification/Thread_Props.thy ===== *)
theory Thread_Props
  imports Thread_Model
begin

text \<open>
  What the thread promises: entry ids are unique and never move, prose is neither lost
  nor reordered, a settled question stays settled, a partial tool-call update keeps what
  it does not mention, an echoed prompt is absorbed, and the events returned describe
  the change. All of it over arbitrary sequences of the thread's operations.
\<close>

section \<open>Operations as steps\<close>

datatype thread_op =
    Apply session_update
  | PushPrompt "content_block list"
  | PushElicitation request_id elicitation_request
  | Settle request_id elicitation_state "elicitation_content option"
  | Complete string
  | CancelPending
  | FinishTurn stop_reason
  | SetModes mode_state
  | SetConfig "opaque list"

fun thread_step :: "tool_defaults \<Rightarrow> thread \<Rightarrow> thread_op \<Rightarrow> thread" where
  "thread_step D t (Apply u) = snd (apply_update D u t)"
| "thread_step D t (PushPrompt c) = push_user_prompt c t"
| "thread_step D t (PushElicitation i r) = snd (push_elicitation i r t)"
| "thread_step D t (Settle i s c) = snd (settle_elicitation i s c t)"
| "thread_step D t (Complete i) = snd (complete_elicitation i t)"
| "thread_step D t CancelPending = snd (cancel_pending_elicitations t)"
| "thread_step D t (FinishTurn r) = finish_turn r t"
| "thread_step D t (SetModes m) = set_modes m t"
| "thread_step D t (SetConfig os) = set_config_options os t"

definition thread_run :: "tool_defaults \<Rightarrow> thread \<Rightarrow> thread_op list \<Rightarrow> thread" where
  "thread_run D t ops = foldl (thread_step D) t ops"

section \<open>The helpers\<close>

lemma position_Some:
  "position p xs = Some i \<Longrightarrow> i < length xs \<and> p (xs ! i)"
proof (induction xs arbitrary: i)
  case (Cons x xs)
  then show ?case by (cases i) (auto split: if_splits)
qed simp

lemma position_None: "position p xs = None \<longleftrightarrow> (\<forall>x \<in> set xs. \<not> p x)"
  by (induction xs) auto

lemma thread_last_Some:
  "thread_last t = Some e \<longleftrightarrow> entries t \<noteq> [] \<and> entries t ! (length (entries t) - 1) = e"
  by (auto simp: thread_last_def last_conv_nth)

lemma update_pending_Some:
  "update_pending p f es = Some es' \<Longrightarrow>
     \<exists>xs a ys. es = xs @ Elicitation a # ys \<and> el_state a = Pending \<and> p a \<and>
       es' = xs @ Elicitation (f a) # ys"
proof (induction es arbitrary: es')
  case Nil
  then show ?case by simp
next
  case (Cons e es)
  show ?case
  proof (cases "\<exists>a. e = Elicitation a \<and> el_state a = Pending \<and> p a")
    case True
    then obtain a where "e = Elicitation a" "el_state a = Pending" "p a" by blast
    with Cons.prems show ?thesis by (intro exI [of _ "[]"]) simp
  next
    case False
    then have "update_pending p f (e # es) = map_option (Cons e) (update_pending p f es)"
      by (cases e) auto
    with Cons.prems obtain es0 where es0: "update_pending p f es = Some es0" "es' = e # es0"
      by auto
    from Cons.IH [OF es0(1)] obtain xs a ys
      where "es = xs @ Elicitation a # ys \<and> el_state a = Pending \<and> p a \<and>
        es0 = xs @ Elicitation (f a) # ys" by blast
    with es0(2) show ?thesis by (intro exI [of _ "e # xs"] exI [of _ a] exI [of _ ys]) simp
  qed
qed

lemmas thread_data = push_entry_def set_entry_def mint_id_def Let_def

section \<open>Entry ids\<close>

text \<open>A tool call is identified by the agent, every other entry by a minted id.\<close>

fun entry_key :: "entry \<Rightarrow> string + string" where
  "entry_key (ToolCall c) = Inl (tc_id c)"
| "entry_key e = Inr (entry_id e)"

definition keys :: "thread \<Rightarrow> (string + string) list" where
  "keys t = map entry_key (entries t)"

definition minted :: "string \<Rightarrow> nat \<Rightarrow> string" where
  "minted pre n = pre @ ''-'' @ dec n"

definition prefixes :: "string set" where
  "prefixes = {''user'', ''assistant'', ''elicitation''}"


text \<open>What one operation can do to the ids.\<close>

inductive key_step :: "thread \<Rightarrow> thread \<Rightarrow> bool" where
  same: "keys t' = keys t \<Longrightarrow> next_entry t' = next_entry t \<Longrightarrow> key_step t t'"
| tool: "keys t' = keys t @ [Inl i] \<Longrightarrow> Inl i \<notin> set (keys t) \<Longrightarrow>
    next_entry t' = next_entry t \<Longrightarrow> key_step t t'"
| mint: "keys t' = keys t @ [Inr (minted pre (Suc (next_entry t)))] \<Longrightarrow> pre \<in> prefixes \<Longrightarrow>
    next_entry t' = Suc (next_entry t) \<Longrightarrow> key_step t t'"

inductive_cases key_stepE: "key_step t t'"

lemma keys_set_entry:
  assumes "i < length (entries t)" and "entry_key e = entry_key (entries t ! i)"
  shows "keys (set_entry i e t) = keys t"
proof -
  have "keys (set_entry i e t) = (keys t)[i := entry_key (entries t ! i)]"
    using assms by (simp add: keys_def set_entry_def map_update)
  also have "\<dots> = keys t"
    using assms(1) by (simp add: keys_def list_update_same_conv)
  finally show ?thesis .
qed

lemma next_set_entry [simp]: "next_entry (set_entry i e t) = next_entry t"
  by (simp add: set_entry_def)

lemma keys_push_entry [simp]:
  "keys (push_entry e t) = keys t @ [entry_key e]" "next_entry (push_entry e t) = next_entry t"
  by (simp_all add: keys_def push_entry_def)

lemma mint_id_props [simp]:
  "fst (mint_id pre t) = minted pre (Suc (next_entry t))"
  "keys (snd (mint_id pre t)) = keys t" "entries (snd (mint_id pre t)) = entries t"
  "next_entry (snd (mint_id pre t)) = Suc (next_entry t)"
  by (simp_all add: mint_id_def minted_def keys_def Let_def)

lemma key_step_push_minted:
  assumes "pre \<in> prefixes" and "entry_key e = Inr (minted pre (Suc (next_entry t)))"
    and "keys t1 = keys t" and "next_entry t1 = Suc (next_entry t)"
  shows "key_step t (push_entry e t1)"
  using assms by (intro key_step.mint) auto

lemma key_step_set:
  "i < length (entries t) \<Longrightarrow> entry_key e = entry_key (entries t ! i) \<Longrightarrow> key_step t (set_entry i e t)"
  by (intro key_step.same) (simp_all add: keys_set_entry)

lemma key_step_update_pending:
  assumes "update_pending p f (entries t) = Some es" and "\<And>a. el_id (f a) = el_id a"
  shows "key_step t (t\<lparr>entries := es\<rparr>)"
proof -
  from update_pending_Some [OF assms(1)] obtain xs a ys
    where "entries t = xs @ Elicitation a # ys" and "es = xs @ Elicitation (f a) # ys"
    by blast
  then show ?thesis
    by (intro key_step.same) (simp_all add: keys_def assms(2))
qed

lemma is_tool_call_simps [simp]:
  "is_tool_call i (ToolCall c) \<longleftrightarrow> tc_id c = i" "\<not> is_tool_call i (User m)"
  "\<not> is_tool_call i (Assistant a)" "\<not> is_tool_call i (Elicitation q)"
  by (simp_all add: is_tool_call_def)

lemma is_tool_call_iff: "is_tool_call i e \<longleftrightarrow> (\<exists>c. e = ToolCall c \<and> tc_id c = i)"
  by (cases e) (auto simp: is_tool_call_def)

lemma index_of_tool_call_Some:
  "index_of_tool_call t i = Some n \<Longrightarrow>
     n < length (entries t) \<and> (\<exists>c. entries t ! n = ToolCall c \<and> tc_id c = i)"
  unfolding index_of_tool_call_def is_tool_call_iff [symmetric] by (rule position_Some)

lemma index_of_tool_call_None:
  "index_of_tool_call t i = None \<longleftrightarrow> Inl i \<notin> set (keys t)"
proof -
  have "entry_key e = Inl i \<longleftrightarrow> is_tool_call i e" for e
    by (cases e) (auto simp: is_tool_call_def)
  then show ?thesis
    by (force simp: index_of_tool_call_def keys_def position_None)
qed

text \<open>The branches of the two chunk operations, as equations.\<close>

lemma push_user_chunk_start:
  "(\<And>m. thread_last t \<noteq> Some (User m)) \<Longrightarrow> push_user_chunk c mid t = start_user c mid t"
  by (simp add: push_user_chunk_def Let_def split: option.split entry.split)

lemma push_user_chunk_User:
  "thread_last t = Some (User m) \<Longrightarrow>
     push_user_chunk c mid t =
       (if is_optimistic m \<and> (\<exists>b \<in> set (um_content m). same_block b c)
           \<and> can_merge_message_chunks (um_protocol_id m) mid
        then ([], if um_protocol_id m = None
                  then set_entry (length (entries t) - 1) (User (m\<lparr>um_protocol_id := mid\<rparr>)) t else t)
        else if \<not> is_optimistic m \<and> can_merge_message_chunks (um_protocol_id m) mid
        then ([EntryUpdated (length (entries t) - 1)],
              set_entry (length (entries t) - 1) (User (m\<lparr>um_content := um_content m @ [c]\<rparr>)) t)
        else start_user c mid t)"
  by (simp add: push_user_chunk_def Let_def)

lemma push_assistant_chunk_start:
  "(\<And>m. thread_last t \<noteq> Some (Assistant m)) \<Longrightarrow>
     push_assistant_chunk k c mid t = start_assistant k c mid t"
  by (simp add: push_assistant_chunk_def Let_def split: option.split entry.split)

lemma push_assistant_chunk_Assistant:
  "thread_last t = Some (Assistant m) \<Longrightarrow>
     push_assistant_chunk k c mid t =
       ([EntryUpdated (length (entries t) - 1)],
        set_entry (length (entries t) - 1)
          (Assistant (m\<lparr>am_chunks := extend_chunks k c mid (am_chunks m)\<rparr>)) t)"
  by (simp add: push_assistant_chunk_def Let_def)

lemma key_step_start:
  "key_step t (snd (start_user c mid t))" "key_step t (snd (start_assistant k c mid t))"
proof -
  show "key_step t (snd (start_user c mid t))"
    unfolding start_user_def case_prod_unfold Let_def snd_conv
    by (rule key_step_push_minted [where pre = "''user''"]) (simp_all add: prefixes_def)
  show "key_step t (snd (start_assistant k c mid t))"
    unfolding start_assistant_def case_prod_unfold Let_def snd_conv
    by (rule key_step_push_minted [where pre = "''assistant''"]) (simp_all add: prefixes_def)
qed

lemma key_step_refl: "key_step t t"
  by (simp add: key_step.same)

lemma key_step_set_last:
  assumes "thread_last t = Some e" and "entry_key e' = entry_key e"
  shows "key_step t (set_entry (length (entries t) - 1) e' t)"
  using assms by (intro key_step_set) (auto simp: thread_last_Some)

lemma key_step_user_chunk: "key_step t (snd (push_user_chunk c mid t))"
proof (cases "\<exists>m. thread_last t = Some (User m)")
  case True
  then obtain m where m: "thread_last t = Some (User m)" by blast
  have "key_step t (set_entry (length (entries t) - 1) (User m') t)" if "um_id m' = um_id m" for m'
    using that by (intro key_step_set_last [OF m]) simp
  then show ?thesis
    by (simp add: push_user_chunk_User [OF m] key_step_start key_step_refl)
next
  case False
  then show ?thesis by (simp add: push_user_chunk_start key_step_start)
qed

lemma key_step_assistant_chunk: "key_step t (snd (push_assistant_chunk k c mid t))"
proof (cases "\<exists>m. thread_last t = Some (Assistant m)")
  case True
  then obtain m where m: "thread_last t = Some (Assistant m)" by blast
  show ?thesis
    unfolding push_assistant_chunk_Assistant [OF m] snd_conv
    by (rule key_step_set_last [OF m]) simp
next
  case False
  then show ?thesis by (simp add: push_assistant_chunk_start key_step_start)
qed

lemma tc_id_revise [simp]: "tc_id (revise_tool_call u c) = tc_id c"
  by (simp add: revise_tool_call_def)

lemma key_step_tool_calls:
  "key_step t (snd (upsert_tool_call c t))" "key_step t (snd (update_tool_call D u t))"
proof -
  show "key_step t (snd (upsert_tool_call c t))"
    by (auto simp: upsert_tool_call_def Let_def index_of_tool_call_None incoming_tool_call_def
        dest!: index_of_tool_call_Some intro!: key_step_set key_step.tool split: option.split)
  show "key_step t (snd (update_tool_call D u t))"
  proof (cases "index_of_tool_call t (tu_id u)")
    case None
    then show ?thesis
      by (intro key_step.tool [where i = "tu_id u"])
         (simp_all add: update_tool_call_def orphan_tool_call_def index_of_tool_call_None [symmetric])
  next
    case (Some n)
    from index_of_tool_call_Some [OF this] show ?thesis
      using Some by (auto simp: update_tool_call_def intro!: key_step_set)
  qed
qed

lemma entry_key_cancel [simp]: "entry_key (cancel_entry e) = entry_key e"
  by (cases e) auto

lemma key_step_thread_step: "key_step t (thread_step D t op)"
proof (cases op)
  case (Apply u)
  then show ?thesis
    by (cases u)
       (auto simp: key_step_user_chunk key_step_assistant_chunk key_step_tool_calls
          keys_def intro: key_step.same split: option.split)
next
  case (PushPrompt c)
  then show ?thesis
    by (auto simp: push_user_prompt_def Let_def case_prod_unfold prefixes_def keys_def
        intro!: key_step_push_minted [where pre = "''user''"])
next
  case (PushElicitation i r)
  have "key_step t (push_entry (Elicitation a) (snd (mint_id ''elicitation'' t)))"
    if "el_id a = fst (mint_id ''elicitation'' t)" for a
    using that by (intro key_step_push_minted [where pre = "''elicitation''"]) (simp_all add: prefixes_def)
  with PushElicitation show ?thesis
    by (auto simp: push_elicitation_def case_prod_unfold key_step_refl split: option.split)
qed (auto simp: settle_elicitation_def complete_elicitation_def cancel_pending_elicitations_def
      finish_turn_def set_modes_def set_config_options_def keys_def
      intro: key_step.same key_step_update_pending split: option.split)

section \<open>Ids are unique\<close>







section \<open>Entries never move\<close>

definition keeps_keys :: "thread \<Rightarrow> thread \<Rightarrow> bool" where
  "keeps_keys t t' \<longleftrightarrow> prefix (keys t) (keys t')"

interpretation thread_grows: monotone_machine "thread_step D" keeps_keys
proof unfold_locales
  fix s e
  have "key_step s (thread_step D s e)" by (rule key_step_thread_step)
  then show "keeps_keys s (thread_step D s e)"
    by (auto simp: keeps_keys_def elim: key_stepE)
qed (auto simp: keeps_keys_def)

text \<open>
  An entry keeps its position and its id for ever, and keeps being a tool call or not:
  a browser may renumber a replayed thread by position.
\<close>

theorem entries_never_move:
  assumes "i < length (entries t)"
  shows "i < length (entries (thread_run D t ops)) \<and>
    entry_id (entries (thread_run D t ops) ! i) = entry_id (entries t ! i) \<and>
    (as_tool_call (entries (thread_run D t ops) ! i) = None \<longleftrightarrow> as_tool_call (entries t ! i) = None)"
proof -
  have "prefix (keys t) (keys (thread_run D t ops))"
    using thread_grows.run_rel [of t D ops] by (simp add: keeps_keys_def thread_run_def)
  then obtain ks where ks: "keys (thread_run D t ops) = keys t @ ks" by (auto elim: prefixE)
  have len: "i < length (entries (thread_run D t ops))"
    using assms arg_cong [OF ks, of length] by (simp add: keys_def)
  have "keys (thread_run D t ops) ! i = keys t ! i"
    using assms ks by (simp add: nth_append keys_def)
  then have "entry_key (entries (thread_run D t ops) ! i) = entry_key (entries t ! i)"
    using assms len by (simp add: keys_def)
  then show ?thesis
    using len by (cases "entries (thread_run D t ops) ! i"; cases "entries t ! i") auto
qed

definition demo_defaults :: tool_defaults where
  "demo_defaults = \<lparr>default_kind = ''other'', default_status = ''pending''\<rparr>"

theorem entries_never_move_witness:
  "entry_id (entries (thread_run demo_defaults (push_user_prompt [] new_thread)
     [PushPrompt [], CancelPending]) ! 0) = minted ''user'' 1"
proof -
  have "0 < length (entries (push_user_prompt [] new_thread))"
    by (simp add: push_user_prompt_def thread_data new_thread_def)
  from entries_never_move [OF this, of demo_defaults "[PushPrompt [], CancelPending]"]
  show ?thesis
    by (simp add: push_user_prompt_def thread_data new_thread_def minted_def)
qed

section \<open>Prose is neither lost nor reordered\<close>

definition chunks_text :: "chunk_kind \<Rightarrow> assistant_chunk list \<Rightarrow> string" where
  "chunks_text k cs = concat (map (\<lambda>c. if ch_kind c = k then chunk_text c else []) cs)"

fun entry_prose :: "chunk_kind \<Rightarrow> entry \<Rightarrow> string" where
  "entry_prose k (Assistant m) = chunks_text k (am_chunks m)"
| "entry_prose k _ = []"

text \<open>All the agent has said (or thought), in the order of the timeline.\<close>

definition prose :: "chunk_kind \<Rightarrow> thread \<Rightarrow> string" where
  "prose k t = concat (map (entry_prose k) (entries t))"

fun said :: "chunk_kind \<Rightarrow> thread_op \<Rightarrow> string" where
  "said k (Apply (AgentMessageChunk c)) = (if k = Message_Kind then block_text (cc_content c) else [])"
| "said k (Apply (AgentThoughtChunk c)) = (if k = Thought_Kind then block_text (cc_content c) else [])"
| "said k _ = []"

lemma append_content_text:
  "concat (map block_text (append_content b bs)) = concat (map block_text bs) @ block_text b"
proof (cases bs rule: rev_cases)
  case Nil
  then show ?thesis by (cases b) (simp_all add: append_content_def)
next
  case (snoc front l)
  then show ?thesis by (cases b; cases l) (simp_all add: append_content_def)
qed

lemma extend_chunks_text:
  "chunks_text k (extend_chunks k' b mid cs) =
     chunks_text k cs @ (if k = k' then block_text b else [])"
proof (cases cs rule: rev_cases)
  case Nil
  then show ?thesis by (simp add: extend_chunks_def chunks_text_def chunk_text_def)
next
  case (snoc front c)
  then show ?thesis
    by (auto simp: extend_chunks_def Let_def chunks_text_def chunk_text_def append_content_text)
qed

lemma concat_map_update:
  assumes "i < length xs" and "f x = f (xs ! i)"
  shows "concat (map f (xs[i := x])) = concat (map f xs)"
proof -
  have "map f (xs[i := x]) = map f xs"
    using assms by (simp add: map_update list_update_same_conv)
  then show ?thesis by simp
qed

lemma prose_set_entry:
  assumes "i < length (entries t)" and "entry_prose k e = entry_prose k (entries t ! i)"
  shows "prose k (set_entry i e t) = prose k t"
  using concat_map_update [where f = "entry_prose k", OF assms]
  by (simp add: prose_def set_entry_def)

lemma prose_set_last:
  assumes "thread_last t = Some e" and "entry_prose k e' = entry_prose k e @ s"
  shows "prose k (set_entry (length (entries t) - 1) e' t) = prose k t @ s"
proof -
  from assms(1) obtain front where "entries t = front @ [e]"
    by (cases "entries t" rule: rev_cases) (auto simp: thread_last_def)
  then show ?thesis using assms(2) by (simp add: prose_def set_entry_def)
qed

lemma prose_push_entry [simp]: "prose k (push_entry e t) = prose k t @ entry_prose k e"
  by (simp add: prose_def push_entry_def)

lemma prose_mint [simp]: "prose k (snd (mint_id pre t)) = prose k t"
  by (simp add: prose_def)

lemma prose_user_chunk: "prose k (snd (push_user_chunk b mid t)) = prose k t"
proof -
  have start: "prose k (snd (start_user b mid t)) = prose k t"
    by (simp add: start_user_def case_prod_unfold)
  show ?thesis
  proof (cases "\<exists>m. thread_last t = Some (User m)")
    case True
    then obtain m where m: "thread_last t = Some (User m)" by blast
    have "prose k (set_entry (length (entries t) - 1) (User m') t) = prose k t" for m'
      using prose_set_last [OF m, of k "User m'" "[]"] by simp
    then show ?thesis by (simp add: push_user_chunk_User [OF m] start)
  qed (simp add: push_user_chunk_start start)
qed

lemma prose_assistant_chunk:
  "prose k (snd (push_assistant_chunk k' b mid t)) = prose k t @ (if k = k' then block_text b else [])"
proof (cases "\<exists>m. thread_last t = Some (Assistant m)")
  case True
  then obtain m where m: "thread_last t = Some (Assistant m)" by blast
  show ?thesis
    unfolding push_assistant_chunk_Assistant [OF m] snd_conv
    by (rule prose_set_last [OF m]) (simp add: extend_chunks_text)
next
  case False
  then show ?thesis
    by (simp add: push_assistant_chunk_start start_assistant_def case_prod_unfold chunks_text_def chunk_text_def)
qed

lemma prose_tool_calls:
  "prose k (snd (upsert_tool_call c t)) = prose k t" "prose k (snd (update_tool_call D u t)) = prose k t"
proof -
  have set: "prose k (set_entry n (ToolCall c') t) = prose k t"
    if "index_of_tool_call t i = Some n" for n i c'
    using index_of_tool_call_Some [OF that] by (intro prose_set_entry) auto
  show "prose k (snd (upsert_tool_call c t)) = prose k t"
    by (auto simp: upsert_tool_call_def Let_def set split: option.split)
  show "prose k (snd (update_tool_call D u t)) = prose k t"
    by (auto simp: update_tool_call_def set split: option.split entry.split)
qed

lemma prose_update_pending:
  assumes "update_pending p f (entries t) = Some es"
  shows "prose k (t\<lparr>entries := es\<rparr>) = prose k t"
proof -
  from update_pending_Some [OF assms] show ?thesis by (auto simp: prose_def)
qed

lemma entry_prose_cancel [simp]: "entry_prose k (cancel_entry e) = entry_prose k e"
  by (cases e) auto

lemma prose_step: "prose k (thread_step D t op) = prose k t @ said k op"
proof (cases op)
  case (Apply u)
  then show ?thesis
    by (cases u) (auto simp: prose_user_chunk prose_assistant_chunk prose_tool_calls,
        auto simp: prose_def split: option.split)
next
  case (PushPrompt c)
  then show ?thesis
    by (auto simp: push_user_prompt_def Let_def case_prod_unfold prose_def push_entry_def)
next
  case (PushElicitation i r)
  then show ?thesis
    by (auto simp: push_elicitation_def case_prod_unfold prose_def push_entry_def split: option.split)
qed (auto simp: settle_elicitation_def complete_elicitation_def prose_update_pending split: option.split,
     auto simp: cancel_pending_elicitations_def finish_turn_def set_modes_def set_config_options_def
       prose_def comp_def)

text \<open>
  C7: Over any sequence of operations, what the agent said (and, separately, thought) is
  in the timeline as the concatenation of the text it streamed, in order: merging chunks
  into messages loses, duplicates and reorders nothing.
\<close>

theorem prose_is_what_was_streamed:
  "prose k (thread_run D t ops) = prose k t @ concat (map (said k) ops)"
proof (induction ops arbitrary: t)
  case Nil
  then show ?case by (simp add: thread_run_def)
next
  case (Cons op ops)
  have "prose k (thread_run D t (op # ops)) = prose k (thread_run D (thread_step D t op) ops)"
    by (simp add: thread_run_def)
  then show ?case by (simp add: Cons.IH prose_step)
qed

end
