(* ===== verification/Thread_Laws.thy ===== *)
theory Thread_Laws
  imports Thread_Props
begin

text \<open>
  The remaining laws of the thread: the events returned by \<open>apply_update\<close> describe the
  change, questions settle once, tool calls are revised field by field, an echoed prompt
  is absorbed, and a stream of unlabelled tokens becomes one block.
\<close>

section \<open>Events describe the change\<close>

text \<open>
  What the events say about the timeline: an added entry is the last one, an updated
  entry is the only one that changed, and without either nothing changed beyond the
  protocol id an absorbed echo may have brought to the last entry.
\<close>

definition events_sound :: "thread_event list \<Rightarrow> thread \<Rightarrow> thread \<Rightarrow> bool" where
  "events_sound evs t t' \<longleftrightarrow>
     (case evs of
        [EntryAdded i] \<Rightarrow> i = length (entries t) \<and> (\<exists>e. entries t' = entries t @ [e])
      | [EntryUpdated i] \<Rightarrow> i < length (entries t) \<and> (\<exists>e. entries t' = (entries t)[i := e])
      | _ \<Rightarrow> entries t' = entries t \<or>
             (\<exists>m mid. thread_last t = Some (User m) \<and> um_protocol_id m = None \<and>
                entries t' = (entries t)[length (entries t) - 1 := User (m\<lparr>um_protocol_id := mid\<rparr>)]))"

lemma events_sound_start:
  "case_prod (\<lambda>evs t'. events_sound evs t t') (start_user c mid t)"
  "case_prod (\<lambda>evs t'. events_sound evs t t') (start_assistant k c mid t)"
  by (simp_all add: start_user_def start_assistant_def events_sound_def thread_data)

lemma events_sound_updated:
  "i < length (entries t) \<Longrightarrow> events_sound [EntryUpdated i] t (set_entry i e t)"
  by (auto simp: events_sound_def set_entry_def)

lemma last_index: "thread_last t = Some e \<Longrightarrow> length (entries t) - 1 < length (entries t)"
  by (simp add: thread_last_Some)

lemma events_sound_user:
  "case_prod (\<lambda>evs t'. events_sound evs t t') (push_user_chunk c mid t)"
proof (cases "\<exists>m. thread_last t = Some (User m)")
  case True
  then obtain m where m: "thread_last t = Some (User m)" by blast
  have absorbed: "events_sound [] t (set_entry (length (entries t) - 1) (User (m\<lparr>um_protocol_id := mid\<rparr>)) t)"
    if "um_protocol_id m = None"
    using m that by (auto simp: events_sound_def set_entry_def)
  have idle: "events_sound [] t t" by (simp add: events_sound_def)
  show ?thesis
    using m events_sound_start(1) [of t c mid]
    by (auto simp: push_user_chunk_User [OF m] absorbed idle simp del: One_nat_def
        intro: events_sound_updated last_index [OF m])
next
  case False
  then show ?thesis using events_sound_start(1) [of t c mid] by (simp add: push_user_chunk_start)
qed

lemma events_sound_assistant:
  "case_prod (\<lambda>evs t'. events_sound evs t t') (push_assistant_chunk k c mid t)"
proof (cases "\<exists>m. thread_last t = Some (Assistant m)")
  case True
  then obtain m where m: "thread_last t = Some (Assistant m)" by blast
  show ?thesis
    unfolding push_assistant_chunk_Assistant [OF m] prod.case
    by (rule events_sound_updated [OF last_index [OF m]])
next
  case False
  then show ?thesis
    using events_sound_start(2) [of t k c mid] by (simp add: push_assistant_chunk_start)
qed

lemma events_sound_tool_calls:
  "case_prod (\<lambda>evs t'. events_sound evs t t') (upsert_tool_call c t)"
  "case_prod (\<lambda>evs t'. events_sound evs t t') (update_tool_call D u t)"
proof -
  show "case_prod (\<lambda>evs t'. events_sound evs t t') (upsert_tool_call c t)"
    by (auto simp: upsert_tool_call_def Let_def push_entry_def events_sound_def [of "[EntryAdded _]"]
        dest!: index_of_tool_call_Some intro!: events_sound_updated split: option.split)
  show "case_prod (\<lambda>evs t'. events_sound evs t t') (update_tool_call D u t)"
    by (auto simp: update_tool_call_def push_entry_def events_sound_def [of "[EntryAdded _]"]
        dest!: index_of_tool_call_Some intro!: events_sound_updated split: option.split)
qed

text \<open>
  The events \<open>apply\<close> returns tell a viewer exactly which entry to redraw: one appended
  at the end, one changed in place and no other, or none.
\<close>

theorem apply_events_sound:
  "apply_update D u t = (evs, t') \<Longrightarrow> events_sound evs t t'"
proof (cases u)
  case (UserMessageChunk c)
  then show "apply_update D u t = (evs, t') \<Longrightarrow> events_sound evs t t'"
    using events_sound_user [of t "cc_content c" "cc_message_id c"] by auto
next
  case (AgentMessageChunk c)
  then show "apply_update D u t = (evs, t') \<Longrightarrow> events_sound evs t t'"
    using events_sound_assistant [of t Message_Kind "cc_content c" "cc_message_id c"] by auto
next
  case (AgentThoughtChunk c)
  then show "apply_update D u t = (evs, t') \<Longrightarrow> events_sound evs t t'"
    using events_sound_assistant [of t Thought_Kind "cc_content c" "cc_message_id c"] by auto
next
  case (ToolCallNew c)
  then show "apply_update D u t = (evs, t') \<Longrightarrow> events_sound evs t t'"
    using events_sound_tool_calls(1) [of t c] by auto
next
  case (ToolCallUpdate c)
  then show "apply_update D u t = (evs, t') \<Longrightarrow> events_sound evs t t'"
    using events_sound_tool_calls(2) [of t D c] by auto
qed (auto simp: events_sound_def split: option.splits)

theorem apply_events_sound_witness:
  "events_sound [EntryAdded 0] new_thread
     (snd (apply_update demo_defaults (AgentMessageChunk \<lparr>cc_content = TextBlock ''a'' [], cc_message_id = None\<rparr>) new_thread))"
  by (rule apply_events_sound [of demo_defaults
        "AgentMessageChunk \<lparr>cc_content = TextBlock ''a'' [], cc_message_id = None\<rparr>"])
     (simp add: push_assistant_chunk_def thread_last_def new_thread_def start_assistant_def thread_data)

section \<open>A question is settled once\<close>

lemma entries_never_move_step:
  "i < length (entries t) \<Longrightarrow> i < length (entries (thread_step D t op))"
proof -
  have "prefix (keys t) (keys (thread_step D t op))"
    using thread_grows.step_rel by (simp add: keeps_keys_def)
  then show "i < length (entries t) \<Longrightarrow> i < length (entries (thread_step D t op))"
    using prefix_length_le [of "keys t" "keys (thread_step D t op)"] by (simp add: keys_def)
qed

lemma step_keeps_settled:
  assumes "i < length (entries t)" and "entries t ! i = Elicitation a" and "el_state a \<noteq> Pending"
  shows "entries (thread_step D t op) ! i = Elicitation a"
proof -
  have set: "entries (set_entry n e t) ! i = Elicitation a"
    if "n < length (entries t)" and "\<And>b. entries t ! n \<noteq> Elicitation b" for n e
    using assms(2) that by (cases "n = i") (auto simp: set_entry_def)
  have push: "entries (push_entry e t1) ! i = Elicitation a" if "entries t1 = entries t" for e t1
    using assms that by (simp add: push_entry_def nth_append)
  have last: "entries (set_entry (length (entries t) - 1) e t) ! i = Elicitation a"
    if "thread_last t = Some e0" and "\<And>b. e0 \<noteq> Elicitation b" for e e0
    using that by (intro set) (auto simp: thread_last_Some)
  have pending: "es ! i = Elicitation a" if "update_pending p f (entries t) = Some es" for p f es
    using update_pending_Some [OF that] assms by (auto simp: nth_append nth_Cons split: if_splits nat.splits)
  show ?thesis
  proof (cases op)
    case (Apply u)
    have start: "entries (snd (start_user c mid t)) ! i = Elicitation a"
      "entries (snd (start_assistant k c mid t)) ! i = Elicitation a" for k c mid
      by (simp_all add: start_user_def start_assistant_def case_prod_unfold push)
    have user: "entries (snd (push_user_chunk c mid t)) ! i = Elicitation a" for c mid
    proof (cases "\<exists>m. thread_last t = Some (User m)")
      case True
      then obtain m where m: "thread_last t = Some (User m)" by blast
      then show ?thesis by (simp add: push_user_chunk_User [OF m] start last assms(2) del: One_nat_def)
    qed (simp add: push_user_chunk_start start)
    have assistant: "entries (snd (push_assistant_chunk k c mid t)) ! i = Elicitation a" for k c mid
    proof (cases "\<exists>m. thread_last t = Some (Assistant m)")
      case True
      then obtain m where m: "thread_last t = Some (Assistant m)" by blast
      then show ?thesis by (simp add: push_assistant_chunk_Assistant [OF m] last del: One_nat_def)
    qed (simp add: push_assistant_chunk_start start)
    have tool: "entries (set_entry n (ToolCall c) t) ! i = Elicitation a"
      if "index_of_tool_call t j = Some n" for n j c
      using index_of_tool_call_Some [OF that] by (intro set) auto
    have "entries (snd (upsert_tool_call c t)) ! i = Elicitation a" for c
      by (auto simp: upsert_tool_call_def Let_def push tool split: option.split)
    moreover have "entries (snd (update_tool_call D u t)) ! i = Elicitation a" for u
      by (auto simp: update_tool_call_def push tool assms(2) split: option.split entry.split)
    ultimately show ?thesis
      using Apply user assistant assms(2) by (cases u) (auto split: option.split)
  next
    case (PushPrompt c)
    then show ?thesis by (simp add: push_user_prompt_def Let_def case_prod_unfold push)
  next
    case (PushElicitation j r)
    then show ?thesis
      using assms(2) by (auto simp: push_elicitation_def case_prod_unfold push split: option.split)
  qed (use assms pending in \<open>auto simp: settle_elicitation_def complete_elicitation_def
         cancel_pending_elicitations_def finish_turn_def set_modes_def set_config_options_def
         split: option.split\<close>)
qed

text \<open>
  C17: Once a question is accepted, declined or cancelled, no later operation changes its
  state, its answer or anything else of it: a turn that ends does not undo an answer.
\<close>

theorem settled_is_final:
  assumes "i < length (entries t)" and "entries t ! i = Elicitation a" and "el_state a \<noteq> Pending"
  shows "entries (thread_run D t ops) ! i = Elicitation a"
  using assms
proof (induction ops arbitrary: t)
  case Nil
  then show ?case by (simp add: thread_run_def)
next
  case (Cons op ops)
  have "entries (thread_step D t op) ! i = Elicitation a"
    using Cons.prems by (rule step_keeps_settled)
  moreover have "i < length (entries (thread_step D t op))"
    using entries_never_move_step [OF Cons.prems(1)] .
  ultimately have "entries (thread_run D (thread_step D t op) ops) ! i = Elicitation a"
    using Cons.prems(3) by (intro Cons.IH)
  then show ?case by (simp add: thread_run_def)
qed

text \<open>A thread with one question, answered.\<close>

definition demo_request :: elicitation_request where
  "demo_request = \<lparr>cr_message = ''Branch?'', cr_mode = AcpUrl ''el-1'' ''https://x'',
     cr_scope = SessionScope ''s1'' None\<rparr>"

definition demo_question :: elicitation where
  "demo_question = \<lparr>el_id = minted ''elicitation'' 1, el_request_id = IdNumber 7,
     el_message = ''Branch?'', el_tool_call_id = None, el_mode = UrlMode ''el-1'' ''https://x'',
     el_state = Pending, el_content = None\<rparr>"

lemma demo_push:
  "push_elicitation (IdNumber 7) demo_request new_thread =
     (True, new_thread\<lparr>entries := [Elicitation demo_question], next_entry := 1\<rparr>)"
  by (simp add: push_elicitation_def demo_request_def demo_question_def thread_data new_thread_def minted_def)

theorem settled_is_final_witness:
  "let a = demo_question\<lparr>el_state := Accepted, el_content := None\<rparr>;
       t = snd (complete_elicitation ''el-1'' (snd (push_elicitation (IdNumber 7) demo_request new_thread)))
   in entries (thread_run demo_defaults t [CancelPending, FinishTurn StopCancelled]) ! 0 = Elicitation a"
proof -
  let ?t = "snd (complete_elicitation ''el-1'' (snd (push_elicitation (IdNumber 7) demo_request new_thread)))"
  have "entries ?t = [Elicitation (demo_question\<lparr>el_state := Accepted, el_content := None\<rparr>)]"
    by (simp add: demo_push complete_elicitation_def demo_question_def)
  then show ?thesis
    unfolding Let_def by (intro settled_is_final) (simp_all add: demo_question_def)
qed

text \<open>What settling can and cannot find.\<close>

lemma update_pending_None:
  "update_pending p f es = None \<longleftrightarrow> (\<forall>a. Elicitation a \<in> set es \<longrightarrow> el_state a = Pending \<longrightarrow> \<not> p a)"
proof (induction es)
  case (Cons e es)
  then show ?case by (cases e) auto
qed simp

definition asks :: "request_id \<Rightarrow> entry \<Rightarrow> bool" where
  "asks rid e \<longleftrightarrow> (\<exists>a. e = Elicitation a \<and> el_state a = Pending \<and> el_request_id a = rid)"

lemma settle_None:
  "settle_elicitation rid st c t = (False, t) \<longleftrightarrow> (\<forall>e \<in> set (entries t). \<not> asks rid e)"
proof (cases "update_pending (\<lambda>a. el_request_id a = rid) (\<lambda>a. a\<lparr>el_state := st, el_content := c\<rparr>) (entries t)")
  case None
  then have "\<forall>e \<in> set (entries t). \<not> asks rid e"
    unfolding update_pending_None by (auto simp: asks_def)
  with None show ?thesis by (simp add: settle_elicitation_def)
next
  case (Some es)
  from update_pending_Some [OF this] show ?thesis
    using Some by (auto simp: settle_elicitation_def asks_def)
qed

text \<open>
  A question put to the user is answered exactly once. If nothing was pending for
  its request id, the first answer settles it and a second one for the same request
  finds nothing to settle and changes nothing.
\<close>

theorem answered_once:
  assumes fresh: "\<forall>e \<in> set (entries t). \<not> asks rid e"
    and mode: "read_mode (cr_mode request) \<noteq> None" and st: "st \<noteq> Pending"
    and t1: "t1 = snd (push_elicitation rid request t)"
    and t2: "t2 = snd (settle_elicitation rid st c t1)"
  shows "fst (settle_elicitation rid st c t1) \<and> settle_elicitation rid st' c' t2 = (False, t2)"
proof -
  from mode obtain m where m: "read_mode (cr_mode request) = Some m" by blast
  let ?a = "\<lparr>el_id = minted ''elicitation'' (Suc (next_entry t)), el_request_id = rid,
      el_message = cr_message request, el_tool_call_id = scope_tool_call (cr_scope request),
      el_mode = m, el_state = Pending, el_content = None\<rparr>"
  have e1: "entries t1 = entries t @ [Elicitation ?a]"
    by (simp add: t1 push_elicitation_def m thread_data minted_def)
  let ?f = "\<lambda>a. a\<lparr>el_state := st, el_content := c\<rparr>"
  have "update_pending (\<lambda>a. el_request_id a = rid) ?f (entries t1) \<noteq> None"
    unfolding update_pending_None e1 by fastforce
  then obtain es where es: "update_pending (\<lambda>a. el_request_id a = rid) ?f (entries t1) = Some es"
    by blast
  from update_pending_Some [OF es] obtain xs a ys
    where split: "entries t @ [Elicitation ?a] = xs @ Elicitation a # ys"
      and a: "el_state a = Pending" "el_request_id a = rid" and es': "es = xs @ Elicitation (?f a) # ys"
    unfolding e1 by blast
  have "ys = []"
  proof (rule ccontr)
    assume "ys \<noteq> []"
    with split have "Elicitation a \<in> set (entries t)"
      by (cases ys rule: rev_cases) auto
    with fresh a show False by (auto simp: asks_def)
  qed
  with split have "xs = entries t" by simp
  with \<open>ys = []\<close> es' fresh st have "\<forall>e \<in> set es. \<not> asks rid e"
    by (auto simp: asks_def)
  moreover have "t2 = t1\<lparr>entries := es\<rparr>" and "fst (settle_elicitation rid st c t1)"
    by (simp_all add: t2 settle_elicitation_def es)
  ultimately show ?thesis by (simp add: settle_None)
qed

theorem answered_once_witness:
  "let t1 = snd (push_elicitation (IdNumber 7) demo_request new_thread);
       t2 = snd (settle_elicitation (IdNumber 7) Declined None t1)
   in settle_elicitation (IdNumber 7) Accepted None t2 = (False, t2)"
  using answered_once [of new_thread "IdNumber 7" demo_request Declined _ _ None Accepted None]
  by (simp add: new_thread_def demo_request_def Let_def)

section \<open>Tool calls\<close>

lemma find_tool_call_index:
  "find_tool_call t i =
     (case index_of_tool_call t i of None \<Rightarrow> None | Some n \<Rightarrow> as_tool_call (entries t ! n))"
proof -
  have "find (\<lambda>c. tc_id c = i) (List.map_filter as_tool_call es) =
     (case position (is_tool_call i) es of None \<Rightarrow> None | Some n \<Rightarrow> as_tool_call (es ! n))" for es
  proof (induction es)
    case Nil
    then show ?case by (simp add: List.map_filter_simps)
  next
    case (Cons e es)
    then show ?case
      by (cases e) (auto simp: List.map_filter_simps split: option.splits)
  qed
  then show ?thesis by (simp add: find_tool_call_def index_of_tool_call_def)
qed

lemma position_update_same:
  "position p xs = Some n \<Longrightarrow> p y \<Longrightarrow> position p (xs[n := y]) = Some n"
proof (induction xs arbitrary: n)
  case (Cons x xs)
  then show ?case by (cases n) (auto split: if_splits)
qed simp

lemma position_update_other:
  "n < length xs \<Longrightarrow> \<not> p (xs ! n) \<Longrightarrow> \<not> p y \<Longrightarrow> position p (xs[n := y]) = position p xs"
proof (induction xs arbitrary: n)
  case (Cons x xs)
  then show ?case by (cases n) auto
qed simp

lemma position_snoc:
  "position p (xs @ [y]) =
     (case position p xs of Some n \<Rightarrow> Some n | None \<Rightarrow> if p y then Some (length xs) else None)"
  by (induction xs) (auto split: option.splits)

lemma find_set_tool_call:
  assumes n: "index_of_tool_call t i = Some n" and c: "tc_id c = i"
  shows "find_tool_call (set_entry n (ToolCall c) t) j = (if j = i then Some c else find_tool_call t j)"
proof -
  from index_of_tool_call_Some [OF n] obtain c0
    where len: "n < length (entries t)" and c0: "entries t ! n = ToolCall c0" "tc_id c0 = i" by blast
  show ?thesis
  proof (cases "j = i")
    case True
    with n c len show ?thesis
      by (simp add: find_tool_call_index index_of_tool_call_def set_entry_def position_update_same)
  next
    case False
    with c0 c len have "index_of_tool_call (set_entry n (ToolCall c) t) j = index_of_tool_call t j"
      unfolding index_of_tool_call_def set_entry_def
      by (simp add: position_update_other)
    moreover have "entries (set_entry n (ToolCall c) t) ! m = entries t ! m"
      if "index_of_tool_call t j = Some m" for m
      using index_of_tool_call_Some [OF that] c0 False
      by (cases "m = n") (auto simp: set_entry_def)
    ultimately show ?thesis
      using False by (auto simp: find_tool_call_index split: option.split)
  qed
qed

lemma find_push_tool_call:
  assumes "index_of_tool_call t (tc_id c) = None"
  shows "find_tool_call (push_entry (ToolCall c) t) j =
    (if j = tc_id c then Some c else find_tool_call t j)"
proof -
  have "position (is_tool_call j) (entries t) = Some m \<Longrightarrow> m < length (entries t)" for m
    using position_Some by blast
  then show ?thesis
    using assms
    by (auto simp: find_tool_call_index index_of_tool_call_def push_entry_def position_snoc
        nth_append split: option.split)
qed

text \<open>
  A partial update touches the call it names and no other, keeps every field it does
  not mention, and introduces the call (with defaults) when it was never announced; a
  re-announced call replaces the one with its id.
\<close>

theorem tool_call_updates:
  "find_tool_call (snd (update_tool_call D u t)) j =
     (if j = tu_id u
      then Some (case find_tool_call t j of
                   None \<Rightarrow> orphan_tool_call D u | Some c \<Rightarrow> revise_tool_call u c)
      else find_tool_call t j) \<and>
   find_tool_call (snd (upsert_tool_call call t)) j =
     (if j = atc_id call then Some (incoming_tool_call call) else find_tool_call t j) \<and>
   revise_tool_call \<lparr>tu_id = i, tu_title = None, tu_kind = None, tu_status = None, tu_content = None,
     tu_locations = None, tu_raw_input = None, tu_raw_output = None\<rparr> c = c \<and>
   tc_status (revise_tool_call (u\<lparr>tu_status := Some s\<rparr>) c) = s"
proof (intro conjI)
  show "find_tool_call (snd (update_tool_call D u t)) j =
     (if j = tu_id u
      then Some (case find_tool_call t j of
                   None \<Rightarrow> orphan_tool_call D u | Some c \<Rightarrow> revise_tool_call u c)
      else find_tool_call t j)"
  proof (cases "index_of_tool_call t (tu_id u)")
    case None
    moreover have "tc_id (orphan_tool_call D u) = tu_id u" by (simp add: orphan_tool_call_def)
    ultimately show ?thesis
      by (simp add: update_tool_call_def find_push_tool_call find_tool_call_index [of t "tu_id u"])
  next
    case (Some n)
    from index_of_tool_call_Some [OF this] obtain c
      where "entries t ! n = ToolCall c" "tc_id c = tu_id u" by blast
    with Some show ?thesis
      by (simp add: update_tool_call_def find_set_tool_call find_tool_call_index [of t "tu_id u"])
  qed
  have incoming: "tc_id (incoming_tool_call call) = atc_id call"
    by (simp add: incoming_tool_call_def)
  show "find_tool_call (snd (upsert_tool_call call t)) j =
     (if j = atc_id call then Some (incoming_tool_call call) else find_tool_call t j)"
  proof (cases "index_of_tool_call t (atc_id call)")
    case None
    then show ?thesis by (simp add: upsert_tool_call_def Let_def incoming find_push_tool_call)
  next
    case (Some n)
    then show ?thesis by (simp add: upsert_tool_call_def Let_def incoming find_set_tool_call)
  qed
qed (simp_all add: revise_tool_call_def or_else_def)

section \<open>An echoed prompt is absorbed\<close>

definition echo_of :: "string option \<Rightarrow> content_block \<Rightarrow> thread_op" where
  "echo_of mid b = Apply (UserMessageChunk \<lparr>cc_content = b, cc_message_id = mid\<rparr>)"

lemma can_merge_refl [simp]: "can_merge_message_chunks i i"
  by (cases i) auto

lemma can_merge_None [simp]: "can_merge_message_chunks None i"
  by (cases i) auto

lemma echo_step:
  assumes last: "entries t = front @ [User m]" and opt: "is_optimistic m"
    and pid: "um_protocol_id m \<in> {None, mid}" and b: "\<exists>c \<in> set (um_content m). same_block c b"
  shows "\<exists>pid. pid \<in> {None, mid} \<and>
    thread_step D t (echo_of mid b) = t\<lparr>entries := front @ [User (m\<lparr>um_protocol_id := pid\<rparr>)]\<rparr>"
proof -
  have m: "thread_last t = Some (User m)" by (simp add: thread_last_def last)
  show ?thesis
  proof (cases "um_protocol_id m")
    case None
    with opt b have "thread_step D t (echo_of mid b) = set_entry (length (entries t) - 1) (User (m\<lparr>um_protocol_id := mid\<rparr>)) t"
      by (simp add: echo_of_def push_user_chunk_User [OF m])
    then show ?thesis by (auto simp: set_entry_def last)
  next
    case (Some i)
    then have "m\<lparr>um_protocol_id := um_protocol_id m\<rparr> = m" by simp
    moreover have "thread_step D t (echo_of mid b) = t"
      using Some opt b pid by (auto simp add: echo_of_def push_user_chunk_User [OF m])
    moreover have "t\<lparr>entries := front @ [User m]\<rparr> = t" by (simp flip: last)
    ultimately show ?thesis using pid by metis
  qed
qed

text \<open>
  An agent that echoes the prompt back, block by block and in any order, adds nothing
  to the timeline: the prompt stays one message with the content the user sent, and only
  learns the agent's id for it.
\<close>

theorem echo_is_absorbed:
  assumes "\<forall>b \<in> set bs. \<exists>c \<in> set content. same_block c b"
  shows "\<exists>pid. pid \<in> {None, mid} \<and>
    entries (thread_run D (push_user_prompt content t) (map (echo_of mid) bs)) =
      entries t @ [User \<lparr>um_id = minted ''user'' (Suc (next_entry t)), um_protocol_id = pid,
                         is_optimistic = True, um_content = content\<rparr>]"
proof -
  let ?m = "\<lambda>pid. \<lparr>um_id = minted ''user'' (Suc (next_entry t)), um_protocol_id = pid,
      is_optimistic = True, um_content = content\<rparr>"
  have "\<exists>pid. pid \<in> {None, mid} \<and> entries (thread_run D t0 (map (echo_of mid) bs)) = entries t @ [User (?m pid)]"
    if "entries t0 = entries t @ [User (?m p)]" and "p \<in> {None, mid}" for t0 p
    using assms that
  proof (induction bs arbitrary: t0 p)
    case Nil
    then show ?case by (auto simp: thread_run_def)
  next
    case (Cons b bs)
    have "\<exists>q. q \<in> {None, mid} \<and>
        thread_step D t0 (echo_of mid b) = t0\<lparr>entries := entries t @ [User ((?m p)\<lparr>um_protocol_id := q\<rparr>)]\<rparr>"
      using Cons.prems by (intro echo_step) auto
    then obtain q where q: "q \<in> {None, mid}"
      and step: "thread_step D t0 (echo_of mid b) = t0\<lparr>entries := entries t @ [User (?m q)]\<rparr>"
      by auto
    have "\<exists>pid. pid \<in> {None, mid} \<and>
        entries (thread_run D (thread_step D t0 (echo_of mid b)) (map (echo_of mid) bs)) =
          entries t @ [User (?m pid)]"
      using Cons.prems(1) q by (intro Cons.IH [of _ q]) (simp_all add: step)
    then show ?case by (simp add: thread_run_def)
  qed
  moreover have "entries (push_user_prompt content t) = entries t @ [User (?m None)]"
    by (simp add: push_user_prompt_def thread_data minted_def)
  ultimately show ?thesis by blast
qed

theorem echo_is_absorbed_witness:
  "\<exists>pid. pid \<in> {None, Some ''m1''} \<and>
    entries (thread_run demo_defaults (push_user_prompt [TextBlock ''fix'' [], ResourceLink ''file:///a'' []] new_thread)
      (map (echo_of (Some ''m1'')) [ResourceLink ''file:///a'' ''size: 420'', TextBlock ''fix'' []])) =
    [User \<lparr>um_id = minted ''user'' 1, um_protocol_id = pid, is_optimistic = True,
           um_content = [TextBlock ''fix'' [], ResourceLink ''file:///a'' []]\<rparr>]"
  using echo_is_absorbed [of "[ResourceLink ''file:///a'' ''size: 420'', TextBlock ''fix'' []]"
      "[TextBlock ''fix'' [], ResourceLink ''file:///a'' []]" "Some ''m1''" demo_defaults new_thread]
  by (simp add: new_thread_def)

section \<open>Tokens become one block\<close>

fun chunk_of :: "chunk_kind \<Rightarrow> content_chunk \<Rightarrow> session_update" where
  "chunk_of Message_Kind c = AgentMessageChunk c"
| "chunk_of Thought_Kind c = AgentThoughtChunk c"

definition token :: "chunk_kind \<Rightarrow> opaque \<Rightarrow> string \<Rightarrow> thread_op" where
  "token k r s = Apply (chunk_of k \<lparr>cc_content = TextBlock s r, cc_message_id = None\<rparr>)"

lemma token_step: "thread_step D t (token k r s) = snd (push_assistant_chunk k (TextBlock s r) None t)"
  by (cases k) (simp_all add: token_def)

definition one_block :: "string \<Rightarrow> chunk_kind \<Rightarrow> string \<Rightarrow> opaque \<Rightarrow> entry" where
  "one_block i k s r = Assistant \<lparr>am_id = i,
     am_chunks = [\<lparr>ch_kind = k, ch_id = None, ch_content = [TextBlock s r]\<rparr>]\<rparr>"

lemma token_extends:
  "entries t = front @ [one_block i k s r] \<Longrightarrow>
     entries (thread_step D t (token k r s')) = front @ [one_block i k (s @ s') r]"
proof -
  assume last: "entries t = front @ [one_block i k s r]"
  then have "thread_last t = Some (one_block i k s r)" by (simp add: thread_last_def)
  then show ?thesis
    by (simp add: token_step push_assistant_chunk_def one_block_def extend_chunks_def
        append_content_def set_entry_def last)
qed

text \<open>
  An unlabelled stream of text tokens of one kind is one entry with one block holding
  the whole text, however finely the agent cut it, and nothing earlier is touched.
\<close>

theorem tokens_become_one_block:
  assumes "\<forall>m. thread_last t \<noteq> Some (Assistant m)"
  shows "entries (thread_run D t (map (token k r) (s # ss))) =
    entries t @ [one_block (minted ''assistant'' (Suc (next_entry t))) k (concat (s # ss)) r]"
proof -
  have extend: "entries (thread_run D t0 (map (token k r) ss)) = front @ [one_block i k (s0 @ concat ss) r]"
    if "entries t0 = front @ [one_block i k s0 r]" for t0 front i s0
    using that
  proof (induction ss arbitrary: t0 s0)
    case Nil
    then show ?case by (simp add: thread_run_def)
  next
    case (Cons a ss)
    from token_extends [OF Cons.prems] have
      "entries (thread_step D t0 (token k r a)) = front @ [one_block i k (s0 @ a) r]" .
    from Cons.IH [OF this] show ?case by (simp add: thread_run_def)
  qed
  have "entries (thread_step D t (token k r s)) =
      entries t @ [one_block (minted ''assistant'' (Suc (next_entry t))) k s r]"
    using assms by (simp add: token_step push_assistant_chunk_start start_assistant_def thread_data
        minted_def one_block_def)
  from extend [OF this] show ?thesis by (simp add: thread_run_def)
qed

theorem tokens_become_one_block_witness:
  "entries (thread_run demo_defaults new_thread (map (token Message_Kind []) [''one '', ''two''])) =
     [one_block (minted ''assistant'' 1) Message_Kind ''one two'' []]"
  using tokens_become_one_block [of new_thread demo_defaults Message_Kind "[]" "''one ''" "[''two'']"]
  by (simp add: new_thread_def thread_last_def)

end
