(* ===== verification/Sessions.thy ===== *)
theory Sessions
  imports Thread_Laws
begin

text \<open>
  \<open>crates/mjx-acp-server/src/sessions.rs\<close>: the store of threads folded from the frames
  passing through the relay, with the requests in flight that attribute a response to a
  session. Reading a typed ACP message out of JSON is the schema crate's; the record
  \<open>acp\<close> extends \<open>serde\<close> with one reader per message type.
\<close>

section \<open>What the schema crate provides\<close>

record acp = serde +
  tool_dflt :: tool_defaults
  de_load :: "raw \<Rightarrow> json_error + string"
  de_resume :: "raw \<Rightarrow> json_error + string"
  de_delete :: "raw \<Rightarrow> json_error + string"
  de_close :: "raw \<Rightarrow> json_error + string"
  de_set_config :: "raw \<Rightarrow> json_error + string"
  de_prompt :: "raw \<Rightarrow> json_error + string \<times> content_block list"
  de_elicit :: "raw \<Rightarrow> json_error + elicitation_request"
  de_elicit_done :: "raw \<Rightarrow> json_error + string"
  de_session_note :: "raw \<Rightarrow> json_error + string \<times> session_update"
  de_prompt_resp :: "raw \<Rightarrow> json_error + stop_reason"
  de_new_resp :: "raw \<Rightarrow> json_error + string \<times> mode_state option \<times> opaque list option"
  de_load_resp :: "raw \<Rightarrow> json_error + mode_state option \<times> opaque list option"
  de_config_resp :: "raw \<Rightarrow> json_error + opaque list"
  de_elicit_resp :: "raw \<Rightarrow> json_error + elicitation_action"
  ser_thread :: "thread \<Rightarrow> json_error + raw"

section \<open>The store\<close>

record session_store =
  threads :: "(string, thread) hmap"
  pending_prompts :: "(request_id, string) hmap"
  pending_session_creations :: "request_id list"
  pending_session_states :: "(request_id, string) hmap"
  pending_forgets :: "(request_id, string) hmap"
  pending_config_options :: "(request_id, string) hmap"
  pending_elicitations :: "(request_id, string) hmap"

definition new_store :: session_store where
  "new_store = \<lparr>threads = [], pending_prompts = [], pending_session_creations = [],
     pending_session_states = [], pending_forgets = [], pending_config_options = [],
     pending_elicitations = []\<rparr>"

definition thread_of :: "session_store \<Rightarrow> string \<Rightarrow> thread option" where
  "thread_of s sid = hm_get (threads s) sid"

definition store_len :: "session_store \<Rightarrow> nat" where
  "store_len s = length (threads s)"

definition session_of_prompt :: "session_store \<Rightarrow> request_id \<Rightarrow> string option" where
  "session_of_prompt s i = hm_get (pending_prompts s) i"

text \<open>\<open>threads.get_mut(sid)\<close> and \<open>threads.entry(sid).or_default()\<close>, with what is done to the thread.\<close>

definition modify_thread :: "string \<Rightarrow> (thread \<Rightarrow> thread) \<Rightarrow> session_store \<Rightarrow> session_store" where
  "modify_thread sid f s =
     (case thread_of s sid of
        None \<Rightarrow> s
      | Some t \<Rightarrow> s\<lparr>threads := hm_insert sid (f t) (threads s)\<rparr>)"

definition modify_or_default :: "string \<Rightarrow> (thread \<Rightarrow> thread) \<Rightarrow> session_store \<Rightarrow> session_store" where
  "modify_or_default sid f s =
     s\<lparr>threads := hm_insert sid (f (or_else (thread_of s sid) new_thread)) (threads s)\<rparr>"

definition not_of :: "string \<Rightarrow> (request_id, string) hmap \<Rightarrow> (request_id, string) hmap" where
  "not_of sid m = hm_retain (\<lambda>_ pending. pending \<noteq> sid) m"

definition cancel_session_elicitations :: "string \<Rightarrow> session_store \<Rightarrow> nat \<times> session_store" where
  "cancel_session_elicitations sid s =
     (let s1 = s\<lparr>pending_elicitations := not_of sid (pending_elicitations s)\<rparr>
      in case thread_of s1 sid of
           None \<Rightarrow> (0, s1)
         | Some t \<Rightarrow>
             let (n, t') = cancel_pending_elicitations t
             in (n, s1\<lparr>threads := hm_insert sid t' (threads s1)\<rparr>))"

definition forget :: "string \<Rightarrow> session_store \<Rightarrow> session_store" where
  "forget sid s =
     s\<lparr>threads := hm_remove sid (threads s),
       pending_prompts := not_of sid (pending_prompts s),
       pending_config_options := not_of sid (pending_config_options s),
       pending_elicitations := not_of sid (pending_elicitations s)\<rparr>"

section \<open>Frames from the browser\<close>

definition observe_client_request ::
  "('a) acp_scheme \<Rightarrow> frame \<Rightarrow> request_id \<Rightarrow> string \<Rightarrow> session_store \<Rightarrow> session_store" where
  "observe_client_request E f i m s =
     (if m = SESSION_NEW \<or> m = SESSION_FORK then
        s\<lparr>pending_session_creations := pending_session_creations s @ [i]\<rparr>
      else if m = SESSION_LOAD then
        (case params_as (de_load E) f of
           Inr (Some sid) \<Rightarrow>
             s\<lparr>threads := hm_insert sid new_thread (threads s),
               pending_elicitations := not_of sid (pending_elicitations s),
               pending_session_states := hm_insert i sid (pending_session_states s)\<rparr>
         | _ \<Rightarrow> s)
      else if m = SESSION_RESUME then
        (case params_as (de_resume E) f of
           Inr (Some sid) \<Rightarrow>
             s\<lparr>pending_session_states := hm_insert i sid (pending_session_states s)\<rparr>
         | _ \<Rightarrow> s)
      else if m = SESSION_DELETE then
        (case params_as (de_delete E) f of
           Inr (Some sid) \<Rightarrow> s\<lparr>pending_forgets := hm_insert i sid (pending_forgets s)\<rparr>
         | _ \<Rightarrow> s)
      else if m = SESSION_CLOSE then
        (case params_as (de_close E) f of
           Inr (Some sid) \<Rightarrow> s\<lparr>pending_forgets := hm_insert i sid (pending_forgets s)\<rparr>
         | _ \<Rightarrow> s)
      else if m = SESSION_SET_CONFIG_OPTION then
        (case params_as (de_set_config E) f of
           Inr (Some sid) \<Rightarrow>
             s\<lparr>pending_config_options := hm_insert i sid (pending_config_options s)\<rparr>
         | _ \<Rightarrow> s)
      else if m = SESSION_PROMPT then
        (case params_as (de_prompt E) f of
           Inr (Some (sid, prompt)) \<Rightarrow>
             let s1 = modify_or_default sid (push_user_prompt prompt) s
             in s1\<lparr>pending_prompts := hm_insert i sid (pending_prompts s1)\<rparr>
         | _ \<Rightarrow> s)
      else s)"

fun read_action :: "elicitation_action \<Rightarrow> elicitation_state \<times> elicitation_content option" where
  "read_action (AcceptAction content) = (Accepted, content)"
| "read_action DeclineAction = (Declined, None)"
| "read_action (OtherAction _) = (Cancelled, None)"

text \<open>How the browser's reply settles a question.\<close>

fun settled_as ::
  "('a) acp_scheme \<Rightarrow> response_payload \<Rightarrow> elicitation_state \<times> elicitation_content option" where
  "settled_as E (Result r) =
     (case de_elicit_resp E r of
        Inr action \<Rightarrow> read_action action
      | Inl _ \<Rightarrow> (Cancelled, None))"
| "settled_as E (Error _) = (Declined, None)"

definition observe_elicitation_answer ::
  "('a) acp_scheme \<Rightarrow> request_id \<Rightarrow> response_payload \<Rightarrow> session_store \<Rightarrow> session_store" where
  "observe_elicitation_answer E i p s =
     (case hm_get (pending_elicitations s) i of
        None \<Rightarrow> s
      | Some sid \<Rightarrow>
          let s1 = s\<lparr>pending_elicitations := hm_remove i (pending_elicitations s)\<rparr>;
              (st, content) = settled_as E p
          in modify_thread sid (\<lambda>t. snd (settle_elicitation i st content t)) s1)"

fun observe_from_client :: "('a) acp_scheme \<Rightarrow> frame \<Rightarrow> session_store \<Rightarrow> session_store" where
  "observe_from_client E (Request i m p) s = observe_client_request E (Request i m p) i m s"
| "observe_from_client E (Response i p) s = observe_elicitation_answer E i p s"
| "observe_from_client E (Notification m p) s = s"

section \<open>Frames from the agent\<close>

definition observe_elicitation_create ::
  "('a) acp_scheme \<Rightarrow> frame \<Rightarrow> request_id \<Rightarrow> session_store \<Rightarrow> session_store" where
  "observe_elicitation_create E f i s =
     (case params_as (de_elicit E) f of
        Inr (Some request) \<Rightarrow>
          (case cr_scope request of
             SessionScope sid _ \<Rightarrow>
               let (pushed, t) = push_elicitation i request (or_else (thread_of s sid) new_thread);
                   s1 = s\<lparr>threads := hm_insert sid t (threads s)\<rparr>
               in if pushed
                  then s1\<lparr>pending_elicitations := hm_insert i sid (pending_elicitations s1)\<rparr>
                  else s1
           | OtherScope _ \<Rightarrow> s)
      | _ \<Rightarrow> s)"

text \<open>
  The loop over \<open>threads.values_mut()\<close> stops at the first thread that holds the
  elicitation. A \<open>HashMap\<close> has no order; the list's order stands for any one of them.
\<close>

fun complete_first :: "string \<Rightarrow> (string, thread) hmap \<Rightarrow> (string, thread) hmap" where
  "complete_first i [] = []"
| "complete_first i ((k, t) # m) =
     (let (done, t') = complete_elicitation i t
      in if done then (k, t') # m else (k, t') # complete_first i m)"

definition apply_session_state ::
  "mode_state option \<Rightarrow> opaque list option \<Rightarrow> thread \<Rightarrow> thread" where
  "apply_session_state ms os t =
     (let t1 = (case ms of None \<Rightarrow> t | Some m \<Rightarrow> set_modes m t)
      in (case os of None \<Rightarrow> t1 | Some c \<Rightarrow> set_config_options c t1))"

fun remove_first :: "'x \<Rightarrow> 'x list \<Rightarrow> 'x list" where
  "remove_first x [] = []"
| "remove_first x (y # ys) = (if x = y then ys else y # remove_first x ys)"

definition observe_result ::
  "('a) acp_scheme \<Rightarrow> request_id \<Rightarrow> raw \<Rightarrow> session_store \<Rightarrow> session_store" where
  "observe_result E i r s =
     (case hm_get (pending_prompts s) i of
        Some sid \<Rightarrow>
          let s1 = s\<lparr>pending_prompts := hm_remove i (pending_prompts s)\<rparr>
          in (case de_prompt_resp E r of
                Inr reason \<Rightarrow> modify_thread sid (finish_turn reason) s1
              | Inl _ \<Rightarrow> s1)
      | None \<Rightarrow>
     if i \<in> set (pending_session_creations s) then
          let s1 = s\<lparr>pending_session_creations := remove_first i (pending_session_creations s)\<rparr>
          in (case de_new_resp E r of
                Inr (sid, ms, os) \<Rightarrow> modify_or_default sid (apply_session_state ms os) s1
              | Inl _ \<Rightarrow> s1)
     else (case hm_get (pending_session_states s) i of
        Some sid \<Rightarrow>
          let s1 = s\<lparr>pending_session_states := hm_remove i (pending_session_states s)\<rparr>
          in (case de_load_resp E r of
                Inr (ms, os) \<Rightarrow> modify_thread sid (apply_session_state ms os) s1
              | Inl _ \<Rightarrow> s1)
      | None \<Rightarrow>
     (case hm_get (pending_forgets s) i of
        Some sid \<Rightarrow> forget sid (s\<lparr>pending_forgets := hm_remove i (pending_forgets s)\<rparr>)
      | None \<Rightarrow>
     (case hm_get (pending_config_options s) i of
        Some sid \<Rightarrow>
          let s1 = s\<lparr>pending_config_options := hm_remove i (pending_config_options s)\<rparr>
          in (case de_config_resp E r of
                Inr os \<Rightarrow> modify_thread sid (set_config_options os) s1
              | Inl _ \<Rightarrow> s1)
      | None \<Rightarrow> s))))"

definition observe_error :: "request_id \<Rightarrow> session_store \<Rightarrow> session_store" where
  "observe_error i s =
     (let s1 = (case hm_get (pending_prompts s) i of
                  None \<Rightarrow> s
                | Some sid \<Rightarrow> modify_thread sid (finish_turn StopCancelled)
                                (s\<lparr>pending_prompts := hm_remove i (pending_prompts s)\<rparr>))
      in s1\<lparr>pending_session_creations := filter (\<lambda>j. j \<noteq> i) (pending_session_creations s1),
            pending_config_options := hm_remove i (pending_config_options s1),
            pending_session_states := hm_remove i (pending_session_states s1),
            pending_forgets := hm_remove i (pending_forgets s1)\<rparr>)"

fun observe_from_agent :: "('a) acp_scheme \<Rightarrow> frame \<Rightarrow> session_store \<Rightarrow> session_store" where
  "observe_from_agent E (Request i m p) s =
     (if m = ELICITATION_CREATE then observe_elicitation_create E (Request i m p) i s else s)"
| "observe_from_agent E (Notification m p) s =
     (if m = ELICITATION_COMPLETE then
        (case params_as (de_elicit_done E) (Notification m p) of
           Inr (Some i) \<Rightarrow> s\<lparr>threads := complete_first i (threads s)\<rparr>
         | _ \<Rightarrow> s)
      else if m = SESSION_UPDATE then
        (case params_as (de_session_note E) (Notification m p) of
           Inr (Some (sid, u)) \<Rightarrow>
             modify_or_default sid (\<lambda>t. snd (apply_update (tool_dflt E) u t)) s
         | _ \<Rightarrow> s)
      else s)"
| "observe_from_agent E (Response i (Result r)) s = observe_result E i r s"
| "observe_from_agent E (Response i (Error e)) s = observe_error i s"

end
