(* ===== verification/Session_Props.thy ===== *)
theory Session_Props
  imports Sessions
begin

text \<open>
  What the session store promises over any interleaving of frames of the browser, frames
  of the agent and ends of turns: its maps agree with each other, every thread it holds
  is a run of the thread's operations (so what is proved of threads holds of it), a
  prompt is attributed to its session until it is answered, its answer ends that turn
  and touches no other session, and a session is forgotten when the agent confirms it.
\<close>

section \<open>Events and runs\<close>

datatype store_event =
    FromClient frame
  | FromAgent frame
  | CancelQuestions string

fun store_step :: "('a) acp_scheme \<Rightarrow> session_store \<Rightarrow> store_event \<Rightarrow> session_store" where
  "store_step E s (FromClient f) = observe_from_client E f s"
| "store_step E s (FromAgent f) = observe_from_agent E f s"
| "store_step E s (CancelQuestions sid) = snd (cancel_session_elicitations sid s)"

definition store_run :: "('a) acp_scheme \<Rightarrow> session_store \<Rightarrow> store_event list \<Rightarrow> session_store" where
  "store_run E s evs = foldl (store_step E) s evs"

section \<open>Threads after each operation\<close>

named_theorems thread_lookup \<open>which thread a session has after an operation\<close>

lemma thread_of_modify_thread [thread_lookup]:
  "thread_of (modify_thread sid f s) x =
     (if x = sid then map_option f (thread_of s sid) else thread_of s x)"
  by (auto simp: modify_thread_def thread_of_def split: option.split)

lemma thread_of_modify_or_default [thread_lookup]:
  "thread_of (modify_or_default sid f s) x =
     (if x = sid then Some (f (or_else (thread_of s sid) new_thread)) else thread_of s x)"
  by (simp add: modify_or_default_def thread_of_def)

lemma thread_of_pending_updates [thread_lookup]:
  "thread_of (s\<lparr>pending_prompts := a\<rparr>) x = thread_of s x"
  "thread_of (s\<lparr>pending_session_creations := b\<rparr>) x = thread_of s x"
  "thread_of (s\<lparr>pending_session_states := c\<rparr>) x = thread_of s x"
  "thread_of (s\<lparr>pending_forgets := c\<rparr>) x = thread_of s x"
  "thread_of (s\<lparr>pending_config_options := c\<rparr>) x = thread_of s x"
  "thread_of (s\<lparr>pending_elicitations := c\<rparr>) x = thread_of s x"
  by (simp_all add: thread_of_def)

lemma thread_of_insert [thread_lookup]:
  "thread_of (s\<lparr>threads := hm_insert sid t (threads s)\<rparr>) x = (if x = sid then Some t else thread_of s x)"
  by (simp add: thread_of_def)

lemma thread_of_forget [thread_lookup]:
  "thread_of (forget sid s) x = (if x = sid then None else thread_of s x)"
  by (simp add: forget_def thread_of_def)

lemma complete_elicitation_False: "\<not> fst (complete_elicitation i t) \<Longrightarrow> snd (complete_elicitation i t) = t"
  by (simp add: complete_elicitation_def split: option.splits)

lemma complete_first_Cons:
  "complete_first i ((k, t) # m) =
     (k, snd (complete_elicitation i t)) #
     (if fst (complete_elicitation i t) then m else complete_first i m)"
  by (simp add: case_prod_beta)

lemma complete_first_keys [simp]: "map fst (complete_first i m) = map fst m"
proof (induction m)
  case (Cons x m)
  then show ?case by (cases x) (simp add: complete_first_Cons del: complete_first.simps)
qed simp

lemma complete_first_lookup:
  "hm_get (complete_first i m) x = hm_get m x \<or>
   hm_get (complete_first i m) x = map_option (\<lambda>t. snd (complete_elicitation i t)) (hm_get m x)"
proof (induction m)
  case (Cons y m)
  then show ?case
    by (cases y) (auto simp: complete_first_Cons complete_elicitation_False simp del: complete_first.simps)
qed simp

lemma cancel_session_thread [thread_lookup]:
  "thread_of (snd (cancel_session_elicitations sid s)) x =
     (if x = sid then map_option (\<lambda>t. snd (cancel_pending_elicitations t)) (thread_of s sid)
      else thread_of s x)"
  by (auto simp: cancel_session_elicitations_def thread_of_def Let_def case_prod_beta
      split: option.split)

section \<open>Every thread is a run of thread operations\<close>

definition reached :: "tool_defaults \<Rightarrow> thread \<Rightarrow> bool" where
  "reached D t \<longleftrightarrow> (\<exists>ops. t = thread_run D new_thread ops)"

lemma reached_new [intro]: "reached D new_thread"
  unfolding reached_def by (rule exI [of _ "[]"]) (simp add: thread_run_def)

lemma reached_step: "reached D t \<Longrightarrow> reached D (thread_step D t op)"
  unfolding reached_def
  by (elim exE, rule_tac x = "ops @ [op]" in exI) (simp add: thread_run_def)

lemma reached_ops [intro]:
  assumes "reached D t"
  shows "reached D (snd (apply_update D u t))" "reached D (push_user_prompt p t)"
    "reached D (snd (push_elicitation i r t))" "reached D (snd (settle_elicitation i st c t))"
    "reached D (snd (complete_elicitation e t))" "reached D (snd (cancel_pending_elicitations t))"
    "reached D (finish_turn reason t)" "reached D (set_modes m t)" "reached D (set_config_options os t)"
  using assms
    reached_step [of D t "Apply u"] reached_step [of D t "PushPrompt p"]
    reached_step [of D t "PushElicitation i r"] reached_step [of D t "Settle i st c"]
    reached_step [of D t "Complete e"] reached_step [of D t CancelPending]
    reached_step [of D t "FinishTurn reason"] reached_step [of D t "SetModes m"]
    reached_step [of D t "SetConfig os"]
  by simp_all

definition all_reached :: "tool_defaults \<Rightarrow> session_store \<Rightarrow> bool" where
  "all_reached D s \<longleftrightarrow> (\<forall>sid t. thread_of s sid = Some t \<longrightarrow> reached D t)"

lemma all_reachedD: "all_reached D s \<Longrightarrow> thread_of s sid = Some t \<Longrightarrow> reached D t"
  by (simp add: all_reached_def)

lemma reached_or_new: "all_reached D s \<Longrightarrow> reached D (or_else (thread_of s sid) new_thread)"
  by (auto simp: or_else_def all_reached_def split: option.split)

lemma reached_session_state [intro]: "reached D t \<Longrightarrow> reached D (apply_session_state ms os t)"
  by (auto simp: apply_session_state_def Let_def split: option.split)

lemma all_reached_pending [simp]:
  "all_reached D (s\<lparr>pending_prompts := a\<rparr>) = all_reached D s"
  "all_reached D (s\<lparr>pending_session_creations := b\<rparr>) = all_reached D s"
  "all_reached D (s\<lparr>pending_session_states := c\<rparr>) = all_reached D s"
  "all_reached D (s\<lparr>pending_forgets := c\<rparr>) = all_reached D s"
  "all_reached D (s\<lparr>pending_config_options := c\<rparr>) = all_reached D s"
  "all_reached D (s\<lparr>pending_elicitations := c\<rparr>) = all_reached D s"
  by (simp_all add: all_reached_def thread_lookup)

lemma all_reached_modify [intro]:
  "all_reached D s \<Longrightarrow> (\<And>t. reached D t \<Longrightarrow> reached D (f t)) \<Longrightarrow> all_reached D (modify_thread sid f s)"
  by (auto simp: all_reached_def thread_lookup split: if_splits)

lemma all_reached_default [intro]:
  "all_reached D s \<Longrightarrow> (\<And>t. reached D t \<Longrightarrow> reached D (f t)) \<Longrightarrow> all_reached D (modify_or_default sid f s)"
  using reached_or_new by (fastforce simp: all_reached_def thread_lookup)

lemma all_reached_insert:
  "all_reached D s \<Longrightarrow> reached D t \<Longrightarrow> all_reached D (s\<lparr>threads := hm_insert sid t (threads s)\<rparr>)"
  by (simp add: all_reached_def thread_lookup)

lemma all_reached_forget [intro]: "all_reached D s \<Longrightarrow> all_reached D (forget sid s)"
  by (simp add: all_reached_def thread_lookup)

lemma all_reached_cancel [intro]:
  "all_reached D s \<Longrightarrow> all_reached D (snd (cancel_session_elicitations sid s))"
  by (auto simp: all_reached_def thread_lookup split: if_splits)

lemma all_reached_complete [intro]:
  assumes "all_reached D s"
  shows "all_reached D (s\<lparr>threads := complete_first i (threads s)\<rparr>)"
  unfolding all_reached_def
proof (intro allI impI)
  fix sid t
  assume "thread_of (s\<lparr>threads := complete_first i (threads s)\<rparr>) sid = Some t"
  then obtain t0 where "thread_of s sid = Some t0" "t = t0 \<or> t = snd (complete_elicitation i t0)"
    using complete_first_lookup [of i "threads s" sid]
    by (cases "thread_of s sid") (auto simp: thread_of_def)
  with assms show "reached D t" by (auto dest: all_reachedD)
qed

lemma all_reached_elicit: "all_reached D s \<Longrightarrow> all_reached D (observe_elicitation_create E f i s)"
  by (auto simp: observe_elicitation_create_def Let_def case_prod_beta
      intro!: reached_ops all_reached_insert reached_or_new
      split: sum.split option.split elicitation_scope.split)

lemma all_reached_client:
  assumes "all_reached D s"
  shows "all_reached D (observe_client_request E f i m s)"
  unfolding observe_client_request_def Let_def
  by (intro pres_cases [where P = "all_reached D"])
     (use assms in \<open>simp_all add: all_reached_insert all_reached_default reached_new reached_ops\<close>)

lemma all_reached_answer: "all_reached D s \<Longrightarrow> all_reached D (observe_elicitation_answer E i p s)"
  by (auto simp: observe_elicitation_answer_def Let_def case_prod_beta split: option.split)

lemma all_reached_result: "all_reached D s \<Longrightarrow> all_reached D (observe_result E i r s)"
  unfolding observe_result_def Let_def
  by (intro pres_cases [where P = "all_reached D"]) auto

lemma all_reached_error: "all_reached D s \<Longrightarrow> all_reached D (observe_error i s)"
  by (auto simp: observe_error_def Let_def split: option.split)

lemma all_reached_step:
  assumes "all_reached (tool_dflt E) s"
  shows "all_reached (tool_dflt E) (store_step E s ev)"
proof (cases ev)
  case (FromClient f)
  with assms show ?thesis
    by (cases f) (simp_all add: all_reached_client all_reached_answer)
next
  case (FromAgent f)
  with assms show ?thesis
    by (cases "(E, f, s)" rule: observe_from_agent.cases)
       (auto simp: all_reached_elicit all_reached_result all_reached_error split: sum.split option.split)
next
  case (CancelQuestions sid)
  with assms show ?thesis by auto
qed

interpretation store_threads: machine "store_step E" "all_reached (tool_dflt E)" for E
  by unfold_locales (rule all_reached_step)

lemma new_store_empty [simp]: "thread_of new_store sid = None"
  by (simp add: thread_of_def new_store_def)

text \<open>
  Whatever the browser and the agent send, in any order, the thread the store hands
  out for a session is what some sequence of the thread's own operations makes of an
  empty thread; so ids are unique in it, and everything proved of threads holds of it.
\<close>

theorem stored_threads_are_folds:
  "thread_of (store_run E new_store evs) sid = Some t \<Longrightarrow>
     \<exists>ops. t = thread_run (tool_dflt E) new_thread ops"
  using store_threads.run_inv [of E new_store evs]
  by (simp add: store_run_def all_reached_def reached_def)

section \<open>The maps agree with each other\<close>

definition covers :: "session_store \<Rightarrow> (request_id, string) hmap \<Rightarrow> bool" where
  "covers s m \<longleftrightarrow> (\<forall>i sid. hm_get m i = Some sid \<longrightarrow> thread_of s sid \<noteq> None)"

definition store_ok :: "session_store \<Rightarrow> bool" where
  "store_ok s \<longleftrightarrow>
     hm_ok (threads s) \<and> hm_ok (pending_prompts s) \<and> hm_ok (pending_session_states s) \<and>
     hm_ok (pending_forgets s) \<and> hm_ok (pending_config_options s) \<and>
     hm_ok (pending_elicitations s) \<and>
     covers s (pending_prompts s) \<and> covers s (pending_elicitations s)"

lemma hm_ok_not_of [intro]: "hm_ok m \<Longrightarrow> hm_ok (not_of sid m)"
  by (simp add: not_of_def hm_ok_retain)

lemma get_not_of:
  "hm_ok m \<Longrightarrow> hm_get (not_of sid m) i =
     (case hm_get m i of None \<Rightarrow> None | Some x \<Rightarrow> if x = sid then None else Some x)"
  by (simp add: not_of_def hm_get_retain split: option.split)

lemma get_not_of_Some:
  "hm_ok m \<Longrightarrow> hm_get (not_of sid m) i = Some x \<longleftrightarrow> hm_get m i = Some x \<and> x \<noteq> sid"
  by (auto simp: get_not_of split: option.split)

lemma covers_insert: "covers s m \<Longrightarrow> thread_of s sid \<noteq> None \<Longrightarrow> covers s (hm_insert i sid m)"
  by (simp add: covers_def)

lemma covers_remove [intro]: "covers s m \<Longrightarrow> covers s (hm_remove i m)"
  by (auto simp: covers_def split: if_splits)

lemma covers_not_of [intro]: "hm_ok m \<Longrightarrow> covers s m \<Longrightarrow> covers s (not_of sid m)"
  by (auto simp: covers_def get_not_of_Some)

lemma covers_pending [simp]:
  "covers (s\<lparr>pending_prompts := a\<rparr>) m = covers s m"
  "covers (s\<lparr>pending_session_creations := b\<rparr>) m = covers s m"
  "covers (s\<lparr>pending_session_states := a\<rparr>) m = covers s m"
  "covers (s\<lparr>pending_forgets := a\<rparr>) m = covers s m"
  "covers (s\<lparr>pending_config_options := a\<rparr>) m = covers s m"
  "covers (s\<lparr>pending_elicitations := a\<rparr>) m = covers s m"
  by (simp_all add: covers_def thread_lookup)

lemma covers_grow [intro]:
  "covers s m \<Longrightarrow> covers (s\<lparr>threads := hm_insert sid t (threads s)\<rparr>) m"
  by (simp add: covers_def thread_lookup)

lemma store_ok_pending [intro]:
  assumes "store_ok s"
  shows "store_ok (s\<lparr>pending_session_creations := b\<rparr>)"
    "hm_ok m \<Longrightarrow> store_ok (s\<lparr>pending_session_states := m\<rparr>)"
    "hm_ok m \<Longrightarrow> store_ok (s\<lparr>pending_forgets := m\<rparr>)"
    "hm_ok m \<Longrightarrow> store_ok (s\<lparr>pending_config_options := m\<rparr>)"
    "hm_ok m \<Longrightarrow> covers s m \<Longrightarrow> store_ok (s\<lparr>pending_prompts := m\<rparr>)"
    "hm_ok m \<Longrightarrow> covers s m \<Longrightarrow> store_ok (s\<lparr>pending_elicitations := m\<rparr>)"
  using assms by (simp_all add: store_ok_def)

lemma store_ok_insert [intro]:
  "store_ok s \<Longrightarrow> store_ok (s\<lparr>threads := hm_insert sid t (threads s)\<rparr>)"
  by (simp add: store_ok_def covers_grow hm_ok_insert)

lemma store_ok_modify [intro]: "store_ok s \<Longrightarrow> store_ok (modify_thread sid f s)"
  by (auto simp: modify_thread_def split: option.split)

lemma store_ok_default [intro]: "store_ok s \<Longrightarrow> store_ok (modify_or_default sid f s)"
  by (auto simp: modify_or_default_def)

lemma store_ok_forget [intro]: "store_ok s \<Longrightarrow> store_ok (forget sid s)"
  by (auto simp: store_ok_def forget_def hm_ok_remove covers_def thread_of_def get_not_of_Some)

lemma store_okD:
  assumes "store_ok s"
  shows "hm_ok (threads s)" "hm_ok (pending_prompts s)" "hm_ok (pending_session_states s)"
    "hm_ok (pending_forgets s)" "hm_ok (pending_config_options s)"
    "hm_ok (pending_elicitations s)" "covers s (pending_prompts s)"
    "covers s (pending_elicitations s)"
  using assms by (simp_all add: store_ok_def)

lemma cancel_session_as_modify:
  "snd (cancel_session_elicitations sid s) =
     modify_thread sid (\<lambda>t. snd (cancel_pending_elicitations t))
       (s\<lparr>pending_elicitations := not_of sid (pending_elicitations s)\<rparr>)"
  by (simp add: cancel_session_elicitations_def modify_thread_def Let_def case_prod_beta split: option.split)

lemma store_ok_cancel: "store_ok s \<Longrightarrow> store_ok (snd (cancel_session_elicitations sid s))"
  unfolding cancel_session_as_modify
  by (intro store_ok_modify store_ok_pending hm_ok_not_of covers_not_of) (simp_all add: store_okD)

lemma store_ok_complete: "store_ok s \<Longrightarrow> store_ok (s\<lparr>threads := complete_first i (threads s)\<rparr>)"
proof -
  assume ok: "store_ok s"
  have "hm_get (complete_first i (threads s)) x \<noteq> None" if "hm_get (threads s) x \<noteq> None" for x
    using that complete_first_lookup [of i "threads s" x] by auto
  then have "covers (s\<lparr>threads := complete_first i (threads s)\<rparr>) m" if "covers s m" for m
    using that by (simp add: covers_def thread_of_def)
  with ok show ?thesis by (simp add: store_ok_def) (simp add: hm_ok_def)
qed

lemma store_ok_client: "store_ok s \<Longrightarrow> store_ok (observe_client_request E f i m s)"
  unfolding observe_client_request_def Let_def
  by (intro pres_cases [where P = store_ok] store_ok_pending store_ok_insert store_ok_default
      hm_ok_insert hm_ok_not_of covers_insert covers_not_of)
    (simp_all add: store_okD covers_grow covers_not_of hm_ok_not_of thread_lookup modify_or_default_def)

lemma store_ok_answer: "store_ok s \<Longrightarrow> store_ok (observe_elicitation_answer E i p s)"
  using store_okD [of s]
  by (auto simp: observe_elicitation_answer_def Let_def case_prod_beta split: option.split
      intro!: store_ok_modify store_ok_pending)

lemma store_ok_elicit: "store_ok s \<Longrightarrow> store_ok (observe_elicitation_create E f i s)"
  using store_okD [of s]
  by (auto simp: observe_elicitation_create_def Let_def case_prod_beta thread_lookup
      split: sum.split option.split elicitation_scope.split
      intro!: store_ok_insert store_ok_pending hm_ok_insert covers_insert)

lemma store_ok_result: "store_ok s \<Longrightarrow> store_ok (observe_result E i r s)"
  unfolding observe_result_def Let_def
  by (intro pres_cases [where P = store_ok] store_ok_modify store_ok_default store_ok_forget
      store_ok_pending hm_ok_remove covers_remove) (simp_all add: store_okD)

lemma store_ok_error: "store_ok s \<Longrightarrow> store_ok (observe_error i s)"
  unfolding observe_error_def Let_def
  by (intro pres_cases [where P = store_ok] store_ok_modify store_ok_pending hm_ok_remove covers_remove)
     (auto simp: store_okD modify_thread_def split: option.split)

lemma store_ok_step: "store_ok s \<Longrightarrow> store_ok (store_step E s ev)"
proof (cases ev)
  case (FromClient f)
  moreover assume "store_ok s"
  ultimately show ?thesis
    by (cases f) (simp_all add: store_ok_client store_ok_answer)
next
  case (FromAgent f)
  moreover assume "store_ok s"
  ultimately show ?thesis
    by (cases "(E, f, s)" rule: observe_from_agent.cases)
       (auto simp: store_ok_elicit store_ok_result store_ok_error store_ok_complete
         split: sum.split option.split)
next
  case (CancelQuestions sid)
  moreover assume "store_ok s"
  ultimately show ?thesis by (simp add: store_ok_cancel)
qed

interpretation store_machine: machine "store_step E" store_ok for E
  by unfold_locales (rule store_ok_step)

lemma store_run_ok: "store_ok (store_run E new_store evs)"
  unfolding store_run_def
  by (rule store_machine.run_inv) (simp add: store_ok_def new_store_def covers_def)


section \<open>A turn\<close>

lemma status_set_entry [simp]: "status (set_entry i e t) = status t"
  by (simp add: set_entry_def)

lemma status_user_chunk: "status (snd (push_user_chunk c mid t)) = status t"
  by (auto simp: push_user_chunk_def start_user_def thread_data split: option.split entry.split)

lemma status_assistant_chunk: "status (snd (push_assistant_chunk k c mid t)) = status t"
  by (auto simp: push_assistant_chunk_def start_assistant_def thread_data split: option.split entry.split)

lemma status_tool_calls:
  "status (snd (upsert_tool_call c t)) = status t" "status (snd (update_tool_call D u t)) = status t"
  by (auto simp: upsert_tool_call_def update_tool_call_def thread_data split: option.split entry.split)

lemma status_apply_update: "status (snd (apply_update D u t)) = status t"
  by (cases u)
     (simp_all add: status_user_chunk status_assistant_chunk status_tool_calls split: option.split)

lemma status_questions:
  "status (snd (push_elicitation i r t)) = status t"
  "status (snd (settle_elicitation i st c t)) = status t"
  "status (snd (complete_elicitation e t)) = status t"
  "status (snd (cancel_pending_elicitations t)) = status t"
  by (simp_all add: push_elicitation_def settle_elicitation_def complete_elicitation_def
      cancel_pending_elicitations_def thread_data split: option.split)

text \<open>What happens while a turn runs: anything but a new client request or an agent's answer.\<close>

fun mid_turn :: "store_event \<Rightarrow> bool" where
  "mid_turn (FromClient (Request i m p)) \<longleftrightarrow> False"
| "mid_turn (FromAgent (Response i p)) \<longleftrightarrow> False"
| "mid_turn _ \<longleftrightarrow> True"

definition running :: "session_store \<Rightarrow> request_id \<Rightarrow> string \<Rightarrow> bool" where
  "running s i sid \<longleftrightarrow> session_of_prompt s i = Some sid \<and>
     (\<exists>t. thread_of s sid = Some t \<and> status t = Generating)"

lemma prompts_modify [simp]:
  "pending_prompts (modify_thread sid f s) = pending_prompts s"
  "pending_prompts (modify_or_default sid f s) = pending_prompts s"
  by (simp_all add: modify_thread_def modify_or_default_def split: option.split)

lemma running_modify:
  assumes "running s i sid" and "\<And>t. status (f t) = status t"
  shows "running (modify_thread x f s) i sid" "running (modify_or_default x f s) i sid"
  using assms by (auto simp: running_def session_of_prompt_def thread_lookup or_else_def)

lemma running_elicitations [simp]:
  "running (s\<lparr>pending_elicitations := m\<rparr>) i sid = running s i sid"
  by (simp add: running_def session_of_prompt_def thread_lookup)

lemma running_complete:
  "running s i sid \<Longrightarrow> running (s\<lparr>threads := complete_first e (threads s)\<rparr>) i sid"
  using complete_first_lookup [of e "threads s" sid]
  by (auto simp: running_def session_of_prompt_def thread_of_def status_questions)

lemma elicitation_create_as_modify:
  "observe_elicitation_create E f i s =
     (case params_as (de_elicit E) f of
        Inr (Some request) \<Rightarrow>
          (case cr_scope request of
             SessionScope sid _ \<Rightarrow>
               let s1 = modify_or_default sid (\<lambda>t. snd (push_elicitation i request t)) s
               in if read_mode (cr_mode request) = None then s1
                  else s1\<lparr>pending_elicitations := hm_insert i sid (pending_elicitations s)\<rparr>
           | OtherScope _ \<Rightarrow> s)
      | _ \<Rightarrow> s)"
  by (auto simp: observe_elicitation_create_def modify_or_default_def push_elicitation_def Let_def
      case_prod_beta split: sum.split option.split elicitation_scope.split)

lemma running_step:
  assumes "running s i sid" and "mid_turn ev"
  shows "running (store_step E s ev) i sid"
proof (cases "(E, s, ev)" rule: store_step.cases)
  case (1 E' s' f)
  with assms show ?thesis
    by (cases f)
       (auto simp: observe_elicitation_answer_def Let_def case_prod_beta status_questions
         running_modify split: option.split)
next
  case (2 E' s' f)
  have "running (observe_from_agent E f s) i sid"
  proof (cases f)
    case (Request j m p)
    with assms show ?thesis
      by (auto simp: elicitation_create_as_modify Let_def status_questions running_modify
          split: sum.split option.split elicitation_scope.split)
  next
    case (Notification m p)
    with assms show ?thesis
      by (auto simp: running_complete status_apply_update running_modify split: sum.split option.split)
  qed (use 2 assms in auto)
  with 2 show ?thesis by simp
next
  case (3 E' s' x)
  with assms show ?thesis
    by (simp add: cancel_session_as_modify running_modify status_questions)
qed

lemma running_run: "running s i sid \<Longrightarrow> \<forall>ev \<in> set evs. mid_turn ev \<Longrightarrow> running (store_run E s evs) i sid"
  unfolding store_run_def
  by (induction evs arbitrary: s) (simp_all add: running_step)

text \<open>Values for the parameter that the witnesses run on: session \<open>s\<close>, one message of each kind.\<close>

definition demo_acp :: acp where
  "demo_acp = \<lparr>
     de_wire = de_wire (toy_serde []), ser_string = ser_string (toy_serde []),
     ser_error = ser_error (toy_serde []), de_value = de_value (toy_serde []),
     ser_value = ser_value (toy_serde []), tool_dflt = demo_defaults,
     de_load = Inr, de_resume = Inr, de_delete = Inr, de_close = Inr, de_set_config = Inr,
     de_prompt = (\<lambda>r. Inr (r, [])),
     de_elicit = (\<lambda>r. Inr (demo_request\<lparr>cr_scope := SessionScope r None\<rparr>)),
     de_elicit_done = Inr,
     de_session_note = (\<lambda>r. Inr (r, AgentMessageChunk \<lparr>cc_content = TextBlock ''hi'' [], cc_message_id = None\<rparr>)),
     de_prompt_resp = (\<lambda>r. if r = null_value then Inl ''invalid type: null'' else Inr (StopOther r)),
     de_new_resp = (\<lambda>r. Inr (r, None, None)), de_load_resp = (\<lambda>r. Inr (None, None)),
     de_config_resp = (\<lambda>r. Inr []), de_elicit_resp = (\<lambda>r. Inr DeclineAction),
     ser_thread = (\<lambda>t. Inr [])\<rparr>"

lemmas demo_acp_simps = demo_acp_def params_as_def

text \<open>
  Once the browser's prompt has passed, its session's thread is generating and the
  request is attributed to it, and both stay so through everything else that can happen
  during the turn: the agent's updates and questions of any session, the browser's answers.
\<close>

theorem prompt_runs_until_answered:
  assumes "params_as (de_prompt E) (Request i SESSION_PROMPT p) = Inr (Some (sid, content))"
    and "\<forall>ev \<in> set evs. mid_turn ev"
  shows "running (store_run E s (FromClient (Request i SESSION_PROMPT p) # evs)) i sid"
proof -
  let ?s = "store_step E s (FromClient (Request i SESSION_PROMPT p))"
  have "running ?s i sid"
    using assms(1)
    by (simp add: observe_client_request_def running_def session_of_prompt_def thread_lookup
        modify_or_default_def thread_of_def push_user_prompt_def thread_data)
  from running_run [OF this assms(2)] show ?thesis by (simp add: store_run_def)
qed

theorem prompt_runs_until_answered_witness:
  "running (store_run demo_acp new_store
     [FromClient (Request (IdNumber 1) SESSION_PROMPT (Some ''s'')),
      FromAgent (Notification SESSION_UPDATE (Some ''s''))]) (IdNumber 1) ''s''"
  by (rule prompt_runs_until_answered [of demo_acp _ _ _ "[]"]) (simp_all add: demo_acp_simps)

fun turn_reason :: "('a) acp_scheme \<Rightarrow> response_payload \<Rightarrow> stop_reason option" where
  "turn_reason E (Result r) = (case de_prompt_resp E r of Inl _ \<Rightarrow> None | Inr reason \<Rightarrow> Some reason)"
| "turn_reason E (Error e) = Some StopCancelled"

text \<open>
  The agent's answer to a prompt ends the turn of the session that sent it, with the
  reason the answer gives, or as cancelled when the answer is an error. The entries
  stay, the request is no longer in flight, and no other session's thread changes.
\<close>

theorem answer_ends_turn:
  assumes "session_of_prompt s i = Some sid" and "thread_of s sid = Some t"
    and "turn_reason E payload = Some reason"
  defines "s' \<equiv> store_step E s (FromAgent (Response i payload))"
  shows "thread_of s' sid = Some (t\<lparr>status := Idle, stop_reason_of_turn := Some reason\<rparr>)
    \<and> session_of_prompt s' i = None \<and> (\<forall>x. x \<noteq> sid \<longrightarrow> thread_of s' x = thread_of s x)"
proof (cases payload)
  case (Result r)
  with assms show ?thesis
    by (simp add: observe_result_def session_of_prompt_def thread_lookup finish_turn_def Let_def
        split: sum.splits)
next
  case (Error e)
  with assms show ?thesis
    by (simp add: observe_error_def session_of_prompt_def thread_lookup finish_turn_def Let_def)
qed

theorem answer_ends_turn_witness:
  "let s = store_run demo_acp new_store [FromClient (Request (IdNumber 1) SESSION_PROMPT (Some ''s''))];
       s' = store_step demo_acp s (FromAgent (Response (IdNumber 1) (Result ''end_turn'')))
   in map_option status (thread_of s ''s'') = Some Generating \<and>
      map_option status (thread_of s' ''s'') = Some Idle"
proof -
  let ?s = "store_run demo_acp new_store [FromClient (Request (IdNumber 1) SESSION_PROMPT (Some ''s''))]"
  have thread: "thread_of ?s ''s'' = Some (push_user_prompt [] new_thread)"
    and prompt: "session_of_prompt ?s (IdNumber 1) = Some ''s''"
    by (simp_all add: store_run_def observe_client_request_def demo_acp_simps session_of_prompt_def
        thread_of_def modify_or_default_def new_store_def or_else_def)
  have reason: "turn_reason demo_acp (Result ''end_turn'') = Some (StopOther ''end_turn'')"
    by (simp add: demo_acp_def null_value_def)
  from answer_ends_turn [OF prompt thread reason] thread show ?thesis
    by (simp add: Let_def push_user_prompt_def thread_data)
qed

text \<open>
  A prompt answered with a result the store cannot read is dropped from the requests
  in flight, but its turn is not ended: every thread stays as it was, and no later frame
  with this id can end it.
\<close>

theorem unreadable_answer_leaves_turn_open:
  assumes "running s i sid" and "de_prompt_resp E r = Inl e"
  defines "s' \<equiv> store_step E s (FromAgent (Response i (Result r)))"
  shows "(\<forall>x. thread_of s' x = thread_of s x) \<and> session_of_prompt s' i = None \<and>
    map_option status (thread_of s' sid) = Some Generating"
  using assms by (auto simp: running_def observe_result_def session_of_prompt_def thread_lookup Let_def)

theorem unreadable_answer_leaves_turn_open_witness:
  "map_option status (thread_of (store_step demo_acp
     (store_run demo_acp new_store [FromClient (Request (IdNumber 1) SESSION_PROMPT (Some ''s''))])
     (FromAgent (Response (IdNumber 1) (Result null_value)))) ''s'') = Some Generating"
proof -
  have run: "running (store_run demo_acp new_store
      [FromClient (Request (IdNumber 1) SESSION_PROMPT (Some ''s''))]) (IdNumber 1) ''s''"
    by (simp add: store_run_def observe_client_request_def demo_acp_simps running_def
        session_of_prompt_def thread_lookup modify_or_default_def thread_of_def new_store_def
        push_user_prompt_def thread_data)
  have "de_prompt_resp demo_acp null_value = Inl ''invalid type: null''"
    by (simp add: demo_acp_def)
  from unreadable_answer_leaves_turn_open [OF run this] show ?thesis by (elim conjE)
qed

section \<open>Sessions that go away\<close>

text \<open>An id the store is not already waiting on.\<close>

definition fresh_id :: "session_store \<Rightarrow> request_id \<Rightarrow> bool" where
  "fresh_id s i \<longleftrightarrow> hm_get (pending_prompts s) i = None \<and>
     i \<notin> set (pending_session_creations s) \<and> hm_get (pending_session_states s) i = None"

text \<open>
  A delete or a close takes nothing away until the agent confirms it: the request
  leaves every thread in place; a refusal leaves them in place too; a confirmation drops the
  session's thread and every prompt and question attributed to it, and no other thread.
\<close>

theorem session_goes_when_confirmed:
  fixes r :: raw and e :: json_rpc_error
  assumes "store_ok s" and "fresh_id s i"
    and "m = SESSION_DELETE \<and> params_as (de_delete E) (Request i m p) = Inr (Some sid)
       \<or> m = SESSION_CLOSE \<and> params_as (de_close E) (Request i m p) = Inr (Some sid)"
  defines "asked \<equiv> store_step E s (FromClient (Request i m p))"
  defines "gone \<equiv> store_step E asked (FromAgent (Response i (Result r)))"
  defines "kept \<equiv> store_step E asked (FromAgent (Response i (Error e)))"
  shows "threads asked = threads s \<and> threads kept = threads s \<and>
    (\<forall>x. thread_of gone x = (if x = sid then None else thread_of s x)) \<and>
    (\<forall>j. session_of_prompt gone j \<noteq> Some sid \<and> hm_get (pending_elicitations gone) j \<noteq> Some sid)"
proof -
  have asked: "asked = s\<lparr>pending_forgets := hm_insert i sid (pending_forgets s)\<rparr>"
    using assms(3)
  proof (elim disjE conjE)
    assume "m = SESSION_DELETE" and "params_as (de_delete E) (Request i m p) = Inr (Some sid)"
    then show ?thesis by (simp add: asked_def observe_client_request_def)
  next
    assume "m = SESSION_CLOSE" and "params_as (de_close E) (Request i m p) = Inr (Some sid)"
    then show ?thesis by (simp add: asked_def observe_client_request_def)
  qed
  have "gone = forget sid (asked\<lparr>pending_forgets := hm_remove i (pending_forgets asked)\<rparr>)"
    using assms(2) by (simp add: gone_def asked observe_result_def fresh_id_def Let_def)
  then have gone: "(\<forall>x. thread_of gone x = (if x = sid then None else thread_of s x)) \<and>
    (\<forall>j. session_of_prompt gone j \<noteq> Some sid \<and> hm_get (pending_elicitations gone) j \<noteq> Some sid)"
    using assms(1)
    by (simp add: asked thread_lookup) (simp add: forget_def session_of_prompt_def get_not_of_Some store_okD)
  have "threads kept = threads asked"
    using assms(2) by (simp add: kept_def asked observe_error_def fresh_id_def Let_def)
  with gone show ?thesis by (simp add: asked)
qed

theorem session_goes_when_confirmed_witness:
  "let s = store_run demo_acp new_store [FromClient (Request (IdNumber 1) SESSION_PROMPT (Some ''s''))];
       s' = store_step demo_acp s (FromClient (Request (IdNumber 2) SESSION_DELETE (Some ''s'')))
   in threads s' = threads s \<and>
      thread_of (store_step demo_acp s' (FromAgent (Response (IdNumber 2) (Result null_value)))) ''s'' = None"
proof -
  let ?s = "store_run demo_acp new_store [FromClient (Request (IdNumber 1) SESSION_PROMPT (Some ''s''))]"
  have "store_ok ?s" by (rule store_run_ok)
  moreover have "fresh_id ?s (IdNumber 2)"
    by (simp add: fresh_id_def store_run_def observe_client_request_def demo_acp_simps new_store_def
        modify_or_default_def)
  moreover have "params_as (de_delete demo_acp) (Request (IdNumber 2) SESSION_DELETE (Some ''s'')) =
      Inr (Some ''s'')"
    by (simp add: demo_acp_simps)
  ultimately show ?thesis
    unfolding Let_def
    using session_goes_when_confirmed [of ?s "IdNumber 2" SESSION_DELETE demo_acp "Some ''s''" "''s''"]
    by (metis (full_types))
qed

text \<open>
  A load empties the session's thread when it is asked for, not when it is granted:
  after the agent refuses it the session is still open and its history is gone.
\<close>

theorem refused_load_loses_history:
  assumes "params_as (de_load E) (Request i SESSION_LOAD p) = Inr (Some sid)"
    and "session_of_prompt s i = None"
  shows "thread_of (store_run E s [FromClient (Request i SESSION_LOAD p),
    FromAgent (Response i (Error e))]) sid = Some new_thread"
  using assms
  by (simp add: store_run_def observe_client_request_def observe_error_def session_of_prompt_def
      thread_of_def Let_def)

theorem refused_load_loses_history_witness:
  "let s = store_run demo_acp new_store [FromClient (Request (IdNumber 1) SESSION_PROMPT (Some ''s''))]
   in map_option (\<lambda>t. length (entries t)) (thread_of s ''s'') = Some 1 \<and>
      map_option entries (thread_of (store_run demo_acp s
        [FromClient (Request (IdNumber 2) SESSION_LOAD (Some ''s'')),
         FromAgent (Response (IdNumber 2) (Error (internal_error ''busy'')))]) ''s'') = Some []"
proof -
  let ?s = "store_run demo_acp new_store [FromClient (Request (IdNumber 1) SESSION_PROMPT (Some ''s''))]"
  have "params_as (de_load demo_acp) (Request (IdNumber 2) SESSION_LOAD (Some ''s'')) = Inr (Some ''s'')"
    by (simp add: demo_acp_simps)
  moreover have "session_of_prompt ?s (IdNumber 2) = None"
    by (simp add: store_run_def observe_client_request_def demo_acp_simps new_store_def
        session_of_prompt_def modify_or_default_def)
  ultimately have "thread_of (store_run demo_acp ?s
      [FromClient (Request (IdNumber 2) SESSION_LOAD (Some ''s'')),
       FromAgent (Response (IdNumber 2) (Error (internal_error ''busy'')))]) ''s'' = Some new_thread"
    by (rule refused_load_loses_history)
  moreover have "map_option (\<lambda>t. length (entries t)) (thread_of ?s ''s'') = Some 1"
    by (simp add: store_run_def observe_client_request_def demo_acp_simps new_store_def
        thread_of_def modify_or_default_def push_user_prompt_def thread_data new_thread_def or_else_def)
  ultimately show ?thesis by (simp add: Let_def new_thread_def)
qed

end
