(* ===== verification/Session_Laws.thy ===== *)
theory Session_Laws
  imports Session_Props
begin

text \<open>
  Two end-to-end laws of the session store: interleaved streams of several sessions are
  folded as if each had arrived alone, and a question put to the browser is settled by
  the browser's answer to it, once.
\<close>

section \<open>Interleaved streams\<close>

text \<open>The frame of one update reads as the session it names and the update.\<close>

definition update_frame :: "('a) acp_scheme \<Rightarrow> frame \<Rightarrow> string \<times> session_update \<Rightarrow> bool" where
  "update_frame E f note \<longleftrightarrow>
     frame_id f = None \<and> frame_method f = Some SESSION_UPDATE \<and>
     params_as (de_session_note E) f = Inr (Some note)"

definition updates_of :: "string \<Rightarrow> (string \<times> session_update) list \<Rightarrow> thread_op list" where
  "updates_of sid updates = map (\<lambda>n. Apply (snd n)) (filter (\<lambda>n. fst n = sid) updates)"

definition stream_into :: "tool_defaults \<Rightarrow> thread option \<Rightarrow> thread_op list \<Rightarrow> thread option" where
  "stream_into D t ops =
     (if ops = [] then t else Some (thread_run D (or_else t new_thread) ops))"

lemma update_frame_step:
  "update_frame E f (sid, u) \<Longrightarrow>
     store_step E s (FromAgent f) = modify_or_default sid (\<lambda>t. snd (apply_update (tool_dflt E) u t)) s"
  by (cases f) (auto simp: update_frame_def)

lemma stream_into_Cons:
  "stream_into D (Some (thread_step D (or_else t new_thread) op)) ops = stream_into D t (op # ops)"
  by (simp add: stream_into_def thread_run_def or_else_def)

text \<open>
  C5: When the updates of any number of sessions arrive interleaved, each session's
  thread becomes what its own updates, in their order, make of the thread it had; a
  session that is not named keeps its thread, and a session not seen before starts empty.
\<close>

theorem streams_are_demultiplexed:
  assumes "list_all2 (update_frame E) fs updates"
  shows "thread_of (store_run E s (map FromAgent fs)) sid =
    stream_into (tool_dflt E) (thread_of s sid) (updates_of sid updates)"
  using assms
proof (induction fs arbitrary: updates s)
  case Nil
  then show ?case by (simp add: store_run_def updates_of_def stream_into_def)
next
  case (Cons f fs all_updates)
  then obtain x u updates where all: "all_updates = (x, u) # updates"
    and frame: "update_frame E f (x, u)" and frames: "list_all2 (update_frame E) fs updates"
    by (cases all_updates) auto
  let ?s = "modify_or_default x (\<lambda>t. snd (apply_update (tool_dflt E) u t)) s"
  have step: "store_step E s (FromAgent f) = ?s"
    using frame by (rule update_frame_step)
  have thread: "thread_of ?s sid =
      (if sid = x then Some (thread_step (tool_dflt E) (or_else (thread_of s sid) new_thread) (Apply u))
       else thread_of s sid)"
    by (simp add: thread_lookup)
  have "thread_of (store_run E s (map FromAgent (f # fs))) sid =
      stream_into (tool_dflt E) (thread_of ?s sid) (updates_of sid updates)"
    using Cons.IH [OF frames, of ?s] by (simp only: list.map store_run_def foldl_Cons step)
  also have "\<dots> = stream_into (tool_dflt E) (thread_of s sid) (updates_of sid all_updates)"
    unfolding thread
    by (cases "sid = x") (simp_all add: all updates_of_def stream_into_Cons del: thread_step.simps)
  finally show ?case .
qed

theorem streams_are_demultiplexed_witness:
  "let hi = AgentMessageChunk \<lparr>cc_content = TextBlock ''hi'' [], cc_message_id = None\<rparr>
   in thread_of (store_run demo_acp new_store (map FromAgent
        [Notification SESSION_UPDATE (Some ''a''), Notification SESSION_UPDATE (Some ''b'')])) ''b'' =
      Some (thread_run demo_defaults new_thread [Apply hi])"
proof -
  let ?hi = "AgentMessageChunk \<lparr>cc_content = TextBlock ''hi'' [], cc_message_id = None\<rparr>"
  have frames: "list_all2 (update_frame demo_acp)
      [Notification SESSION_UPDATE (Some ''a''), Notification SESSION_UPDATE (Some ''b'')]
      [(''a'', ?hi), (''b'', ?hi)]"
    by (simp add: update_frame_def demo_acp_simps)
  from streams_are_demultiplexed [OF frames, of new_store "''b''"] show ?thesis
    by (simp add: Let_def updates_of_def stream_into_def or_else_def) (simp add: demo_acp_def)
qed

section \<open>Questions\<close>

lemma update_pending_last:
  assumes "\<forall>x \<in> set es. \<not> asks i x" and "el_state a = Pending" and "el_request_id a = i"
  shows "update_pending (\<lambda>a. el_request_id a = i) f (es @ [Elicitation a]) = Some (es @ [Elicitation (f a)])"
  using assms
proof (induction es)
  case (Cons e es)
  then show ?case by (cases e) (auto simp: asks_def)
qed simp

definition question :: "thread \<Rightarrow> request_id \<Rightarrow> elicitation_request \<Rightarrow> elicitation_mode \<Rightarrow> elicitation" where
  "question t i q mode =
     \<lparr>el_id = minted ''elicitation'' (Suc (next_entry t)), el_request_id = i,
      el_message = cr_message q, el_tool_call_id = scope_tool_call (cr_scope q), el_mode = mode,
      el_state = Pending, el_content = None\<rparr>"

text \<open>
  A question the agent asks in a session becomes the last entry of its thread, pending.
  The browser's answer with the same id settles it as the answer says; nothing else in
  the store changes, and answering again changes nothing at all.
\<close>

theorem question_is_answered_once:
  fixes payload payload' :: response_payload
  assumes request: "params_as (de_elicit E) (Request i ELICITATION_CREATE p) = Inr (Some q)"
    and scope: "cr_scope q = SessionScope sid call" and mode: "read_mode (cr_mode q) = Some mode"
    and thread: "thread_of s sid = Some t" and fresh: "\<forall>x \<in> set (entries t). \<not> asks i x"
  defines "asked \<equiv> store_step E s (FromAgent (Request i ELICITATION_CREATE p))"
  defines "answered \<equiv> store_step E asked (FromClient (Response i payload))"
  shows "map_option entries (thread_of asked sid) = Some (entries t @ [Elicitation (question t i q mode)]) \<and>
    map_option entries (thread_of answered sid) = Some (entries t @
      [Elicitation ((question t i q mode)\<lparr>el_state := fst (settled_as E payload),
                                         el_content := snd (settled_as E payload)\<rparr>)]) \<and>
    (\<forall>x. x \<noteq> sid \<longrightarrow> thread_of answered x = thread_of s x) \<and>
    store_step E answered (FromClient (Response i payload')) = answered"
proof -
  let ?q = "question t i q mode"
  let ?t = "snd (push_elicitation i q t)"
  have entries: "entries ?t = entries t @ [Elicitation ?q]"
    using mode by (simp add: push_elicitation_def question_def thread_data minted_def)
  have asked: "asked = (modify_or_default sid (\<lambda>t. snd (push_elicitation i q t)) s)
      \<lparr>pending_elicitations := hm_insert i sid (pending_elicitations s)\<rparr>"
    using request scope mode by (simp add: asked_def elicitation_create_as_modify)
  have asked_thread: "thread_of asked sid = Some ?t"
    using thread by (simp add: asked thread_lookup or_else_def)
  have "update_pending (\<lambda>a. el_request_id a = i) f (entries ?t) = Some (entries t @ [Elicitation (f ?q)])" for f
    unfolding entries by (rule update_pending_last [OF fresh]) (simp_all add: question_def)
  then have settled: "entries (snd (settle_elicitation i st c ?t)) =
      entries t @ [Elicitation (?q\<lparr>el_state := st, el_content := c\<rparr>)]" for st c
    by (simp add: settle_elicitation_def)
  have answered: "answered = modify_thread sid
      (\<lambda>t. snd (settle_elicitation i (fst (settled_as E payload)) (snd (settled_as E payload)) t))
      (asked\<lparr>pending_elicitations := hm_remove i (pending_elicitations asked)\<rparr>)"
    by (simp add: answered_def asked observe_elicitation_answer_def case_prod_beta)
  have "hm_get (pending_elicitations answered) i = None"
    by (simp add: answered modify_thread_def split: option.split)
  then have "store_step E answered (FromClient (Response i payload')) = answered"
    by (simp add: observe_elicitation_answer_def)
  moreover have "thread_of answered x = thread_of s x" if "x \<noteq> sid" for x
    using that by (simp add: answered asked thread_lookup)
  ultimately show ?thesis
    by (simp add: asked_thread entries) (simp add: answered thread_lookup asked_thread settled)
qed

theorem question_is_answered_once_witness:
  "let s = store_run demo_acp new_store [FromClient (Request (IdNumber 1) SESSION_PROMPT (Some ''s''))];
       asked = store_step demo_acp s (FromAgent (Request (IdNumber 9) ELICITATION_CREATE (Some ''s'')));
       answered = store_step demo_acp asked (FromClient (Response (IdNumber 9) (Result null_value)))
   in store_step demo_acp answered (FromClient (Response (IdNumber 9) (Result null_value))) = answered"
proof -
  let ?s = "store_run demo_acp new_store [FromClient (Request (IdNumber 1) SESSION_PROMPT (Some ''s''))]"
  let ?q = "demo_request\<lparr>cr_scope := SessionScope ''s'' None\<rparr>"
  let ?t = "push_user_prompt [] new_thread"
  have request: "params_as (de_elicit demo_acp) (Request (IdNumber 9) ELICITATION_CREATE (Some ''s'')) =
      Inr (Some ?q)"
    by (simp add: demo_acp_simps)
  have scope: "cr_scope ?q = SessionScope ''s'' None" by simp
  have mode: "read_mode (cr_mode ?q) = Some (UrlMode ''el-1'' ''https://x'')" by (simp add: demo_request_def)
  have thread: "thread_of ?s ''s'' = Some ?t"
    by (simp add: store_run_def observe_client_request_def demo_acp_simps
        thread_of_def modify_or_default_def new_store_def or_else_def)
  have fresh: "\<forall>x \<in> set (entries ?t). \<not> asks (IdNumber 9) x"
    by (simp add: push_user_prompt_def thread_data new_thread_def asks_def)
  from question_is_answered_once [OF request scope mode thread fresh,
      of "Result null_value" "Result null_value"]
  show ?thesis unfolding Let_def by (elim conjE)
qed

end
