(* ===== verification/Config.thy ===== *)
theory Config
  imports Json "HOL-Library.Char_ord" "HOL-Library.List_Lexorder"
begin

text \<open>
  \<open>crates/mjx-acp-server/src/config.rs\<close>: turning a parsed \<open>mjx.toml\<close> into the
  configuration the server runs on. The TOML parser, the parser of socket addresses, the
  process environment and the file system are parameters (the record \<open>config_env\<close>).
  A \<open>BTreeMap\<close> is its entries in key order, a path is its bytes.
\<close>

section \<open>The configuration\<close>

type_synonym path = string

record mcp_launch =
  la_command :: path
  la_args :: "string list"
  la_env :: "(string \<times> string) list"

record mcp_endpoint =
  ep_url :: string
  ep_headers :: "(string \<times> string) list"

datatype mcp_kind =
    McpStdio mcp_launch
  | McpHttp mcp_endpoint
  | McpSse mcp_endpoint
  | McpAcp mcp_launch

record mcp_server_config =
  ms_name :: string
  ms_kind :: mcp_kind
  ms_unavailable :: "string option"

fun transport_of :: "mcp_kind \<Rightarrow> string" where
  "transport_of (McpStdio _) = ''stdio''"
| "transport_of (McpHttp _) = ''http''"
| "transport_of (McpSse _) = ''sse''"
| "transport_of (McpAcp _) = ''acp''"

fun join_strings :: "string \<Rightarrow> string list \<Rightarrow> string" where
  "join_strings sep [] = []"
| "join_strings sep [x] = x"
| "join_strings sep (x # y # zs) = x @ sep @ join_strings sep (y # zs)"

definition launch_line :: "mcp_launch \<Rightarrow> string" where
  "launch_line l = join_strings '' '' (la_command l # la_args l)"

fun target_of :: "mcp_kind \<Rightarrow> string" where
  "target_of (McpStdio l) = launch_line l"
| "target_of (McpAcp l) = launch_line l"
| "target_of (McpHttp e) = ep_url e"
| "target_of (McpSse e) = ep_url e"

fun secret_names_of :: "mcp_kind \<Rightarrow> string list" where
  "secret_names_of (McpStdio l) = map fst (la_env l)"
| "secret_names_of (McpAcp l) = map fst (la_env l)"
| "secret_names_of (McpHttp e) = map fst (ep_headers e)"
| "secret_names_of (McpSse e) = map fst (ep_headers e)"

section \<open>The file as written\<close>

record raw_mcp_server =
  raw_name :: string
  raw_transport :: "string option"
  raw_command :: "string option"
  raw_args :: "string list"
  raw_env :: "(string \<times> string) list"
  raw_env_from :: "(string \<times> string) list"
  raw_url :: "string option"
  raw_headers :: "(string \<times> string) list"
  raw_headers_from :: "(string \<times> string) list"

record 'o raw_config =
  raw_bind :: "string option"
  raw_resume_ttl_secs :: "64 word option"
  raw_roots :: "string list"
  raw_registry_url :: "string option"
  raw_cache_dir :: "string option"
  raw_agents :: "'o list"
  raw_mcp_servers :: "raw_mcp_server list"

record ('a, 'o) config =
  base_dir :: path
  bind :: 'a
  workspace_roots :: "path list"
  registry_url :: string
  cache_dir :: path
  agents :: "'o list"
  mcp_servers :: "mcp_server_config list"
  resume_ttl :: "64 word"

datatype config_error =
    NotAnAddress string
  | McpNotUsable nat string
  | DuplicateMcpName string

record 'a config_env =
  parse_addr :: "string \<Rightarrow> 'a option"
  env_var :: "string \<Rightarrow> string option"
  canonicalize :: "path \<Rightarrow> path option"

definition DEFAULT_BIND :: string where
  "DEFAULT_BIND = ''127.0.0.1:4321''"

definition DEFAULT_RESUME_TTL :: "64 word" where
  "DEFAULT_RESUME_TTL = 300"

definition DEFAULT_REGISTRY_URL :: string where
  "DEFAULT_REGISTRY_URL =
     ''https://cdn.agentclientprotocol.com/registry/v1/latest/registry.json''"

section \<open>Paths\<close>

definition is_absolute_path :: "path \<Rightarrow> bool" where
  "is_absolute_path p \<longleftrightarrow> starts_with p ''/''"

text \<open>\<open>Path::join\<close> on Unix: an absolute right side replaces the left one.\<close>

definition path_join :: "path \<Rightarrow> path \<Rightarrow> path" where
  "path_join base p =
     (if is_absolute_path p then p
      else if base = [] \<or> last base = CHR ''/'' then base @ p
      else base @ ''/'' @ p)"

definition absolute :: "path \<Rightarrow> string \<Rightarrow> path" where
  "absolute base p = (if is_absolute_path p then p else path_join base p)"

definition command_path :: "path \<Rightarrow> string \<Rightarrow> path" where
  "command_path base command =
     (if CHR ''/'' \<in> set command \<or> starts_with command ''.''
      then absolute base command else command)"

section \<open>One server\<close>

text \<open>
  \<open>name.trim().is_empty()\<close>: nothing but code points with the Unicode property
  \<open>White_Space\<close>, given by their UTF-8 encodings.
\<close>

definition white_space :: "string list" where
  "white_space =
     map (\<lambda>n. [char_of n]) [9, 10, 11, 12, 13, 32::nat] @
     map (map char_of) [[194, 133], [194, 160::nat], [225, 154, 128]] @
     map (\<lambda>n. map char_of [226, 128, n]) ([128..<139] @ [168, 169, 175::nat]) @
     map (map char_of) [[226, 129, 159], [227, 128, 128::nat]]"

function is_blank :: "string \<Rightarrow> bool" where
  "is_blank s =
     (if s = [] then True
      else case find (starts_with s) white_space of
             None \<Rightarrow> False
           | Some w \<Rightarrow> if w = [] then False else is_blank (drop (length w) s))"
  by auto

termination by (relation "measure length") auto

declare is_blank.simps [simp del]

text \<open>
  \<open>resolve_secrets\<close>: the loop over \<open>from_env\<close> with the list resolved so far and the first
  reason the server is unavailable.
\<close>

fun resolve_from ::
  "(string \<Rightarrow> string option) \<Rightarrow> string \<Rightarrow> (string \<times> string) list \<Rightarrow> (string \<times> string) list \<Rightarrow>
   string option \<Rightarrow> string + (string \<times> string) list \<times> string option" where
  "resolve_from env field resolved [] unavailable = Inr (resolved, unavailable)"
| "resolve_from env field resolved ((name, variable) # rest) unavailable =
     (if name \<in> fst ` set resolved
      then Inl (''`'' @ name @ ''` is set in both `'' @ field @ ''` and `'' @ field @ ''_from`'')
      else case env variable of
             Some v \<Rightarrow> resolve_from env field (resolved @ [(name, v)]) rest unavailable
           | None \<Rightarrow> resolve_from env field resolved rest
               (case unavailable of
                  Some u \<Rightarrow> Some u
                | None \<Rightarrow> Some (''`'' @ variable @ ''` is not set in this server's environment'')))"

definition resolve_secrets ::
  "(string \<Rightarrow> string option) \<Rightarrow> (string \<times> string) list \<Rightarrow> (string \<times> string) list \<Rightarrow> string \<Rightarrow>
   string option \<Rightarrow> string + (string \<times> string) list \<times> string option" where
  "resolve_secrets env literal from_env field unavailable =
     (case resolve_from env field literal from_env unavailable of
        Inl e \<Rightarrow> Inl e
      | Inr (resolved, u) \<Rightarrow> Inr (sort_key fst resolved, u))"

text \<open>The keys that mean nothing for a transport, with whether each is present.\<close>

definition stray_keys :: "string \<Rightarrow> raw_mcp_server \<Rightarrow> (string \<times> bool) list" where
  "stray_keys transport r =
     (if transport = ''stdio'' \<or> transport = ''acp''
      then [(''url'', raw_url r \<noteq> None), (''headers'', raw_headers r \<noteq> []),
            (''headers_from'', raw_headers_from r \<noteq> [])]
      else [(''command'', raw_command r \<noteq> None), (''args'', raw_args r \<noteq> []),
            (''env'', raw_env r \<noteq> []), (''env_from'', raw_env_from r \<noteq> [])])"

definition launch_server ::
  "'a config_env \<Rightarrow> string \<Rightarrow> (mcp_launch \<Rightarrow> mcp_kind) \<Rightarrow> raw_mcp_server \<Rightarrow> path \<Rightarrow>
   string + mcp_server_config" where
  "launch_server C transport kind r base =
     (case raw_command r of
        None \<Rightarrow> Inl (''transport `'' @ transport @ ''` needs a `command` to run'')
      | Some command \<Rightarrow>
          (case resolve_secrets (env_var C) (raw_env r) (raw_env_from r) ''env'' None of
             Inl e \<Rightarrow> Inl e
           | Inr (env, unavailable) \<Rightarrow>
               Inr \<lparr>ms_name = raw_name r,
                    ms_kind = kind \<lparr>la_command = command_path base command,
                                    la_args = raw_args r, la_env = env\<rparr>,
                    ms_unavailable = unavailable\<rparr>))"

definition endpoint_server ::
  "'a config_env \<Rightarrow> string \<Rightarrow> (mcp_endpoint \<Rightarrow> mcp_kind) \<Rightarrow> raw_mcp_server \<Rightarrow>
   string + mcp_server_config" where
  "endpoint_server C transport kind r =
     (case raw_url r of
        None \<Rightarrow> Inl (''transport `'' @ transport @ ''` needs a `url`'')
      | Some url \<Rightarrow>
          (case resolve_secrets (env_var C) (raw_headers r) (raw_headers_from r) ''headers'' None of
             Inl e \<Rightarrow> Inl e
           | Inr (headers, unavailable) \<Rightarrow>
               Inr \<lparr>ms_name = raw_name r, ms_kind = kind \<lparr>ep_url = url, ep_headers = headers\<rparr>,
                    ms_unavailable = unavailable\<rparr>))"

definition mcp_server :: "'a config_env \<Rightarrow> raw_mcp_server \<Rightarrow> path \<Rightarrow> string + mcp_server_config" where
  "mcp_server C r base =
     (if is_blank (raw_name r) then Inl ''`name` is required and cannot be blank''
      else
        let transport = (case raw_transport r of None \<Rightarrow> ''stdio'' | Some t \<Rightarrow> t)
        in case find snd (stray_keys transport r) of
             Some (key, _) \<Rightarrow>
               Inl (''`'' @ key @ ''` means nothing for transport `'' @ transport @ ''`'')
           | None \<Rightarrow>
               if transport = ''stdio'' then launch_server C transport McpStdio r base
               else if transport = ''acp'' then launch_server C transport McpAcp r base
               else if transport = ''http'' then endpoint_server C transport McpHttp r
               else if transport = ''sse'' then endpoint_server C transport McpSse r
               else Inl (''`transport` is `'' @ transport @
                         ''`; it must be one of stdio, http, sse or acp''))"

section \<open>The whole file\<close>

fun read_servers ::
  "'a config_env \<Rightarrow> path \<Rightarrow> nat \<Rightarrow> mcp_server_config list \<Rightarrow> raw_mcp_server list \<Rightarrow>
   config_error + mcp_server_config list" where
  "read_servers C base index done [] = Inr done"
| "read_servers C base index done (r # rest) =
     (case mcp_server C r base of
        Inl e \<Rightarrow> Inl (McpNotUsable index e)
      | Inr server \<Rightarrow>
          if ms_name server \<in> ms_name ` set done then Inl (DuplicateMcpName (ms_name server))
          else read_servers C base (Suc index) (done @ [server]) rest)"

definition roots_of :: "path \<Rightarrow> string list \<Rightarrow> path list" where
  "roots_of base roots =
     (let resolved = map (absolute base) roots in if resolved = [] then [base] else resolved)"

definition from_raw ::
  "'a config_env \<Rightarrow> 'o raw_config \<Rightarrow> path \<Rightarrow> config_error + ('a, 'o) config" where
  "from_raw C r base =
     (let address = (case raw_bind r of None \<Rightarrow> DEFAULT_BIND | Some b \<Rightarrow> b)
      in case parse_addr C address of
           None \<Rightarrow> Inl (NotAnAddress address)
         | Some a \<Rightarrow>
             (case read_servers C base 0 [] (raw_mcp_servers r) of
                Inl e \<Rightarrow> Inl e
              | Inr servers \<Rightarrow>
                  Inr \<lparr>base_dir = base, bind = a, workspace_roots = roots_of base (raw_roots r),
                       registry_url = (case raw_registry_url r of
                                         None \<Rightarrow> DEFAULT_REGISTRY_URL | Some u \<Rightarrow> u),
                       cache_dir = absolute base (case raw_cache_dir r of
                                                    None \<Rightarrow> ''.mjx-cache'' | Some d \<Rightarrow> d),
                       agents = raw_agents r, mcp_servers = servers,
                       resume_ttl = (case raw_resume_ttl_secs r of
                                       None \<Rightarrow> DEFAULT_RESUME_TTL | Some n \<Rightarrow> n)\<rparr>))"

text \<open>\<open>default_cwd\<close> indexes the list; an index out of range would be a panic, \<open>None\<close>.\<close>

definition default_cwd :: "('a, 'o) config \<Rightarrow> path option" where
  "default_cwd c = (case workspace_roots c of [] \<Rightarrow> None | r # _ \<Rightarrow> Some r)"

text \<open>\<open>Path::starts_with\<close> compares whole components; both paths here are canonical.\<close>

definition path_starts_with :: "path \<Rightarrow> path \<Rightarrow> bool" where
  "path_starts_with p root \<longleftrightarrow> p = root \<or> root = ''/'' \<and> is_absolute_path p \<or> starts_with p (root @ ''/'')"

definition is_within_roots :: "'a config_env \<Rightarrow> ('a, 'o) config \<Rightarrow> path \<Rightarrow> bool" where
  "is_within_roots C c candidate =
     (case canonicalize C candidate of
        None \<Rightarrow> False
      | Some p \<Rightarrow> \<exists>root \<in> set (workspace_roots c).
          (case canonicalize C root of None \<Rightarrow> False | Some q \<Rightarrow> path_starts_with p q))"

section \<open>Secrets\<close>

fun looked_up ::
  "(string \<Rightarrow> string option) \<Rightarrow> (string \<times> string) list \<Rightarrow> (string \<times> string) list" where
  "looked_up env [] = []"
| "looked_up env ((n, var) # rest) =
     (case env var of None \<Rightarrow> looked_up env rest | Some v \<Rightarrow> (n, v) # looked_up env rest)"

lemma set_looked_up:
  "set (looked_up env ns) = {(n, v). \<exists>var. (n, var) \<in> set ns \<and> env var = Some v}"
  by (induction env ns rule: looked_up.induct) (auto split: option.splits)

lemma looked_up_names: "fst ` set (looked_up env ns) \<subseteq> fst ` set ns"
  by (force simp: set_looked_up)

lemma distinct_looked_up: "distinct (map fst ns) \<Longrightarrow> distinct (map fst (looked_up env ns))"
proof (induction env ns rule: looked_up.induct)
  case (2 env n var rest)
  then show ?case using looked_up_names [of env rest] by (auto split: option.split)
qed simp

lemma resolve_from_Inr:
  assumes "resolve_from env field resolved from_env u = Inr (out, u')"
    and "distinct (map fst from_env)"
  shows "out = resolved @ looked_up env from_env \<and>
    fst ` set resolved \<inter> fst ` set from_env = {} \<and>
    (u' = None \<longleftrightarrow> u = None \<and> (\<forall>(n, var) \<in> set from_env. env var \<noteq> None))"
  using assms
proof (induction env field resolved from_env u rule: resolve_from.induct)
  case (2 env field resolved name variable rest u)
  then show ?case
    by (cases "env variable") (auto split: if_splits option.splits)
qed simp

lemma resolve_from_Inl:
  assumes "distinct (map fst from_env)"
  shows "(\<exists>e. resolve_from env field resolved from_env u = Inl e) \<longleftrightarrow>
    fst ` set resolved \<inter> fst ` set from_env \<noteq> {}"
  using assms
proof (induction env field resolved from_env u rule: resolve_from.induct)
  case (2 env field resolved name variable rest u)
  then show ?case by (cases "env variable") auto
qed simp

text \<open>
  A server's variables (and headers alike) are the literal ones and the ones the
  environment has for the names given indirectly, in key order, each name once; defining a name
  both ways is an error, and the server is marked unavailable exactly when a named
  variable is not set.
\<close>

theorem resolve_secrets_spec:
  assumes "distinct (map fst literal)" and "distinct (map fst from_env)"
  shows "case resolve_secrets env literal from_env field None of
      Inl e \<Rightarrow> fst ` set literal \<inter> fst ` set from_env \<noteq> {}
    | Inr (out, u) \<Rightarrow>
        fst ` set literal \<inter> fst ` set from_env = {} \<and> sorted (map fst out) \<and> distinct (map fst out) \<and>
        set out = set literal \<union> {(n, v). \<exists>var. (n, var) \<in> set from_env \<and> env var = Some v} \<and>
        (u = None \<longleftrightarrow> (\<forall>(n, var) \<in> set from_env. env var \<noteq> None))"
proof (cases "resolve_from env field literal from_env None")
  case (Inl e)
  then show ?thesis
    using resolve_from_Inl [OF assms(2), of env field literal None] by (auto simp: resolve_secrets_def)
next
  case (Inr r)
  obtain out u where r: "r = (out, u)" by (cases r)
  have out: "out = literal @ looked_up env from_env"
    and disj: "fst ` set literal \<inter> fst ` set from_env = {}"
    and u: "u = None \<longleftrightarrow> (\<forall>(n, var) \<in> set from_env. env var \<noteq> None)"
    using resolve_from_Inr [OF Inr [unfolded r] assms(2)] by blast+
  have "distinct (map fst out)"
    using assms disj distinct_looked_up [of from_env env] looked_up_names [of env from_env]
    unfolding out map_append distinct_append set_map by blast
  then have "distinct (map fst (sort_key fst out))"
    by (simp add: distinct_map) 
  with disj u show ?thesis
    unfolding resolve_secrets_def Inr r by (simp add: out set_looked_up)
qed

text \<open>An environment in which one variable is set.\<close>

definition demo_config_env :: "string config_env" where
  "demo_config_env = \<lparr>parse_addr = Some,
     env_var = (\<lambda>v. if v = ''TOKEN'' then Some ''s3cret'' else None), canonicalize = Some\<rparr>"

theorem resolve_secrets_spec_witness:
  "case resolve_secrets (env_var demo_config_env) [(''PATH'', ''/bin'')]
        [(''KEY'', ''TOKEN''), (''OTHER'', ''UNSET'')] ''env'' None of
     Inl e \<Rightarrow> False
   | Inr (out, u) \<Rightarrow> set out = {(''PATH'', ''/bin''), (''KEY'', ''s3cret'')} \<and> u \<noteq> None"
proof -
  have "distinct (map fst [(''PATH'', ''/bin'')])"
    and "distinct (map fst [(''KEY'', ''TOKEN''), (''OTHER'', ''UNSET'')])"
    by simp_all
  note spec = resolve_secrets_spec [OF this, of "env_var demo_config_env" "''env''"]
  show ?thesis
  proof (cases "resolve_secrets (env_var demo_config_env) [(''PATH'', ''/bin'')]
        [(''KEY'', ''TOKEN''), (''OTHER'', ''UNSET'')] ''env'' None")
    case (Inl e)
    with spec show ?thesis by simp
  next
    case (Inr r)
    then obtain out u where r: "resolve_secrets (env_var demo_config_env) [(''PATH'', ''/bin'')]
        [(''KEY'', ''TOKEN''), (''OTHER'', ''UNSET'')] ''env'' None = Inr (out, u)"
      by (cases r) simp
    from spec [unfolded r] show ?thesis
      unfolding r by (auto simp: demo_config_env_def split: if_splits)
  qed
qed

section \<open>What a configuration that loads looks like\<close>

definition transport_named :: "raw_mcp_server \<Rightarrow> string" where
  "transport_named r = (case raw_transport r of None \<Rightarrow> ''stdio'' | Some t \<Rightarrow> t)"

definition resolves_to :: "raw_mcp_server \<Rightarrow> mcp_server_config \<Rightarrow> bool" where
  "resolves_to r server \<longleftrightarrow>
     ms_name server = raw_name r \<and> \<not> is_blank (raw_name r) \<and>
     transport_of (ms_kind server) = transport_named r \<and>
     (\<forall>(key, present) \<in> set (stray_keys (transport_named r) r). \<not> present)"

lemma launch_server_Inr:
  "launch_server C transport kind r base = Inr server \<Longrightarrow>
     ms_name server = raw_name r \<and> (\<exists>l. ms_kind server = kind l)"
  by (auto simp: launch_server_def split: option.splits sum.splits)

lemma endpoint_server_Inr:
  "endpoint_server C transport kind r = Inr server \<Longrightarrow>
     ms_name server = raw_name r \<and> (\<exists>e. ms_kind server = kind e)"
  by (auto simp: endpoint_server_def split: option.splits sum.splits)

lemma mcp_server_Inr:
  assumes "mcp_server C r base = Inr server"
  shows "resolves_to r server"
proof -
  from assms have blank: "\<not> is_blank (raw_name r)"
    and stray: "find snd (stray_keys (transport_named r) r) = None"
    by (auto simp: mcp_server_def transport_named_def Let_def split: if_splits option.splits)
  then have "ms_name server = raw_name r \<and> transport_of (ms_kind server) = transport_named r"
    using assms
    by (auto simp: mcp_server_def transport_named_def [symmetric] Let_def
        dest!: launch_server_Inr endpoint_server_Inr split: if_splits)
  with blank stray show ?thesis by (auto simp: resolves_to_def find_None_iff)
qed

lemma read_servers_Inr:
  assumes "read_servers C base index acc raws = Inr out" and "distinct (map ms_name acc)"
  shows "\<exists>new. out = acc @ new \<and> list_all2 resolves_to raws new \<and> distinct (map ms_name out)"
  using assms
proof (induction C base index acc raws rule: read_servers.induct)
  case (2 C base index acc r rest)
  then obtain server where server: "mcp_server C r base = Inr server"
    and fresh: "ms_name server \<notin> ms_name ` set acc"
    and rest: "read_servers C base (Suc index) (acc @ [server]) rest = Inr out"
    by (auto split: sum.splits if_splits)
  with 2 obtain new where "out = (acc @ [server]) @ new" "list_all2 resolves_to rest new"
    "distinct (map ms_name out)" by fastforce
  with mcp_server_Inr [OF server] show ?case
    by (intro exI [of _ "server # new"]) simp
qed simp

lemma absolute_is_absolute: "is_absolute_path base \<Longrightarrow> is_absolute_path (absolute base p)"
  by (cases base)
     (auto simp: absolute_def path_join_def is_absolute_path_def starts_with_def split: if_splits)

text \<open>
  A configuration that loads names its MCP servers uniquely, one per entry and in the
  file's order, each with the entry's name and transport and no key that transport would
  ignore; it always has a default working directory, and its roots and cache directory
  are absolute when the file's directory is.
\<close>

theorem config_is_usable:
  assumes "from_raw C r base = Inr c"
  shows "list_all2 resolves_to (raw_mcp_servers r) (mcp_servers c) \<and>
    distinct (map ms_name (mcp_servers c)) \<and> (\<exists>d. default_cwd c = Some d) \<and>
    (is_absolute_path base \<longrightarrow> (\<forall>p \<in> insert (cache_dir c) (set (workspace_roots c)). is_absolute_path p))"
proof -
  from assms obtain a servers where
    servers: "read_servers C base 0 [] (raw_mcp_servers r) = Inr servers"
    and c: "mcp_servers c = servers" "workspace_roots c = roots_of base (raw_roots r)"
      "cache_dir c = absolute base (case raw_cache_dir r of None \<Rightarrow> ''.mjx-cache'' | Some d \<Rightarrow> d)"
    by (auto simp: from_raw_def Let_def split: option.splits sum.splits)
  from read_servers_Inr [OF servers] c(1) have
    "list_all2 resolves_to (raw_mcp_servers r) (mcp_servers c)" "distinct (map ms_name (mcp_servers c))"
    by auto
  moreover have "\<exists>d. default_cwd c = Some d"
    by (simp add: default_cwd_def c(2) roots_of_def Let_def split: list.split)
  moreover have "\<forall>p \<in> insert (cache_dir c) (set (workspace_roots c)). is_absolute_path p"
    if "is_absolute_path base"
    using that c(2,3) absolute_is_absolute [OF that] by (auto simp: roots_of_def Let_def split: if_splits)
  ultimately show ?thesis by blast
qed

definition demo_raw :: "string raw_config" where
  "demo_raw = \<lparr>raw_bind = None, raw_resume_ttl_secs = None, raw_roots = [],
     raw_registry_url = None, raw_cache_dir = None, raw_agents = [], raw_mcp_servers = []\<rparr>"

theorem config_is_usable_witness:
  "\<exists>c d. from_raw demo_config_env demo_raw ''/project'' = Inr c \<and> default_cwd c = Some d"
proof -
  obtain c where c: "from_raw demo_config_env demo_raw ''/project'' = Inr c"
    by (simp add: from_raw_def demo_raw_def demo_config_env_def)
  from config_is_usable [OF c] c show ?thesis by blast
qed

end
