(* ===== verification/Mcp.thy ===== *)
theory Mcp
  imports Method Config
begin

text \<open>
  \<open>crates/mjx-acp-server/src/mcp.rs\<close>: which configured MCP servers an agent is offered,
  and the rewrite that adds them to a request that opens a session. The schema crate's
  builders and their serialization are a parameter: \<open>wire_json\<close> takes what the builder
  was given to the JSON it becomes, if it serializes.
\<close>

section \<open>Transports\<close>

record transports =
  tr_http :: bool
  tr_sse :: bool
  tr_acp :: bool

definition no_transports :: transports where
  "no_transports = \<lparr>tr_http = False, tr_sse = False, tr_acp = False\<rparr>"

definition from_initialize_result :: "('a) serde_scheme \<Rightarrow> raw \<Rightarrow> transports" where
  "from_initialize_result E r =
     (case de_value E r of
        Inl _ \<Rightarrow> no_transports
      | Inr v \<Rightarrow>
          let caps = json_index (json_index v ''agentCapabilities'') ''mcpCapabilities''
          in \<lparr>tr_http = (json_index caps ''http'' = JBool True),
              tr_sse = (json_index caps ''sse'' = JBool True),
              tr_acp = (json_index caps ''acp'' = JBool True)\<rparr>)"

fun supported :: "transports \<Rightarrow> mcp_kind \<Rightarrow> bool" where
  "supported tr (McpStdio _) \<longleftrightarrow> True"
| "supported tr (McpHttp _) \<longleftrightarrow> tr_http tr"
| "supported tr (McpSse _) \<longleftrightarrow> tr_sse tr"
| "supported tr (McpAcp _) \<longleftrightarrow> tr_acp tr"

definition skip_reason :: "mcp_server_config \<Rightarrow> transports \<Rightarrow> string option" where
  "skip_reason server tr =
     (case ms_unavailable server of
        Some reason \<Rightarrow> Some reason
      | None \<Rightarrow>
          if supported tr (ms_kind server) then None
          else Some (''this agent did not declare the `'' @ transport_of (ms_kind server) @
                     ''` MCP transport''))"

section \<open>The rewrite\<close>

text \<open>The arguments of the schema crate's builders.\<close>

datatype mcp_wire =
    WireStdio string path "string list" "(string \<times> string) list"
  | WireHttp string string "(string \<times> string) list"
  | WireSse string string "(string \<times> string) list"
  | WireAcp string string

fun wire_arguments :: "string \<Rightarrow> mcp_kind \<Rightarrow> mcp_wire" where
  "wire_arguments name (McpStdio l) = WireStdio name (la_command l) (la_args l) (la_env l)"
| "wire_arguments name (McpHttp e) = WireHttp name (ep_url e) (ep_headers e)"
| "wire_arguments name (McpSse e) = WireSse name (ep_url e) (ep_headers e)"
| "wire_arguments name (McpAcp l) = WireAcp name name"

definition to_wire :: "(mcp_wire \<Rightarrow> json option) \<Rightarrow> mcp_server_config \<Rightarrow> json option" where
  "to_wire wire_json server = wire_json (wire_arguments (ms_name server) (ms_kind server))"

definition opens_a_session :: "string \<Rightarrow> bool" where
  "opens_a_session m \<longleftrightarrow> m = SESSION_NEW \<or> m = SESSION_LOAD \<or> m = SESSION_FORK \<or> m = SESSION_RESUME"

text \<open>The names the request already declares.\<close>

definition declared_names :: "json list \<Rightarrow> string list" where
  "declared_names servers = List.map_filter (\<lambda>v. as_str (json_index v ''name'')) servers"

text \<open>The loop over the configured servers, which pushes onto \<open>existing\<close> and counts.\<close>

fun offer_servers ::
  "(mcp_wire \<Rightarrow> json option) \<Rightarrow> transports \<Rightarrow> string list \<Rightarrow> mcp_server_config list \<Rightarrow>
   json list \<Rightarrow> nat \<Rightarrow> json list \<times> nat" where
  "offer_servers W tr declared [] existing added = (existing, added)"
| "offer_servers W tr declared (server # rest) existing added =
     (if ms_name server \<in> set declared then offer_servers W tr declared rest existing added
      else if skip_reason server tr \<noteq> None then offer_servers W tr declared rest existing added
      else case to_wire W server of
             Some wire \<Rightarrow> offer_servers W tr declared rest (existing @ [wire]) (Suc added)
           | None \<Rightarrow> offer_servers W tr declared rest existing added)"

text \<open>The parameters as a value: an empty object where there are none, or none that parse.\<close>

definition params_value :: "('a) serde_scheme \<Rightarrow> raw option \<Rightarrow> json" where
  "params_value E p =
     (case p of
        None \<Rightarrow> JObject []
      | Some r \<Rightarrow> (case de_value E r of Inl _ \<Rightarrow> JObject [] | Inr v \<Rightarrow> v))"

fun merge_mcp_servers ::
  "('a) serde_scheme \<Rightarrow> (mcp_wire \<Rightarrow> json option) \<Rightarrow> frame \<Rightarrow> mcp_server_config list \<Rightarrow>
   transports \<Rightarrow> frame option" where
  "merge_mcp_servers E W (Request i m p) servers tr =
     (if servers = [] \<or> \<not> opens_a_session m then None
      else case as_object (params_value E p) of
             None \<Rightarrow> None
           | Some members \<Rightarrow>
               let (members', slot) = or_insert ''mcpServers'' (JArray []) members
               in case as_array slot of
                    None \<Rightarrow> None
                  | Some existing \<Rightarrow>
                      let (existing', added) =
                        offer_servers W tr (declared_names existing) servers existing 0
                      in if added = 0 then None
                         else case ser_value E (JObject
                                (obj_insert ''mcpServers'' (JArray existing') members')) of
                                Inl _ \<Rightarrow> None
                              | Inr r \<Rightarrow> Some (Request i m (Some r)))"
| "merge_mcp_servers E W _ servers tr = None"

section \<open>What is added\<close>

definition offered :: "transports \<Rightarrow> string list \<Rightarrow> mcp_server_config \<Rightarrow> bool" where
  "offered tr declared server \<longleftrightarrow> ms_name server \<notin> set declared \<and> skip_reason server tr = None"

definition additions ::
  "(mcp_wire \<Rightarrow> json option) \<Rightarrow> transports \<Rightarrow> string list \<Rightarrow> mcp_server_config list \<Rightarrow> json list" where
  "additions W tr declared servers =
     List.map_filter (to_wire W) (filter (offered tr declared) servers)"

lemma offer_servers_additions:
  "offer_servers W tr declared servers existing added =
     (existing @ additions W tr declared servers, added + length (additions W tr declared servers))"
  by (induction W tr declared servers existing added rule: offer_servers.induct)
     (auto simp: additions_def offered_def List.map_filter_simps split: option.split)

text \<open>The object a merge starts from and the servers it names.\<close>

definition listed :: "(string \<times> json) list \<Rightarrow> json list option" where
  "listed members = (case map_of members ''mcpServers'' of None \<Rightarrow> Some [] | Some v \<Rightarrow> as_array v)"

lemma listed_or_insert:
  "as_array (snd (or_insert ''mcpServers'' (JArray []) members)) = listed members"
  by (simp add: listed_def or_insert_def split: option.split)

lemma merge_Request:
  "merge_mcp_servers E W (Request i m p) servers tr =
     (if servers = [] \<or> \<not> opens_a_session m then None
      else Option.bind (as_object (params_value E p)) (\<lambda>members.
        Option.bind (listed members) (\<lambda>existing.
          let new = additions W tr (declared_names existing) servers
          in if new = [] then None
             else case ser_value E (JObject (obj_insert ''mcpServers'' (JArray (existing @ new))
                         (fst (or_insert ''mcpServers'' (JArray []) members)))) of
                    Inl _ \<Rightarrow> None
                  | Inr r \<Rightarrow> Some (Request i m (Some r)))))"
  by (simp add: listed_or_insert offer_servers_additions case_prod_beta Let_def del: merge_mcp_servers.simps
       add: merge_mcp_servers.simps(1) split: option.split sum.split)

text \<open>
  The rewrite touches only \<open>mcpServers\<close>: the servers the client listed stay, in front
  and in order, followed by exactly the configured servers that can be offered, that is not
  declared already, available, and on a transport the agent supports; every other
  member, the id and the method are the client's own.
\<close>

theorem merge_only_adds_servers:
  assumes "merge_mcp_servers E W f servers tr = Some f'"
  shows "\<exists>i m p members existing members' r.
    f = Request i m p \<and> f' = Request i m (Some r) \<and> opens_a_session m \<and>
    params_value E p = JObject members \<and> listed members = Some existing \<and>
    ser_value E (JObject members') = Inr r \<and>
    map_of members' ''mcpServers'' =
      Some (JArray (existing @ additions W tr (declared_names existing) servers)) \<and>
    additions W tr (declared_names existing) servers \<noteq> [] \<and>
    (\<forall>k. k \<noteq> ''mcpServers'' \<longrightarrow> map_of members' k = map_of members k)"
proof -
  from assms obtain i m p where f: "f = Request i m p"
    by (cases f) auto
  note assms [unfolded f merge_Request]
  then obtain members existing r where
    "as_object (params_value E p) = Some members" and existing: "listed members = Some existing"
    and m: "opens_a_session m" and f': "f' = Request i m (Some r)"
    and new: "additions W tr (declared_names existing) servers \<noteq> []"
    and r: "ser_value E (JObject (obj_insert ''mcpServers''
      (JArray (existing @ additions W tr (declared_names existing) servers))
      (fst (or_insert ''mcpServers'' (JArray []) members)))) = Inr r"
    by (auto simp: Let_def bind_eq_Some_conv split: if_splits sum.splits)
  then have "params_value E p = JObject members"
    by (cases "params_value E p") auto
  with f f' m existing new r show ?thesis
    by (intro exI conjI) (assumption | rule refl | simp)+
qed

fun wire_name :: "mcp_wire \<Rightarrow> string" where
  "wire_name (WireStdio n _ _ _) = n"
| "wire_name (WireHttp n _ _) = n"
| "wire_name (WireSse n _ _) = n"
| "wire_name (WireAcp n _) = n"

definition names_itself :: "(mcp_wire \<Rightarrow> json option) \<Rightarrow> bool" where
  "names_itself W \<longleftrightarrow> (\<forall>w v. W w = Some v \<longrightarrow> json_index v ''name'' = JString (wire_name w))"

lemma wire_name_arguments [simp]: "wire_name (wire_arguments n k) = n"
  by (cases k) simp_all

lemma declared_names_append: "declared_names (a @ b) = declared_names a @ declared_names b"
  by (simp add: declared_names_def List.map_filter_def)

lemma declared_names_additions:
  assumes "names_itself W"
  shows "declared_names (additions W tr declared servers) =
    map ms_name (filter (\<lambda>s. offered tr declared s \<and> to_wire W s \<noteq> None) servers)"
proof (induction servers)
  case (Cons s servers)
  have "json_index v ''name'' = JString (ms_name s)" if "to_wire W s = Some v" for v
    using assms that by (simp add: names_itself_def to_wire_def)
  with Cons show ?case
    by (auto simp: additions_def declared_names_def List.map_filter_simps)
qed (simp add: additions_def declared_names_def List.map_filter_simps)

text \<open>
  No request ever ends up with two servers of one name that did not have them already:
  where the client's names are distinct, so are the merged ones. (The configuration's
  own names are distinct, see \<open>config_is_usable\<close>.)
\<close>

theorem merged_names_stay_distinct:
  assumes "names_itself W" and "distinct (map ms_name servers)" and "distinct (declared_names existing)"
  shows "distinct (declared_names (existing @ additions W tr (declared_names existing) servers))"
  using assms(2,3)
  by (auto simp: declared_names_append declared_names_additions [OF assms(1)] distinct_map_filter offered_def)

text \<open>Two servers, one of which stays here, and a serializer that writes the name only.\<close>

definition demo_wire :: "mcp_wire \<Rightarrow> json option" where
  "demo_wire w = Some (JObject [(''name'', JString (wire_name w))])"

definition demo_launch :: mcp_launch where
  "demo_launch = \<lparr>la_command = ''npx'', la_args = [''server''], la_env = [(''TOKEN'', ''s3cret'')]\<rparr>"

definition demo_servers :: "mcp_server_config list" where
  "demo_servers =
     [\<lparr>ms_name = ''files'', ms_kind = McpStdio demo_launch, ms_unavailable = None\<rparr>,
      \<lparr>ms_name = ''github'', ms_kind = McpAcp demo_launch, ms_unavailable = None\<rparr>]"

lemma demo_additions:
  "additions demo_wire no_transports [] demo_servers = [JObject [(''name'', JString ''files'')]]"
  by (simp add: additions_def offered_def skip_reason_def demo_servers_def no_transports_def
      to_wire_def demo_wire_def List.map_filter_simps)

theorem merge_only_adds_servers_witness:
  "\<exists>f'. merge_mcp_servers (toy_serde []) demo_wire (Request (IdNumber 1) SESSION_NEW None)
       demo_servers no_transports = Some f' \<and> frame_method f' = Some SESSION_NEW"
proof -
  have some: "merge_mcp_servers (toy_serde []) demo_wire (Request (IdNumber 1) SESSION_NEW None)
      demo_servers no_transports = Some (Request (IdNumber 1) SESSION_NEW (Some null_value))"
    using demo_additions
    by (simp add: merge_Request params_value_def listed_def opens_a_session_def declared_names_def
        List.map_filter_simps toy_serde_def del: merge_mcp_servers.simps) (simp add: demo_servers_def)
  from merge_only_adds_servers [OF some] some show ?thesis by auto
qed

theorem merged_names_stay_distinct_witness:
  "distinct (declared_names ([JObject [(''name'', JString ''mine'')]] @
     additions demo_wire no_transports (declared_names [JObject [(''name'', JString ''mine'')]]) demo_servers))"
  by (rule merged_names_stay_distinct)
     (simp_all add: names_itself_def demo_wire_def json_index_def demo_servers_def declared_names_def
       List.map_filter_simps)

section \<open>What never leaves\<close>

text \<open>The server with the command it would run, its arguments and its environment blanked.\<close>

fun without_launch :: "mcp_kind \<Rightarrow> mcp_kind" where
  "without_launch (McpAcp l) = McpAcp \<lparr>la_command = [], la_args = [], la_env = []\<rparr>"
| "without_launch k = k"

definition hide_launch :: "mcp_server_config \<Rightarrow> mcp_server_config" where
  "hide_launch s = s\<lparr>ms_kind := without_launch (ms_kind s)\<rparr>"

lemma without_launch_same [simp]:
  "supported tr (without_launch k) = supported tr k"
  "transport_of (without_launch k) = transport_of k"
  "wire_arguments n (without_launch k) = wire_arguments n k"
  by (cases k; simp)+

lemma hidden_same:
  "skip_reason (hide_launch s) tr = skip_reason s tr" "to_wire W (hide_launch s) = to_wire W s"
  "ms_name (hide_launch s) = ms_name s"
  by (simp_all add: skip_reason_def to_wire_def hide_launch_def split: option.split)

text \<open>
  What an agent is sent does not depend on how an \<open>acp\<close> server is run: with the
  command, arguments and environment of every such server blanked, the rewritten request
  is the same, whatever the transports and the request.
\<close>

theorem acp_launch_stays_here:
  "merge_mcp_servers E W f (map hide_launch servers) tr = merge_mcp_servers E W f servers tr"
proof (cases f)
  case (Request i m p)
  have "offered tr declared (hide_launch s) = offered tr declared s" for declared s
    by (simp add: offered_def hidden_same)
  then have "additions W tr declared (map hide_launch servers) = additions W tr declared servers" for declared
    by (simp add: additions_def List.map_filter_def filter_map o_def hidden_same)
  then show ?thesis by (simp add: Request merge_Request del: merge_mcp_servers.simps)
qed simp_all

end
