(* ===== verification/Ext.thy ===== *)
theory Ext
  imports Mcp
begin

text \<open>
  The payloads of \<open>crates/mjx-acp-core/src/ext.rs\<close>, each with the JSON its derived
  \<open>Serialize\<close> writes (camel case, absent optional members skipped where the source says
  so), and what the sidebar is told of an MCP server. Numbers are given as their text.
\<close>

section \<open>Payloads\<close>

record mcp_server_info =
  si_name :: string
  si_transport :: string
  si_target :: string
  si_secrets :: "string list"
  si_unavailable :: "string option"

record agent_info =
  ai_agent_id :: string
  ai_name :: string
  ai_command :: "string list"
  ai_cwd :: string
  ai_connection_id :: string
  ai_resumed :: bool
  ai_mcp_servers :: "mcp_server_info list"

record inspector_frame =
  if_direction :: string
  if_line :: string
  if_method :: "string option"
  if_intercepted :: bool

record session_turn_ended =
  te_session_id :: string
  te_stop_reason :: string

record terminal_created =
  tcr_terminal_id :: string
  tcr_command :: string
  tcr_args :: "string list"
  tcr_cwd :: string

record terminal_output =
  tou_terminal_id :: string
  tou_chunk :: string
  tou_truncated :: bool

record terminal_exit =
  tex_terminal_id :: string
  tex_exit_code :: "32 word option"
  tex_signal :: "string option"

record fs_wrote =
  fw_path :: string
  fw_old_text :: "string option"
  fw_new_text :: string

section \<open>Serialization\<close>

definition strings :: "string list \<Rightarrow> json" where
  "strings xs = JArray (map JString xs)"

text \<open>\<open>skip_serializing_if = "Option::is_none"\<close>, and an option written as null.\<close>

definition skip_none :: "string \<Rightarrow> ('a \<Rightarrow> json) \<Rightarrow> 'a option \<Rightarrow> (string \<times> json) list" where
  "skip_none k f x = (case x of None \<Rightarrow> [] | Some v \<Rightarrow> [(k, f v)])"

definition or_null :: "('a \<Rightarrow> json) \<Rightarrow> 'a option \<Rightarrow> json" where
  "or_null f x = (case x of None \<Rightarrow> JNull | Some v \<Rightarrow> f v)"

definition dec_i32 :: "32 word \<Rightarrow> string" where
  "dec_i32 n = (if sint n < 0 then ''-'' @ dec (nat (- sint n)) else dec (nat (sint n)))"

definition mcp_server_info_json :: "mcp_server_info \<Rightarrow> json" where
  "mcp_server_info_json s = JObject
     [(''name'', JString (si_name s)), (''transport'', JString (si_transport s)),
      (''target'', JString (si_target s)), (''secrets'', strings (si_secrets s)),
      (''unavailable'', or_null JString (si_unavailable s))]"

definition agent_info_json :: "agent_info \<Rightarrow> json" where
  "agent_info_json a = JObject
     [(''agentId'', JString (ai_agent_id a)), (''name'', JString (ai_name a)),
      (''command'', strings (ai_command a)), (''cwd'', JString (ai_cwd a)),
      (''connectionId'', JString (ai_connection_id a)), (''resumed'', JBool (ai_resumed a)),
      (''mcpServers'', JArray (map mcp_server_info_json (ai_mcp_servers a)))]"

definition agent_stderr_json :: "string \<Rightarrow> json" where
  "agent_stderr_json line = JObject [(''line'', JString line)]"

definition inspector_frame_json :: "inspector_frame \<Rightarrow> json" where
  "inspector_frame_json f = JObject
     ([(''direction'', JString (if_direction f)), (''line'', JString (if_line f))] @
      skip_none ''method'' JString (if_method f) @ [(''intercepted'', JBool (if_intercepted f))])"

definition session_turn_ended_json :: "session_turn_ended \<Rightarrow> json" where
  "session_turn_ended_json t = JObject
     [(''sessionId'', JString (te_session_id t)), (''stopReason'', JString (te_stop_reason t))]"

definition terminal_created_json :: "terminal_created \<Rightarrow> json" where
  "terminal_created_json t = JObject
     [(''terminalId'', JString (tcr_terminal_id t)), (''command'', JString (tcr_command t)),
      (''args'', strings (tcr_args t)), (''cwd'', JString (tcr_cwd t))]"

definition terminal_output_json :: "terminal_output \<Rightarrow> json" where
  "terminal_output_json t = JObject
     [(''terminalId'', JString (tou_terminal_id t)), (''chunk'', JString (tou_chunk t)),
      (''truncated'', JBool (tou_truncated t))]"

definition terminal_exit_json :: "terminal_exit \<Rightarrow> json" where
  "terminal_exit_json t = JObject
     ([(''terminalId'', JString (tex_terminal_id t))] @
      skip_none ''exitCode'' (\<lambda>n. JNumber (dec_i32 n)) (tex_exit_code t) @
      skip_none ''signal'' JString (tex_signal t))"

definition fs_wrote_json :: "fs_wrote \<Rightarrow> json" where
  "fs_wrote_json w = JObject
     ([(''path'', JString (fw_path w))] @ skip_none ''oldText'' JString (fw_old_text w) @
      [(''newText'', JString (fw_new_text w))])"

section \<open>What the sidebar is told\<close>

text \<open>The closure of \<open>Relay::announce\<close>.\<close>

definition server_info :: "transports \<Rightarrow> mcp_server_config \<Rightarrow> mcp_server_info" where
  "server_info tr s =
     \<lparr>si_name = ms_name s, si_transport = transport_of (ms_kind s), si_target = target_of (ms_kind s),
      si_secrets = secret_names_of (ms_kind s), si_unavailable = skip_reason s tr\<rparr>"

text \<open>A server whose credentials, the values of its variables and headers, are replaced.\<close>

definition redact_values :: "(string \<Rightarrow> string) \<Rightarrow> (string \<times> string) list \<Rightarrow> (string \<times> string) list" where
  "redact_values r = map (\<lambda>(name, v). (name, r v))"

fun redact_kind :: "(string \<Rightarrow> string) \<Rightarrow> mcp_kind \<Rightarrow> mcp_kind" where
  "redact_kind r (McpStdio l) = McpStdio (l\<lparr>la_env := redact_values r (la_env l)\<rparr>)"
| "redact_kind r (McpAcp l) = McpAcp (l\<lparr>la_env := redact_values r (la_env l)\<rparr>)"
| "redact_kind r (McpHttp e) = McpHttp (e\<lparr>ep_headers := redact_values r (ep_headers e)\<rparr>)"
| "redact_kind r (McpSse e) = McpSse (e\<lparr>ep_headers := redact_values r (ep_headers e)\<rparr>)"

definition redact :: "(string \<Rightarrow> string) \<Rightarrow> mcp_server_config \<Rightarrow> mcp_server_config" where
  "redact r s = s\<lparr>ms_kind := redact_kind r (ms_kind s)\<rparr>"

lemma redact_values_names [simp]: "map fst (redact_values r kvs) = map fst kvs"
  by (simp add: redact_values_def case_prod_beta)

lemma redact_kind_same [simp]:
  "transport_of (redact_kind r k) = transport_of k" "target_of (redact_kind r k) = target_of k"
  "secret_names_of (redact_kind r k) = secret_names_of k" "supported tr (redact_kind r k) = supported tr k"
  by (cases k; simp add: launch_line_def)+

lemma server_info_redact: "server_info tr (redact r s) = server_info tr s"
  by (simp add: server_info_def redact_def skip_reason_def split: option.split)

text \<open>
  What a browser is told of the configured MCP servers does not depend on any
  credential: replacing the value of every environment variable and header by anything
  else gives the same announcement, byte for byte.
\<close>

theorem credentials_never_announced:
  "ser_value E (agent_info_json (a\<lparr>ai_mcp_servers := map (server_info tr) (map (redact r) servers)\<rparr>)) =
   ser_value E (agent_info_json (a\<lparr>ai_mcp_servers := map (server_info tr) servers\<rparr>))"
  by (simp add: o_def server_info_redact)

end
