(* ===== verification/Sink.thy ===== *)
theory Sink
  imports Prelude
begin

text \<open>
  \<open>BrowserSink\<close> of \<open>crates/mjx-acp-server/src/relay.rs\<close>: the browser end of a connection,
  which outlives the sockets attached to it. Each attachment opens a channel, its
  receiving end drained by that socket's writer; a channel is the lines sent down it and
  whether its receiver is still there. Channels are numbered in the order they are opened.
\<close>

section \<open>The sink\<close>

record channel =
  ch_lines :: "string list"
  ch_closed :: bool

record sink =
  generation :: "64 word"
  sender :: "nat option"
  channels :: "channel list"

definition new_sink :: sink where
  "new_sink = \<lparr>generation = 0, sender = None, channels = []\<rparr>"

definition sink_attach :: "sink \<Rightarrow> 64 word \<times> nat \<times> sink" where
  "sink_attach s =
     (let n = length (channels s); g = generation s + 1
      in (g, n, s\<lparr>generation := g, sender := Some n,
                  channels := channels s @ [\<lparr>ch_lines = [], ch_closed = False\<rparr>]\<rparr>))"

definition sink_detach :: "64 word \<Rightarrow> sink \<Rightarrow> sink" where
  "sink_detach g s = (if generation s = g then s\<lparr>sender := None\<rparr> else s)"

definition is_current :: "64 word \<Rightarrow> sink \<Rightarrow> bool" where
  "is_current g s \<longleftrightarrow> generation s = g"

definition is_attached :: "sink \<Rightarrow> bool" where
  "is_attached s = (case sender s of None \<Rightarrow> False | Some n \<Rightarrow> \<not> ch_closed (channels s ! n))"

definition sink_send :: "string \<Rightarrow> sink \<Rightarrow> sink" where
  "sink_send line s =
     (case sender s of
        None \<Rightarrow> s
      | Some n \<Rightarrow>
          if ch_closed (channels s ! n) then s\<lparr>sender := None\<rparr>
          else s\<lparr>channels := (channels s)
                  [n := (channels s ! n)\<lparr>ch_lines := ch_lines (channels s ! n) @ [line]\<rparr>]\<rparr>)"

text \<open>A socket's writer ends and drops the receiver: the world's step, not the sink's.\<close>

definition close_channel :: "nat \<Rightarrow> sink \<Rightarrow> sink" where
  "close_channel n s = s\<lparr>channels := (channels s)[n := (channels s ! n)\<lparr>ch_closed := True\<rparr>]\<rparr>"

section \<open>Runs of the sink\<close>

datatype sink_op = Attach | Detach "64 word" | Send string | WriterEnds nat

fun sink_step :: "sink \<Rightarrow> sink_op \<Rightarrow> sink" where
  "sink_step s Attach = snd (snd (sink_attach s))"
| "sink_step s (Detach g) = sink_detach g s"
| "sink_step s (Send l) = sink_send l s"
| "sink_step s (WriterEnds n) = (if n < length (channels s) then close_channel n s else s)"

definition sink_run :: "sink \<Rightarrow> sink_op list \<Rightarrow> sink" where
  "sink_run s ops = foldl sink_step s ops"

text \<open>
  The sender is always the newest channel, and the generation counts the channels (at
  64 bits).
\<close>

definition sink_ok :: "sink \<Rightarrow> bool" where
  "sink_ok s \<longleftrightarrow> generation s = of_nat (length (channels s)) \<and>
     (\<forall>n. sender s = Some n \<longrightarrow> Suc n = length (channels s))"

lemma sink_ok_step: "sink_ok s \<Longrightarrow> sink_ok (sink_step s op)"
  by (cases op)
     (auto simp: sink_ok_def sink_attach_def sink_detach_def sink_send_def close_channel_def Let_def
       split: option.split)

interpretation sink_machine: machine sink_step sink_ok
  by unfold_locales (rule sink_ok_step)

lemma sink_run_ok: "sink_ok (sink_run new_sink ops)"
  unfolding sink_run_def by (rule sink_machine.run_inv) (simp add: sink_ok_def new_sink_def)

definition lines_of :: "sink \<Rightarrow> nat \<Rightarrow> string list" where
  "lines_of s n = (if n < length (channels s) then ch_lines (channels s ! n) else [])"

text \<open>
  The specification: the sockets that have attached, newest first, and whether one of
  them is listening. A line goes to the newest socket, if it has neither detached nor
  gone away, and to nobody else.
\<close>

fun heard :: "nat \<Rightarrow> sink_op list \<Rightarrow> nat \<times> bool \<Rightarrow> string list" where
  "heard n [] w = []"
| "heard n (Attach # ops) (k, on) = heard n ops (Suc k, True)"
| "heard n (Detach g # ops) (k, on) = heard n ops (k, on \<and> g \<noteq> of_nat k)"
| "heard n (Send l # ops) (k, on) = (if on \<and> Suc n = k then [l] else []) @ heard n ops (k, on)"
| "heard n (WriterEnds m # ops) (k, on) = heard n ops (k, on \<and> Suc m \<noteq> k)"

definition listening :: "sink \<Rightarrow> bool" where
  "listening s \<longleftrightarrow> (\<exists>n. sender s = Some n \<and> \<not> ch_closed (channels s ! n))"

lemma listening_attached: "listening s = is_attached s"
  by (auto simp: listening_def is_attached_def split: option.splits)

lemma listening_simps:
  "sender s = None \<Longrightarrow> \<not> listening s"
  "sender s = Some m \<Longrightarrow> listening s \<longleftrightarrow> \<not> ch_closed (channels s ! m)"
  by (simp_all add: listening_def)

lemma heard_step:
  assumes "sink_ok s"
  shows "lines_of (sink_step s op) n @ heard n ops
      (length (channels (sink_step s op)), listening (sink_step s op)) =
    lines_of s n @ heard n (op # ops) (length (channels s), listening s)"
proof (cases "sender s")
  case None
  with assms show ?thesis
    by (cases op)
       (auto simp: sink_ok_def sink_attach_def sink_detach_def sink_send_def close_channel_def Let_def
         lines_of_def listening_simps nth_append nth_list_update)
next
  case (Some m)
  with assms have m: "length (channels s) = Suc m" by (simp add: sink_ok_def)
  with Some assms show ?thesis
    by (cases op)
       (auto simp: sink_ok_def sink_attach_def sink_detach_def sink_send_def close_channel_def Let_def
         lines_of_def listening_simps nth_append nth_list_update simp del: of_nat_Suc)
qed

lemma lines_of_run:
  assumes "sink_ok s"
  shows "lines_of (sink_run s ops) n = lines_of s n @ heard n ops (length (channels s), listening s)"
  using assms
proof (induction ops arbitrary: s)
  case Nil
  show ?case by (simp add: sink_run_def)
next
  case (Cons op ops)
  have ok: "sink_ok (sink_step s op)" by (rule sink_ok_step [OF Cons.prems])
  have run: "sink_run s (op # ops) = sink_run (sink_step s op) ops"
    by (simp add: sink_run_def)
  show ?case unfolding run by (simp only: Cons.IH [OF ok] heard_step [OF Cons.prems])
qed

text \<open>
  Over any sequence of attachments, departures and lines, a socket receives exactly
  the lines sent while it was the newest socket and still there, in order; a line sent
  while nobody is attached is received by nobody, later sockets included.
\<close>

theorem each_line_reaches_the_current_socket:
  "lines_of (sink_run new_sink ops) n = heard n ops (0, False)"
proof -
  have "sink_ok new_sink" by (simp add: sink_ok_def new_sink_def)
  from lines_of_run [OF this, of ops n] show ?thesis
    by (simp add: lines_of_def listening_def new_sink_def)
qed

fun attaches :: "sink_op list \<Rightarrow> nat" where
  "attaches [] = 0"
| "attaches (Attach # ops) = Suc (attaches ops)"
| "attaches (_ # ops) = attaches ops"

lemma generation_run: "generation (sink_run s ops) = generation s + of_nat (attaches ops)"
proof (induction ops arbitrary: s)
  case Nil
  show ?case by (simp add: sink_run_def)
next
  case (Cons op ops)
  have "sink_run s (op # ops) = sink_run (sink_step s op) ops"
    by (simp add: sink_run_def)
  with Cons.IH [of "sink_step s op"] show ?case
    by (cases op)
       (auto simp: sink_attach_def sink_detach_def sink_send_def close_channel_def Let_def
         algebra_simps split: option.split)
qed

text \<open>
  A socket that has been replaced cannot disconnect its successor: its detach
  changes nothing, as long as fewer than \<open>2 ^ 64\<close> sockets have attached since.
\<close>

theorem stale_detach_does_nothing:
  assumes "sink_attach s = (g, n, s1)" and "0 < attaches ops" and "attaches ops < 2 ^ 64"
  shows "sink_detach g (sink_run s1 ops) = sink_run s1 ops \<and> \<not> is_current g (sink_run s1 ops)"
proof -
  have "generation s1 = g" using assms(1) by (auto simp: sink_attach_def Let_def)
  then have "generation (sink_run s1 ops) = g + of_nat (attaches ops)"
    by (simp add: generation_run)
  moreover have "(of_nat (attaches ops) :: 64 word) \<noteq> 0"
    using assms(2,3) by (simp add: word_of_nat_eq_0_iff nat_dvd_not_less)
  ultimately show ?thesis by (simp add: sink_detach_def is_current_def)
qed

theorem stale_detach_does_nothing_witness:
  "let s1 = snd (snd (sink_attach new_sink)) in
     sink_detach 1 (sink_run s1 [Attach, Send ''x'']) = sink_run s1 [Attach, Send ''x'']"
proof -
  have a: "sink_attach new_sink = (1, 0, snd (snd (sink_attach new_sink)))"
    by (simp add: sink_attach_def new_sink_def Let_def)
  have "attaches [Attach, Send ''x''] = 1" by simp
  with stale_detach_does_nothing [OF a, of "[Attach, Send ''x'']"] show ?thesis
    by (simp add: Let_def)
qed

end
