(* ===== verification/Agent_Process.thy ===== *)
theory Agent_Process
  imports Config
begin

text \<open>
  \<open>crates/mjx-acp-server/src/agent_process.rs\<close>: the process of an agent, from its command
  to its end. What the operating system makes of a launch and how long a process takes to
  exit are arguments; the pipes are those of theory \<open>Relay\<close>, which has their lines.
\<close>

section \<open>Commands\<close>

text \<open>\<open>AgentCommand\<close> of the catalog; \<open>env\<close> has its names once each.\<close>

record agent_command =
  ac_program :: string
  ac_args :: "string list"
  ac_env :: "(string \<times> string) list"

definition display_command :: "agent_command \<Rightarrow> string list" where
  "display_command c = ac_program c # ac_args c"

section \<open>Starting\<close>

text \<open>
  The environment of the server, and a launch: of a program with its arguments, in a
  directory, under an environment, to a process id or an error.
\<close>

record process_os =
  inherited_env :: "(string, string) hmap"
  launch :: "string \<Rightarrow> string list \<Rightarrow> path \<Rightarrow> (string, string) hmap \<Rightarrow> string + 32 word"

datatype ending = Exited int | Killed

record agent_process =
  ap_pid :: "32 word"
  ap_ended :: "ending option"

definition child_env :: "process_os \<Rightarrow> agent_command \<Rightarrow> (string, string) hmap" where
  "child_env os c = foldl (\<lambda>e (n, v). hm_insert n v e) (inherited_env os) (ac_env c)"

text \<open>The error with its context, and both as \<open>{err:#}\<close> prints them.\<close>

definition spawn_agent :: "process_os \<Rightarrow> agent_command \<Rightarrow> path \<Rightarrow> (string \<times> string) + agent_process" where
  "spawn_agent os c cwd =
     (case launch os (ac_program c) (ac_args c) cwd (child_env os c) of
        Inl e \<Rightarrow> Inl (''could not start `'' @ join_strings '' '' (display_command c) @ ''` in '' @ cwd, e)
      | Inr pid \<Rightarrow> Inr \<lparr>ap_pid = pid, ap_ended = None\<rparr>)"

definition error_chain :: "string \<times> string \<Rightarrow> string" where
  "error_chain e = fst e @ '': '' @ snd e"

section \<open>Ending\<close>

text \<open>What waiting for the process comes to within the grace period.\<close>

datatype waited = WaitedStatus int | WaitFailed string | GraceElapsed

definition ended_by :: "ending \<Rightarrow> agent_process \<Rightarrow> agent_process" where
  "ended_by e p = (if ap_ended p = None then p\<lparr>ap_ended := Some e\<rparr> else p)"

text \<open>A handle that is dropped kills a process that has not been seen to exit: \<open>kill_on_drop\<close>.\<close>

definition drop_handle :: "agent_process \<Rightarrow> agent_process" where
  "drop_handle p = ended_by Killed p"

fun handle_shutdown :: "waited \<Rightarrow> agent_process \<Rightarrow> agent_process" where
  "handle_shutdown (WaitedStatus s) p = drop_handle (ended_by (Exited s) p)"
| "handle_shutdown (WaitFailed e) p = drop_handle p"
| "handle_shutdown GraceElapsed p = drop_handle (ended_by Killed p)"

definition handle_pid :: "agent_process \<Rightarrow> 32 word option" where
  "handle_pid p = (if ap_ended p = None then Some (ap_pid p) else None)"

section \<open>What a process is given, and that it ends\<close>

lemma hm_get_inserts:
  fixes xs :: "('k \<times> 'v) list"
  shows "distinct (map fst xs) \<Longrightarrow>
    hm_get (foldl (\<lambda>e (n, v). hm_insert n v e) e0 xs) n =
      (case map_of xs n of None \<Rightarrow> hm_get e0 n | Some v \<Rightarrow> Some v)"
proof (induction xs arbitrary: e0)
  case (Cons x xs)
  obtain k v where x: "x = (k, v)" by (cases x)
  have "map_of xs k = None" "distinct (map fst xs)"
    using Cons.prems by (simp_all add: x map_of_eq_None_iff)
  then show ?case using Cons.IH [of "hm_insert k v e0"] by (auto simp: x split: option.split)
qed simp

lemma child_env_get:
  "distinct (map fst (ac_env c)) \<Longrightarrow>
     hm_get (child_env os c) n = (case map_of (ac_env c) n of None \<Rightarrow> hm_get (inherited_env os) n | Some v \<Rightarrow> Some v)"
  unfolding child_env_def by (rule hm_get_inserts)

text \<open>However a shutdown goes, the process has ended, and only one that overstayed or could not be waited for was killed.\<close>

lemma shut_down_has_ended:
  "ap_ended p = None \<Longrightarrow>
     ap_ended (handle_shutdown w p) = Some (case w of WaitedStatus s \<Rightarrow> Exited s | _ \<Rightarrow> Killed)"
  by (cases w) (simp_all add: drop_handle_def ended_by_def)

lemma shut_down_has_no_pid: "handle_pid (handle_shutdown w p) = None"
  by (cases w) (auto simp: handle_pid_def drop_handle_def ended_by_def)

end
