(* ===== verification/Relay.thy ===== *)
theory Relay
  imports Correlator Id_Bridge Session_Laws Ext Sink Agent_Process
begin

text \<open>
  \<open>crates/mjx-acp-server/src/relay.rs\<close>: one agent and the browser sockets that come and
  go. This theory holds the data and the operations, a line at a time: \<open>handle\<close> is the
  whole of \<open>Relay::handle\<close>, with every component it passes the frame through. In the
  source each component is behind a lock of its own and two tasks call \<open>handle\<close>, one per
  direction; here a call runs to its end before the next begins (theories \<open>Relay_Tasks\<close> and
  \<open>Live\<close> take the calls apart and interleave them). The interceptor is a
  type parameter of the source and a pair of functions of the record \<open>relay_env\<close> here:
  what it decides, what it writes to the outbox meanwhile, and its own next state.
\<close>

section \<open>Parameters\<close>

datatype disposition = Forward | Rewrite frame | Intercept

type_synonym 'i intercept = "'i \<Rightarrow> frame \<Rightarrow> disposition \<times> (direction \<times> frame) list \<times> 'i"

record 'i relay_env = acp +
  wire_json :: "mcp_wire \<Rightarrow> json option"
  de_replay :: "raw \<Rightarrow> json_error + string"
  on_client_frame :: "'i intercept"
  on_agent_frame :: "'i intercept"

section \<open>The handshake\<close>

record hands =
  hs_initialize :: "raw option"
  hs_new_session :: "raw option"
  hs_transports :: "transports option"
  hs_replay_new_session :: bool

definition new_handshake :: hands where
  "new_handshake = \<lparr>hs_initialize = None, hs_new_session = None, hs_transports = None,
     hs_replay_new_session = False\<rparr>"

definition handshake_reattach :: "hands \<Rightarrow> hands" where
  "handshake_reattach h = h\<lparr>hs_replay_new_session := (hs_new_session h \<noteq> None)\<rparr>"

definition get_or_insert :: "'a \<Rightarrow> 'a option \<Rightarrow> 'a option" where
  "get_or_insert v slot = (case slot of None \<Rightarrow> Some v | Some w \<Rightarrow> Some w)"

definition record_answer :: "string \<Rightarrow> raw \<Rightarrow> hands \<Rightarrow> hands" where
  "record_answer m r h =
     (if m = INITIALIZE then h\<lparr>hs_initialize := get_or_insert r (hs_initialize h)\<rparr>
      else if m = SESSION_NEW then h\<lparr>hs_new_session := get_or_insert r (hs_new_session h)\<rparr>
      else h)"

definition handshake_transports :: "('a) serde_scheme \<Rightarrow> hands \<Rightarrow> transports \<times> hands" where
  "handshake_transports E h =
     (case hs_transports h of
        Some tr \<Rightarrow> (tr, h)
      | None \<Rightarrow>
          (case hs_initialize h of
             None \<Rightarrow> (no_transports, h)
           | Some r \<Rightarrow>
               let tr = from_initialize_result E r in (tr, h\<lparr>hs_transports := Some tr\<rparr>)))"

definition recorded :: "string \<Rightarrow> hands \<Rightarrow> raw option \<times> hands" where
  "recorded m h =
     (if m = INITIALIZE then (hs_initialize h, h)
      else if m = SESSION_NEW \<and> hs_replay_new_session h
      then (hs_new_session h, h\<lparr>hs_replay_new_session := False\<rparr>)
      else (None, h))"

section \<open>The relay\<close>

record 'i relay =
  interceptor :: 'i
  correlator_of :: correlator
  ids :: id_bridge
  to_browser_sink :: sink
  to_agent_lines :: "string list"
  agent_info_of :: agent_info
  mcp_servers_of :: "mcp_server_config list"
  handshake :: hands
  unanswered :: "frame list"
  sessions :: session_store

text \<open>\<open>start\<close>: a relay with nobody attached.\<close>

definition new_relay :: "'i \<Rightarrow> agent_info \<Rightarrow> mcp_server_config list \<Rightarrow> 'i relay" where
  "new_relay i info servers =
     \<lparr>interceptor = i, correlator_of = new_correlator, ids = new_bridge, to_browser_sink = new_sink,
      to_agent_lines = [], agent_info_of = info, mcp_servers_of = servers,
      handshake = new_handshake, unanswered = [], sessions = new_store\<rparr>"

section \<open>The outbox\<close>

definition send_line :: "direction \<Rightarrow> string \<Rightarrow> ('i, 'z) relay_scheme \<Rightarrow> ('i, 'z) relay_scheme" where
  "send_line d line r =
     (case d of
        ClientToAgent \<Rightarrow> r\<lparr>to_agent_lines := to_agent_lines r @ [line]\<rparr>
      | AgentToClient \<Rightarrow> r\<lparr>to_browser_sink := sink_send line (to_browser_sink r)\<rparr>)"

definition to_browser ::
  "('a) serde_scheme \<Rightarrow> frame \<Rightarrow> ('i, 'z) relay_scheme \<Rightarrow> ('i, 'z) relay_scheme" where
  "to_browser E f r = send_line AgentToClient (to_line E f) r"

definition notify_browser ::
  "('a) serde_scheme \<Rightarrow> string \<Rightarrow> json \<Rightarrow> ('i, 'z) relay_scheme \<Rightarrow> ('i, 'z) relay_scheme" where
  "notify_browser E m v r =
     (case notification m (ser_value E v) of Inr f \<Rightarrow> to_browser E f r | Inl _ \<Rightarrow> r)"

definition write_out ::
  "('a) serde_scheme \<Rightarrow> (direction \<times> frame) list \<Rightarrow> ('i, 'z) relay_scheme \<Rightarrow> ('i, 'z) relay_scheme" where
  "write_out E out r = foldl (\<lambda>r (d, f). send_line d (to_line E f) r) r out"

section \<open>Helpers that read a frame\<close>

definition stop_reason_of :: "('a) serde_scheme \<Rightarrow> response_payload \<Rightarrow> string" where
  "stop_reason_of E p =
     (case p of
        Error _ \<Rightarrow> ''cancelled''
      | Result r \<Rightarrow>
          (case de_value E r of
             Inl _ \<Rightarrow> ''cancelled''
           | Inr v \<Rightarrow>
               (case Option.bind (json_get v ''stopReason'') as_str of
                  None \<Rightarrow> ''cancelled'' | Some s \<Rightarrow> s)))"

definition session_of :: "('a) serde_scheme \<Rightarrow> frame \<Rightarrow> string option" where
  "session_of E f =
     (case frame_params f of
        None \<Rightarrow> None
      | Some p \<Rightarrow>
          (case de_value E p of
             Inl _ \<Rightarrow> None
           | Inr v \<Rightarrow> Option.bind (json_get v ''sessionId'') as_str))"

fun direction_name :: "direction \<Rightarrow> string" where
  "direction_name ClientToAgent = ''clientToAgent''"
| "direction_name AgentToClient = ''agentToClient''"

fun is_request :: "frame \<Rightarrow> bool" where
  "is_request (Request i m p) = True"
| "is_request _ = False"

fun is_response :: "frame \<Rightarrow> bool" where
  "is_response (Response i p) = True"
| "is_response _ = False"

section \<open>Announcing the agent\<close>

definition announce ::
  "('a) serde_scheme \<Rightarrow> string \<Rightarrow> bool \<Rightarrow> ('i, 'z) relay_scheme \<Rightarrow> ('i, 'z) relay_scheme" where
  "announce E m resumed r =
     (if m \<noteq> INITIALIZE then r
      else
        let (tr, h) = handshake_transports E (handshake r);
            info = (agent_info_of r)\<lparr>ai_resumed := resumed,
                     ai_mcp_servers := map (server_info tr) (mcp_servers_of r)\<rparr>
        in notify_browser E AGENT_INFO (agent_info_json info) (r\<lparr>handshake := h\<rparr>))"

definition announce_after_handshake ::
  "('a) serde_scheme \<Rightarrow> direction \<Rightarrow> frame \<Rightarrow> string option \<Rightarrow> ('i, 'z) relay_scheme \<Rightarrow> ('i, 'z) relay_scheme" where
  "announce_after_handshake E d f label r =
     (if d \<noteq> AgentToClient \<or> \<not> is_response f then r
      else case label of None \<Rightarrow> r | Some m \<Rightarrow> announce E m False r)"

section \<open>Extensions\<close>

definition reask_unanswered ::
  "('a) serde_scheme \<Rightarrow> ('i, 'z) relay_scheme \<Rightarrow> ('i, 'z) relay_scheme" where
  "reask_unanswered E r = foldl (\<lambda>r f. to_browser E f r) r (unanswered r)"

definition replay_reply ::
  "('i, 'a) relay_env_scheme \<Rightarrow> frame \<Rightarrow> request_id \<Rightarrow> session_store \<Rightarrow> frame" where
  "replay_reply E f i s =
     (case params_as (de_replay E) f of
        Inr (Some sid) \<Rightarrow>
          (case frame_result i (case thread_of s sid of
                                  Some t \<Rightarrow> ser_thread E t
                                | None \<Rightarrow> ser_value E JNull) of
             Inr answer \<Rightarrow> answer
           | Inl e \<Rightarrow> frame_error i (internal_error e))
      | Inr None \<Rightarrow> frame_error i (invalid_params ''missing params'')
      | Inl e \<Rightarrow> frame_error i (invalid_params e))"

definition handle_extension ::
  "('i, 'a) relay_env_scheme \<Rightarrow> frame \<Rightarrow> 'i relay \<Rightarrow> 'i relay" where
  "handle_extension E f r =
     (case f of
        Request i m p \<Rightarrow>
          let answer = (if m = SESSION_REPLAY then replay_reply E f i (sessions r)
                        else frame_error i (method_not_found m));
              r1 = to_browser E answer r
          in if m = SESSION_REPLAY then reask_unanswered E r1 else r1
      | _ \<Rightarrow> r)"

section \<open>Answering a repeat handshake\<close>

definition answer_from_recording ::
  "('i, 'a) relay_env_scheme \<Rightarrow> frame \<Rightarrow> 'i relay \<Rightarrow> bool \<times> 'i relay" where
  "answer_from_recording E f r =
     (case f of
        Request i m p \<Rightarrow>
          let (answer, h) = recorded m (handshake r);
              r1 = r\<lparr>handshake := h\<rparr>
          in (case answer of
                None \<Rightarrow> (False, r1)
              | Some result \<Rightarrow>
                  (True, announce E m True (to_browser E (Response i (Result result)) r1)))
      | _ \<Rightarrow> (False, r))"

section \<open>Forwarding\<close>

definition forward ::
  "('a) serde_scheme \<Rightarrow> direction \<Rightarrow> frame \<Rightarrow> string option \<Rightarrow> ('i, 'z) relay_scheme \<Rightarrow> ('i, 'z) relay_scheme" where
  "forward E d f ends_turn r =
     (case (d, f) of
        (AgentToClient, Response i payload) \<Rightarrow>
          let (browser, b) = for_browser i (ids r);
              r1 = r\<lparr>ids := b\<rparr>
          in (case browser of
                Some j \<Rightarrow> send_line d (to_line E (Response j payload)) r1
              | None \<Rightarrow>
                  (case ends_turn of
                     None \<Rightarrow> r1
                   | Some sid \<Rightarrow> notify_browser E SESSION_TURN_ENDED (session_turn_ended_json
                       \<lparr>te_session_id = sid, te_stop_reason = stop_reason_of E payload\<rparr>) r1))
      | _ \<Rightarrow> send_line d (to_line E f) r)"

definition forget_questions ::
  "('a) serde_scheme \<Rightarrow> string \<Rightarrow> ('i, 'z) relay_scheme \<Rightarrow> ('i, 'z) relay_scheme" where
  "forget_questions E sid r =
     r\<lparr>unanswered := filter (\<lambda>asked. session_of E asked \<noteq> Some sid) (unanswered r),
       sessions := snd (cancel_session_elicitations sid (sessions r))\<rparr>"

section \<open>handle\<close>

text \<open>A browser's request is put into the agent's id space.\<close>

definition rebind :: "direction \<Rightarrow> frame \<Rightarrow> ('i, 'z) relay_scheme \<Rightarrow> frame \<times> ('i, 'z) relay_scheme" where
  "rebind d f r =
     (case (d, f) of
        (ClientToAgent, Request i m p) \<Rightarrow>
          let (j, b) = for_agent i (ids r) in (Request j m p, r\<lparr>ids := b\<rparr>)
      | _ \<Rightarrow> (f, r))"

text \<open>The configured MCP servers are added before anything observes the frame.\<close>

definition add_servers ::
  "('i, 'a) relay_env_scheme \<Rightarrow> direction \<Rightarrow> frame \<Rightarrow> 'i relay \<Rightarrow> frame \<times> 'i relay" where
  "add_servers E d f r =
     (if d = ClientToAgent \<and> mcp_servers_of r \<noteq> []
      then let (tr, h) = handshake_transports E (handshake r)
           in (case merge_mcp_servers E (wire_json E) f (mcp_servers_of r) tr of
                 None \<Rightarrow> f | Some f' \<Rightarrow> f', r\<lparr>handshake := h\<rparr>)
      else (f, r))"

definition ended_turn :: "direction \<Rightarrow> frame \<Rightarrow> string option \<Rightarrow> session_store \<Rightarrow> string option" where
  "ended_turn d f label s =
     (if d = AgentToClient \<and> is_response f \<and> label = Some SESSION_PROMPT
      then Option.bind (frame_id f) (session_of_prompt s) else None)"

definition observe_session ::
  "('a) acp_scheme \<Rightarrow> direction \<Rightarrow> frame \<Rightarrow> session_store \<Rightarrow> session_store" where
  "observe_session E d f s =
     (case d of
        ClientToAgent \<Rightarrow> observe_from_client E f s
      | AgentToClient \<Rightarrow> observe_from_agent E f s)"

definition settle_unanswered :: "direction \<Rightarrow> frame \<Rightarrow> frame list \<Rightarrow> frame list" where
  "settle_unanswered d f asked =
     (case (d, f) of
        (ClientToAgent, Response i p) \<Rightarrow> filter (\<lambda>q. frame_id q \<noteq> Some i) asked
      | _ \<Rightarrow> asked)"

definition keep_answer :: "direction \<Rightarrow> frame \<Rightarrow> string option \<Rightarrow> hands \<Rightarrow> hands" where
  "keep_answer d f label h =
     (case (d, f, label) of
        (AgentToClient, Response i (Result r), Some m) \<Rightarrow> record_answer m r h
      | _ \<Rightarrow> h)"

text \<open>What \<open>handle\<close> does before it asks the interceptor, on the frame as it will be sent.\<close>

definition observe_frame ::
  "('i, 'a) relay_env_scheme \<Rightarrow> direction \<Rightarrow> frame \<Rightarrow> 'i relay \<Rightarrow>
   string option \<times> string option \<times> 'i relay" where
  "observe_frame E d f r =
     (let (answers, c) = observe d f (correlator_of r);
          label = (case frame_method f of Some m \<Rightarrow> Some m | None \<Rightarrow> answers);
          ends_turn = ended_turn d f label (sessions r);
          r1 = r\<lparr>correlator_of := c, sessions := observe_session E d f (sessions r)\<rparr>;
          r2 = (case ends_turn of None \<Rightarrow> r1 | Some sid \<Rightarrow> forget_questions E sid r1)
      in (label, ends_turn,
          r2\<lparr>unanswered := settle_unanswered d f (unanswered r2),
             handshake := keep_answer d f label (handshake r2)\<rparr>))"

definition ask_interceptor ::
  "('i, 'a) relay_env_scheme \<Rightarrow> direction \<Rightarrow> frame \<Rightarrow> 'i relay \<Rightarrow> disposition \<times> 'i relay" where
  "ask_interceptor E d f r =
     (let (disposition, out, i) =
        (case d of ClientToAgent \<Rightarrow> on_client_frame E | AgentToClient \<Rightarrow> on_agent_frame E)
          (interceptor r) f
      in (disposition, write_out E out (r\<lparr>interceptor := i\<rparr>)))"

definition dispose ::
  "('i, 'a) relay_env_scheme \<Rightarrow> direction \<Rightarrow> frame \<Rightarrow> string option \<Rightarrow> string option \<Rightarrow>
   disposition \<Rightarrow> 'i relay \<Rightarrow> 'i relay" where
  "dispose E d f label ends_turn disposition r =
     (case disposition of
        Forward \<Rightarrow>
          let r1 = (if d = AgentToClient \<and> is_request f then r\<lparr>unanswered := unanswered r @ [f]\<rparr> else r)
          in announce_after_handshake E d f label (forward E d f ends_turn r1)
      | Rewrite rewritten \<Rightarrow> forward E d rewritten None r
      | Intercept \<Rightarrow> notify_browser E INSPECTOR_FRAME (inspector_frame_json
          \<lparr>if_direction = direction_name d, if_line = to_line E f, if_method = label,
           if_intercepted = True\<rparr>) r)"

definition relay_frame ::
  "('i, 'a) relay_env_scheme \<Rightarrow> direction \<Rightarrow> frame \<Rightarrow> 'i relay \<Rightarrow> 'i relay" where
  "relay_frame E d f0 r0 =
     (let (f1, r1) = rebind d f0 r0;
          (f, r2) = add_servers E d f1 r1;
          (label, ends_turn, r3) = observe_frame E d f r2;
          (disposition, r4) = ask_interceptor E d f r3
      in dispose E d f label ends_turn disposition r4)"

definition extension_call :: "frame \<Rightarrow> bool" where
  "extension_call f \<longleftrightarrow> (case frame_method f of None \<Rightarrow> False | Some m \<Rightarrow> is_extension m)"

definition handle ::
  "('i, 'a) relay_env_scheme \<Rightarrow> direction \<Rightarrow> string \<Rightarrow> 'i relay \<Rightarrow> 'i relay" where
  "handle E d line r =
     (case parse E line of
        Inl _ \<Rightarrow> send_line d line r
      | Inr f \<Rightarrow>
          if d = ClientToAgent \<and> extension_call f then handle_extension E f r
          else
            let (answered, r1) =
              (if d = ClientToAgent then answer_from_recording E f r else (False, r))
            in if answered then r1 else relay_frame E d f r1)"

section \<open>Capabilities the server provides\<close>

definition merge_client_capabilities ::
  "('a) serde_scheme \<Rightarrow> frame \<Rightarrow> bool \<Rightarrow> bool \<Rightarrow> frame option" where
  "merge_client_capabilities E f fs terminal =
     (case f of
        Request i m p \<Rightarrow>
          if m \<noteq> INITIALIZE then None
          else case as_object (params_value E p) of
                 None \<Rightarrow> None
               | Some members \<Rightarrow>
                   let (members1, caps) = or_insert ''clientCapabilities'' (JObject []) members;
                       caps1 = (if \<not> fs then Some caps
                         else case as_object caps of
                                None \<Rightarrow> None
                              | Some cs \<Rightarrow>
                                  let (cs1, entry) = or_insert ''fs'' (JObject []) cs
                                  in Some (JObject (case as_object entry of
                                       None \<Rightarrow> cs1
                                     | Some fcs \<Rightarrow> obj_insert ''fs'' (JObject
                                         (obj_insert ''writeTextFile'' (JBool True)
                                           (obj_insert ''readTextFile'' (JBool True) fcs))) cs1)));
                       caps2 = (case caps1 of
                         None \<Rightarrow> None
                       | Some c \<Rightarrow>
                           if \<not> terminal then Some c
                           else case as_object c of
                                  None \<Rightarrow> None
                                | Some cs \<Rightarrow> Some (JObject (obj_insert ''terminal'' (JBool True) cs)))
                   in (case caps2 of
                         None \<Rightarrow> None
                       | Some c \<Rightarrow>
                           (case ser_value E (JObject (obj_insert ''clientCapabilities'' c members1)) of
                              Inl _ \<Rightarrow> None
                            | Inr raw \<Rightarrow> Some (Request i m (Some raw))))
      | _ \<Rightarrow> None)"

section \<open>Connections\<close>

text \<open>
  \<open>Connection\<close>: the relay, the tasks that talk to the process, the reader of the socket
  attached now with its attachment's number, the process while the connection has its
  handle, and the channel that says whether the agent is alive. The last is a \<open>watch\<close>
  without a receiver of its own: \<open>watchers\<close> are the receivers there are, one for each
  \<open>attach\<close> that has not returned, and \<open>send\<close> keeps the value as it is where there is none.
  \<open>attach_begin\<close> is \<open>attach\<close> up to the wait for the socket's reader or the agent to end,
  \<open>attach_end\<close> what follows it; the number and the channel of the attachment go from one
  to the other.
\<close>

datatype detached = BrowserLeft | TakenOver | AgentGone

datatype agent_task = AgentWriter | StderrRelay | AgentToBrowser

record 'i connection =
  relay_of :: "'i relay"
  agent_tasks :: "agent_task list"
  reader :: "64 word option"
  handle_of :: "agent_process option"
  agent_alive :: bool
  watchers :: nat

definition start :: "'i \<Rightarrow> agent_process \<Rightarrow> agent_info \<Rightarrow> mcp_server_config list \<Rightarrow> 'i connection" where
  "start i agent info servers =
     \<lparr>relay_of = new_relay i info servers, agent_tasks = [AgentWriter, StderrRelay, AgentToBrowser],
      reader = None, handle_of = Some agent, agent_alive = True, watchers = 0\<rparr>"

text \<open>\<open>agent_alive.send(false)\<close>, which the reader of the agent's output does at its end.\<close>

definition agent_gone :: "'i connection \<Rightarrow> 'i connection" where
  "agent_gone c = (if watchers c = 0 then c else c\<lparr>agent_alive := False\<rparr>)"

text \<open>
  The first two locks \<open>attach\<close> takes, then the rest of it up to the wait: other tasks
  run between the two.
\<close>

definition attach_reset :: "'i connection \<Rightarrow> 'i connection" where
  "attach_reset c =
     (let r = relay_of c
      in c\<lparr>relay_of := r\<lparr>ids := bridge_reattach (ids r), handshake := handshake_reattach (handshake r)\<rparr>\<rparr>)"

definition attach_swap ::
  "('i, 'a) relay_env_scheme \<Rightarrow> 'i connection \<Rightarrow> 64 word \<times> nat \<times> 'i connection" where
  "attach_swap E c =
     (let r1 = relay_of c;
          r2 = (if reader c \<noteq> None
                then notify_browser E CONNECTION_TAKEN_OVER (JObject []) r1 else r1);
          (g, n, sink) = sink_attach (to_browser_sink r2)
      in (g, n, c\<lparr>relay_of := r2\<lparr>to_browser_sink := sink\<rparr>, reader := Some g, watchers := watchers c + 1\<rparr>))"

definition attach_begin ::
  "('i, 'a) relay_env_scheme \<Rightarrow> 'i connection \<Rightarrow> 64 word \<times> nat \<times> 'i connection" where
  "attach_begin E c = attach_swap E (attach_reset c)"

text \<open>The wait ends because the reader did, or because the agent is no longer alive.\<close>

definition detached_by :: "bool \<Rightarrow> 64 word \<Rightarrow> 'i connection \<Rightarrow> detached" where
  "detached_by reader_ended g c =
     (if reader_ended
      then if is_current g (to_browser_sink (relay_of c)) then BrowserLeft else TakenOver
      else AgentGone)"

definition attach_end :: "64 word \<Rightarrow> nat \<Rightarrow> detached \<Rightarrow> 'i connection \<Rightarrow> 'i connection" where
  "attach_end g n why c =
     (let s1 = sink_detach g (to_browser_sink (relay_of c));
          s2 = (if why = TakenOver then s1 else close_channel n s1)
      in c\<lparr>relay_of := (relay_of c)\<lparr>to_browser_sink := s2\<rparr>,
           reader := (if reader c = Some g then None else reader c),
           watchers := watchers c - 1\<rparr>)"

definition connection_attached :: "'i connection \<Rightarrow> bool" where
  "connection_attached c = is_attached (to_browser_sink (relay_of c))"

definition is_finished :: "'i connection \<Rightarrow> bool" where
  "is_finished c \<longleftrightarrow> \<not> agent_alive c"

definition agent_pid :: "'i connection \<Rightarrow> 32 word option" where
  "agent_pid c = Option.bind (handle_of c) handle_pid"

text \<open>
  \<open>Connection::shutdown\<close>, with the handle it takes and ends by \<open>handle_shutdown\<close>; \<open>stop\<close> is
  the interceptor's.
\<close>

definition connection_shutdown :: "('i \<Rightarrow> 'i) \<Rightarrow> 'i connection \<Rightarrow> 'i connection \<times> agent_process option" where
  "connection_shutdown stop c =
     (let c1 = agent_gone c;
          r = (relay_of c1)\<lparr>interceptor := stop (interceptor (relay_of c1))\<rparr>
      in (c1\<lparr>relay_of := r, agent_tasks := [], handle_of := None\<rparr>, handle_of c1))"

end
