(* ===== verification/Relay_Props.thy ===== *)
theory Relay_Props
  imports Relay
begin

text \<open>
  What the relay promises: extension methods stay between browser and server, a frame
  that cannot be read is passed on as it is, the agent is asked its handshake once however
  many browsers come, an answer goes only to the browser that asked, a turn inherited
  from a departed browser is reported over, questions are re-asked until they are
  answered, and a socket that is replaced is told and can do no harm.
\<close>

section \<open>The outbox as record updates\<close>

declare to_line.simps [simp del]

text \<open>Every operation that writes is an update of the two ends, and leaves the rest alone.\<close>

definition notify_sink :: "('a) serde_scheme \<Rightarrow> string \<Rightarrow> json \<Rightarrow> sink \<Rightarrow> sink" where
  "notify_sink E m v s =
     (case notification m (ser_value E v) of Inr f \<Rightarrow> sink_send (to_line E f) s | Inl _ \<Rightarrow> s)"

definition send_all :: "string list \<Rightarrow> sink \<Rightarrow> sink" where
  "send_all ls s = foldl (\<lambda>s l. sink_send l s) s ls"

lemma send_all_simps [simp]:
  "send_all [] s = s" "send_all (l # ls) s = send_all ls (sink_send l s)"
  "send_all (xs @ ys) s = send_all ys (send_all xs s)"
  by (simp_all add: send_all_def)

definition lines_to :: "('a) serde_scheme \<Rightarrow> direction \<Rightarrow> (direction \<times> frame) list \<Rightarrow> string list" where
  "lines_to E d out = map (\<lambda>(_, f). to_line E f) (filter (\<lambda>(e, _). e = d) out)"

lemma send_line_simps:
  "send_line ClientToAgent l r = r\<lparr>to_agent_lines := to_agent_lines r @ [l]\<rparr>"
  "send_line AgentToClient l r = r\<lparr>to_browser_sink := sink_send l (to_browser_sink r)\<rparr>"
  by (simp_all add: send_line_def)

lemma to_browser_eq: "to_browser E f r = r\<lparr>to_browser_sink := sink_send (to_line E f) (to_browser_sink r)\<rparr>"
  by (simp add: to_browser_def send_line_simps)

lemma notify_browser_eq:
  "notify_browser E m v r = r\<lparr>to_browser_sink := notify_sink E m v (to_browser_sink r)\<rparr>"
  by (simp add: notify_browser_def notify_sink_def to_browser_eq split: sum.split)

lemma write_out_eq:
  "write_out E out r = r\<lparr>to_agent_lines := to_agent_lines r @ lines_to E ClientToAgent out,
     to_browser_sink := send_all (lines_to E AgentToClient out) (to_browser_sink r)\<rparr>"
proof (induction out arbitrary: r)
  case Nil
  show ?case by (simp add: write_out_def lines_to_def)
next
  case (Cons x out)
  obtain d f where x: "x = (d, f)" by (cases x)
  have "write_out E (x # out) r = write_out E out (send_line d (to_line E f) r)"
    by (simp add: write_out_def x)
  with Cons show ?case
    by (cases d) (simp_all add: x send_line_simps lines_to_def)
qed

lemma reask_eq:
  "reask_unanswered E r =
     r\<lparr>to_browser_sink := send_all (map (to_line E) (unanswered r)) (to_browser_sink r)\<rparr>"
proof -
  have "foldl (\<lambda>r f. to_browser E f r) r fs =
      r\<lparr>to_browser_sink := send_all (map (to_line E) fs) (to_browser_sink r)\<rparr>" for fs and r :: "('a, 'b) relay_scheme"
    by (induction fs arbitrary: r) (simp_all add: to_browser_eq)
  then show ?thesis by (simp add: reask_unanswered_def)
qed

lemmas outbox_eqs = send_line_simps to_browser_eq notify_browser_eq write_out_eq reask_eq

text \<open>Fields an operation does not touch.\<close>

lemma announce_fields [simp]:
  "interceptor (announce E m b r) = interceptor r" "correlator_of (announce E m b r) = correlator_of r"
  "ids (announce E m b r) = ids r" "to_agent_lines (announce E m b r) = to_agent_lines r"
  "unanswered (announce E m b r) = unanswered r" "sessions (announce E m b r) = sessions r"
  "mcp_servers_of (announce E m b r) = mcp_servers_of r"
  "hs_initialize (handshake (announce E m b r)) = hs_initialize (handshake r)"
  "hs_new_session (handshake (announce E m b r)) = hs_new_session (handshake r)"
  by (simp_all add: announce_def notify_browser_eq handshake_transports_def Let_def split: option.split)

lemma announce_after_fields [simp]:
  "ids (announce_after_handshake E d f l r) = ids r"
  "to_agent_lines (announce_after_handshake E d f l r) = to_agent_lines r"
  "unanswered (announce_after_handshake E d f l r) = unanswered r"
  "hs_initialize (handshake (announce_after_handshake E d f l r)) = hs_initialize (handshake r)"
  "hs_new_session (handshake (announce_after_handshake E d f l r)) = hs_new_session (handshake r)"
  by (simp_all add: announce_after_handshake_def split: option.split)

lemma forward_fields [simp]:
  "interceptor (forward E d f e r) = interceptor r" "correlator_of (forward E d f e r) = correlator_of r"
  "unanswered (forward E d f e r) = unanswered r" "sessions (forward E d f e r) = sessions r"
  "handshake (forward E d f e r) = handshake r" "mcp_servers_of (forward E d f e r) = mcp_servers_of r"
  by (cases d; cases f;
      simp add: forward_def for_browser_def outbox_eqs Let_def split: option.split)+

lemma forward_client: "forward E ClientToAgent f e r = send_line ClientToAgent (to_line E f) r"
  by (simp add: forward_def)

lemma forward_agent:
  "forward E AgentToClient (Request i m p) e r = send_line AgentToClient (to_line E (Request i m p)) r"
  "forward E AgentToClient (Notification m p) e r = send_line AgentToClient (to_line E (Notification m p)) r"
  by (simp_all add: forward_def)

section \<open>Extensions\<close>

lemma handle_extension_eq:
  assumes "parse E line = Inr f" and "extension_call f"
  shows "handle E ClientToAgent line r =
    (case f of
       Request i m p \<Rightarrow> r\<lparr>to_browser_sink := send_all
         (if m = SESSION_REPLAY
          then to_line E (replay_reply E f i (sessions r)) # map (to_line E) (unanswered r)
          else [to_line E (Response i (Error (method_not_found m)))]) (to_browser_sink r)\<rparr>
     | _ \<Rightarrow> r)"
  using assms
  by (cases f) (simp_all add: handle_def handle_extension_def outbox_eqs frame_error_def Let_def)

text \<open>
  An extension call of the browser never reaches the agent and leaves no trace in the
  relay: a request is answered, with its own id, to the browser and to it alone, anything but
  a replay as an unknown method; a replay is followed by the agent's open questions, in
  the order they were asked; a notification is dropped.
\<close>

theorem extensions_stay_with_the_server:
  assumes "parse E line = Inr f" and "extension_call f"
  shows "handle E ClientToAgent line r =
    (case f of
       Request i m p \<Rightarrow> r\<lparr>to_browser_sink := send_all
         (if m = SESSION_REPLAY
          then to_line E (replay_reply E f i (sessions r)) # map (to_line E) (unanswered r)
          else [to_line E (Response i (Error (method_not_found m)))]) (to_browser_sink r)\<rparr>
     | _ \<Rightarrow> r)"
  by (rule handle_extension_eq [OF assms])

lemma replay_reply_id: "frame_id (replay_reply E f i s) = Some i \<and> is_response (replay_reply E f i s)"
  by (auto simp: replay_reply_def frame_result_def frame_error_def split: sum.split option.split)

text \<open>
  The extension namespace the relay keeps to itself is every method that begins with
  an underscore, not just its own: another vendor's extension request is refused on the
  agent's behalf, and a notification is swallowed.
\<close>

theorem foreign_extensions_refused:
  assumes "starts_with m ''_''" and "m \<noteq> SESSION_REPLAY"
  shows "(parse E line = Inr (Request i m p) \<longrightarrow>
      handle E ClientToAgent line r =
        to_browser E (Response i (Error (method_not_found m))) r) \<and>
    (parse E line = Inr (Notification m p) \<longrightarrow> handle E ClientToAgent line r = r)"
  using assms
  by (simp_all add: handle_def handle_extension_def extension_call_def is_extension_def frame_error_def)

section \<open>The handshake\<close>

text \<open>What can happen to a connection, each with the direction it comes from.\<close>

datatype relay_event =
    FromBrowser string
  | FromAgentLine string
  | NewBrowser
  | Outbox direction frame
  | SinkEvent sink_op

fun relay_step :: "('i, 'a) relay_env_scheme \<Rightarrow> 'i relay \<Rightarrow> relay_event \<Rightarrow> 'i relay" where
  "relay_step E r (FromBrowser line) = handle E ClientToAgent line r"
| "relay_step E r (FromAgentLine line) = handle E AgentToClient line r"
| "relay_step E r NewBrowser =
     r\<lparr>ids := bridge_reattach (ids r), handshake := handshake_reattach (handshake r),
       to_browser_sink := snd (snd (sink_attach (to_browser_sink r)))\<rparr>"
| "relay_step E r (Outbox d f) = send_line d (to_line E f) r"
| "relay_step E r (SinkEvent op) = r\<lparr>to_browser_sink := sink_step (to_browser_sink r) op\<rparr>"

definition relay_run :: "('i, 'a) relay_env_scheme \<Rightarrow> 'i relay \<Rightarrow> relay_event list \<Rightarrow> 'i relay" where
  "relay_run E r evs = foldl (relay_step E) r evs"

lemma record_answer_keeps:
  "hs_initialize h = Some v \<Longrightarrow> hs_initialize (record_answer m x h) = Some v"
  "hs_new_session h = Some v \<Longrightarrow> hs_new_session (record_answer m x h) = Some v"
  by (simp_all add: record_answer_def get_or_insert_def)

lemma keep_answer_keeps:
  "hs_initialize h = Some v \<Longrightarrow> hs_initialize (keep_answer d f l h) = Some v"
  "hs_new_session h = Some v \<Longrightarrow> hs_new_session (keep_answer d f l h) = Some v"
  by (auto simp: keep_answer_def record_answer_keeps
      split: direction.split frame.split response_payload.split option.split)

lemma handshake_transports_keeps [simp]:
  "hs_initialize (snd (handshake_transports E h)) = hs_initialize h"
  "hs_new_session (snd (handshake_transports E h)) = hs_new_session h"
  "hs_replay_new_session (snd (handshake_transports E h)) = hs_replay_new_session h"
  by (simp_all add: handshake_transports_def Let_def split: option.split)

lemma recorded_keeps [simp]:
  "hs_initialize (snd (recorded m h)) = hs_initialize h"
  "hs_new_session (snd (recorded m h)) = hs_new_session h"
  by (simp_all add: recorded_def)

definition remembers :: "'i relay \<Rightarrow> 'i relay \<Rightarrow> bool" where
  "remembers r r' \<longleftrightarrow>
     (\<forall>v. hs_initialize (handshake r) = Some v \<longrightarrow> hs_initialize (handshake r') = Some v) \<and>
     (\<forall>v. hs_new_session (handshake r) = Some v \<longrightarrow> hs_new_session (handshake r') = Some v)"

lemma remembers_trans [trans]: "remembers a b \<Longrightarrow> remembers b c \<Longrightarrow> remembers a c"
  by (simp add: remembers_def)

lemma remembers_same:
  "hs_initialize (handshake r') = hs_initialize (handshake r) \<Longrightarrow>
   hs_new_session (handshake r') = hs_new_session (handshake r) \<Longrightarrow> remembers r r'"
  by (simp add: remembers_def)

lemma handshake_rebind [simp]: "handshake (snd (rebind d f r)) = handshake r"
  by (cases d; cases f; simp add: rebind_def for_agent_def Let_def)

lemma remembers_add_servers: "remembers r (snd (add_servers E d f r))"
  by (auto simp: add_servers_def remembers_def case_prod_beta Let_def)

lemma remembers_observe: "remembers r (snd (snd (observe_frame E d f r)))"
  by (auto simp: observe_frame_def remembers_def case_prod_beta Let_def forget_questions_def
      keep_answer_keeps split: option.split)

lemma remembers_ask: "remembers r (snd (ask_interceptor E d f r))"
  by (simp add: ask_interceptor_def remembers_def case_prod_beta Let_def write_out_eq)

lemma remembers_dispose: "remembers r (dispose E d f l e disp r)"
  by (rule remembers_same) (simp_all add: dispose_def notify_browser_eq Let_def split: disposition.split)

lemma remembers_relay_frame: "remembers r (relay_frame E d f r)"
proof -
  obtain f1 r1 where b: "rebind d f r = (f1, r1)" by fastforce
  obtain f2 r2 where m: "add_servers E d f1 r1 = (f2, r2)" by fastforce
  obtain l e r3 where o: "observe_frame E d f2 r2 = (l, e, r3)" by (metis prod_cases3)
  obtain disp r4 where a: "ask_interceptor E d f2 r3 = (disp, r4)" by fastforce
  have "remembers r r1" using handshake_rebind [of d f r] by (simp add: b remembers_def)
  also have "remembers r1 r2"
    using remembers_add_servers [of r1 E d f1] by (simp add: m)
  also have "remembers r2 r3"
    using remembers_observe [of r2 E d f2] by (simp add: o)
  also have "remembers r3 r4"
    using remembers_ask [of r3 E d f2] by (simp add: a)
  also have "remembers r4 (dispose E d f2 l e disp r4)"
    by (rule remembers_dispose)
  finally show ?thesis by (simp add: relay_frame_def b m o a)
qed

lemma remembers_recording: "remembers r (snd (answer_from_recording E f r))"
  by (rule remembers_same)
     (auto simp: answer_from_recording_def case_prod_beta Let_def to_browser_eq split: frame.split option.split)

lemma remembers_handle: "remembers r (handle E d line r)"
proof (cases "parse E line")
  case (Inl e)
  then show ?thesis by (cases d) (simp_all add: handle_def send_line_simps remembers_def)
next
  case (Inr f)
  show ?thesis
  proof (cases "d = ClientToAgent \<and> extension_call f")
    case True
    then show ?thesis
      using handle_extension_eq [OF Inr] by (auto simp: remembers_def split: frame.split)
  next
    case False
    have "remembers r (relay_frame E d f (snd (answer_from_recording E f r)))"
      by (rule remembers_trans [OF remembers_recording remembers_relay_frame])
    with False Inr show ?thesis
      by (auto simp: handle_def case_prod_beta Let_def remembers_recording remembers_relay_frame)
  qed
qed

lemma remembers_step: "remembers r (relay_step E r ev)"
  by (cases ev)
     (auto intro: remembers_handle remembers_same simp: handshake_reattach_def send_line_def split: direction.split)

interpretation relay_memory: monotone_machine "relay_step E" remembers for E
proof unfold_locales
  show "remembers r r" for r :: "'a relay" by (simp add: remembers_def)
qed (blast intro: remembers_trans remembers_step)+

lemma label_of_answer:
  "fst (observe_frame E AgentToClient (Response j p) r) = peek (correlator_of r) ClientToAgent j"
  by (simp add: observe_frame_def Let_def peek_def case_prod_beta)

lemma handle_agent_line:
  "parse E line = Inr f \<Longrightarrow> handle E AgentToClient line r = relay_frame E AgentToClient f r"
  by (simp add: handle_def)

lemma relay_frame_agent:
  "relay_frame E AgentToClient f r =
     (let (label, ends_turn, r1) = observe_frame E AgentToClient f r;
          (disp, r2) = ask_interceptor E AgentToClient f r1
      in dispose E AgentToClient f label ends_turn disp r2)"
  by (simp add: relay_frame_def rebind_def add_servers_def)

lemma recorded_by_answer:
  assumes "peek (correlator_of r) ClientToAgent j = Some INITIALIZE"
    and "hs_initialize (handshake r) = None"
  shows "hs_initialize (handshake (relay_frame E AgentToClient (Response j (Result v)) r)) = Some v"
proof -
  obtain l e r1 where o: "observe_frame E AgentToClient (Response j (Result v)) r = (l, e, r1)"
    by (metis prod_cases3)
  have l: "l = Some INITIALIZE"
    using label_of_answer [of E j "Result v" r] assms(1) by (simp add: o)
  have "handshake r1 = keep_answer AgentToClient (Response j (Result v)) l (handshake r)"
    using o by (auto simp: observe_frame_def case_prod_beta Let_def forget_questions_def split: option.split)
  then have "hs_initialize (handshake r1) = Some v"
    using assms(2) by (simp add: l keep_answer_def record_answer_def get_or_insert_def)
  moreover obtain disp r2 where a: "ask_interceptor E AgentToClient (Response j (Result v)) r1 = (disp, r2)"
    by fastforce
  ultimately have "hs_initialize (handshake r2) = Some v"
    using remembers_ask [of r1 E AgentToClient "Response j (Result v)"] by (simp add: a remembers_def)
  then show ?thesis
    using remembers_dispose [of r2 E AgentToClient "Response j (Result v)" l e disp]
    by (simp add: relay_frame_agent o a remembers_def)
qed

lemma initialize_not_extension: "\<not> extension_call (Request i INITIALIZE p)"
  "\<not> extension_call (Request i SESSION_NEW p)"
  by (simp_all add: extension_call_def is_extension_def starts_with_def)

text \<open>
  C9: Once the agent has answered \<open>initialize\<close>, no browser that comes later can put it
  to the agent again: whatever happened in between, a browser's \<open>initialize\<close> is answered
  at once with the agent's first answer under the browser's own id, followed by the announcement
  of a resumed agent, and nothing is sent to the agent.
\<close>

theorem initialize_asked_once:
  fixes evs :: "relay_event list"
  assumes "parse E answer = Inr (Response j (Result v))"
    and "peek (correlator_of r) ClientToAgent j = Some INITIALIZE"
    and "hs_initialize (handshake r) = None"
    and "parse E line = Inr (Request i INITIALIZE p)"
  defines "r1 \<equiv> relay_run E r (FromAgentLine answer # evs)"
  defines "r2 \<equiv> handle E ClientToAgent line r1"
  shows "to_agent_lines r2 = to_agent_lines r1 \<and> correlator_of r2 = correlator_of r1 \<and>
    (\<exists>info. ai_resumed info \<and> to_browser_sink r2 = notify_sink E AGENT_INFO (agent_info_json info)
       (sink_send (to_line E (Response i (Result v))) (to_browser_sink r1)))"
proof -
  have "hs_initialize (handshake (relay_step E r (FromAgentLine answer))) = Some v"
    using recorded_by_answer [OF assms(2,3)] by (simp add: handle_agent_line [OF assms(1)])
  then have v: "hs_initialize (handshake r1) = Some v"
    using relay_memory.run_rel [of "relay_step E r (FromAgentLine answer)" E evs]
    by (simp add: r1_def relay_run_def remembers_def)
  have "r2 = announce E INITIALIZE True (to_browser E (Response i (Result v)) r1)"
    using assms(4) initialize_not_extension(1) [of i p]
    by (simp add: r2_def handle_def answer_from_recording_def recorded_def v)
  then have r2: "r2 = notify_browser E AGENT_INFO (agent_info_json ((agent_info_of r1)\<lparr>ai_resumed := True,
      ai_mcp_servers := map (server_info (fst (handshake_transports E (handshake r1)))) (mcp_servers_of r1)\<rparr>))
      ((to_browser E (Response i (Result v)) r1)\<lparr>handshake := snd (handshake_transports E (handshake r1))\<rparr>)"
    by (simp add: announce_def to_browser_eq case_prod_beta Let_def)
  show ?thesis
    unfolding r2 notify_browser_eq to_browser_eq
    by (intro conjI exI [of _ "(agent_info_of r1)\<lparr>ai_resumed := True, ai_mcp_servers :=
      map (server_info (fst (handshake_transports E (handshake r1)))) (mcp_servers_of r1)\<rparr>"]) simp_all
qed

text \<open>
  A browser that attaches after a session has been opened has its first
  \<open>session/new\<close> answered with that session, and the agent does not see it; a second
  one by the same browser is a session of its own and does go through.
\<close>

theorem first_new_session_is_resumed:
  fixes evs :: "relay_event list"
  assumes "hs_new_session (handshake r) = Some v"
    and "parse E line = Inr (Request i SESSION_NEW p)"
    and "parse E line' = Inr (Request i' SESSION_NEW p')"
  defines "r1 \<equiv> relay_run E r (evs @ [NewBrowser])"
  defines "r2 \<equiv> handle E ClientToAgent line r1"
  shows "r2 = to_browser E (Response i (Result v))
      (r1\<lparr>handshake := (handshake r1)\<lparr>hs_replay_new_session := False\<rparr>\<rparr>) \<and>
    handle E ClientToAgent line' r2 = relay_frame E ClientToAgent (Request i' SESSION_NEW p') r2"
proof -
  have "hs_new_session (handshake (relay_run E r evs)) = Some v"
    using relay_memory.run_rel [of r E evs] assms(1) by (simp add: relay_run_def remembers_def)
  then have r1: "hs_new_session (handshake r1) = Some v" "hs_replay_new_session (handshake r1)"
    by (simp_all add: r1_def relay_run_def handshake_reattach_def)
  have r2: "r2 = to_browser E (Response i (Result v))
      (r1\<lparr>handshake := (handshake r1)\<lparr>hs_replay_new_session := False\<rparr>\<rparr>)"
    using assms(2) initialize_not_extension(2) [of i p] r1
    by (simp add: r2_def handle_def answer_from_recording_def recorded_def announce_def)
  then have off: "\<not> hs_replay_new_session (handshake r2)"
    by (simp add: to_browser_eq)
  have "r2\<lparr>handshake := handshake r2\<rparr> = r2" by simp
  then have "handle E ClientToAgent line' r2 = relay_frame E ClientToAgent (Request i' SESSION_NEW p') r2"
    using assms(3) initialize_not_extension(2) [of i' p'] off
    by (simp add: handle_def answer_from_recording_def recorded_def)
  with r2 show ?thesis by blast
qed

section \<open>Answers\<close>

lemma ids_announce_after [simp]: "ids (announce_after_handshake E d f l r) = ids r"
  by simp

definition mints_for :: "('a) serde_scheme \<Rightarrow> relay_event \<Rightarrow> request_id \<Rightarrow> bool" where
  "mints_for E ev b \<longleftrightarrow> (\<exists>line m p. ev = FromBrowser line \<and> parse E line = Inr (Request b m p))"

lemma ids_forward:
  "\<exists>ops. ids (forward E d f e r) = foldl bridge_step (ids r) ops \<and> (\<forall>b. ForAgent b \<notin> set ops)"
proof (cases "d = AgentToClient \<and> is_response f")
  case True
  then obtain i payload where "f = Response i payload" by (cases f) auto
  with True have "ids (forward E d f e r) = foldl bridge_step (ids r) [ForBrowser i]"
    by (simp add: forward_def case_prod_beta Let_def outbox_eqs split: option.split)
  then show ?thesis by (intro exI [of _ "[ForBrowser i]"]) simp
next
  case False
  then have "ids (forward E d f e r) = foldl bridge_step (ids r) []"
    by (cases d; cases f) (simp_all add: forward_def send_line_simps)
  then show ?thesis by (intro exI [of _ "[]"]) simp
qed

lemma ids_dispose:
  "\<exists>ops. ids (dispose E d f l e disp r) = foldl bridge_step (ids r) ops \<and> (\<forall>b. ForAgent b \<notin> set ops)"
proof (cases disp)
  case Forward
  then show ?thesis
    using ids_forward [of E d f e "if d = AgentToClient \<and> is_request f
      then r\<lparr>unanswered := unanswered r @ [f]\<rparr> else r"]
    by (auto simp: dispose_def Let_def split: if_splits)
next
  case (Rewrite f')
  then show ?thesis using ids_forward [of E d f' None r] by (simp add: dispose_def)
next
  case Intercept
  then show ?thesis by (intro exI [of _ "[]"]) (simp add: dispose_def notify_browser_eq)
qed

lemma ids_passed_on:
  "ids (snd (add_servers E d f r)) = ids r" "ids (snd (snd (observe_frame E d f r))) = ids r"
  "ids (snd (ask_interceptor E d f r)) = ids r" "ids (snd (answer_from_recording E f r)) = ids r"
  by (auto simp: add_servers_def observe_frame_def ask_interceptor_def answer_from_recording_def
      forget_questions_def write_out_eq to_browser_eq case_prod_beta Let_def
      split: option.split frame.split)

lemma ids_relay_frame:
  "\<exists>ops. ids (relay_frame E d f r) = foldl bridge_step (ids r) ops \<and>
     (\<forall>b. ForAgent b \<in> set ops \<longrightarrow> d = ClientToAgent \<and> (\<exists>m p. f = Request b m p))"
proof -
  obtain f1 r1 where b: "rebind d f r = (f1, r1)" by fastforce
  obtain f2 r2 where m: "add_servers E d f1 r1 = (f2, r2)" by fastforce
  obtain l e r3 where o: "observe_frame E d f2 r2 = (l, e, r3)" by (metis prod_cases3)
  obtain disp r4 where a: "ask_interceptor E d f2 r3 = (disp, r4)" by fastforce
  have "\<exists>ops. ids r1 = foldl bridge_step (ids r) ops \<and>
     (\<forall>b. ForAgent b \<in> set ops \<longrightarrow> d = ClientToAgent \<and> (\<exists>m p. f = Request b m p))"
  proof (cases "d = ClientToAgent \<and> is_request f")
    case True
    then obtain i mm p where f: "f = Request i mm p" by (cases f) auto
    with True have "r1 = r\<lparr>ids := snd (for_agent i (ids r))\<rparr>"
      using b by (auto simp: rebind_def case_prod_beta Let_def)
    with True f show ?thesis by (intro exI [of _ "[ForAgent i]"]) simp
  next
    case False
    with b have "r1 = r" by (cases d; cases f) (auto simp: rebind_def)
    then show ?thesis by (intro exI [of _ "[]"]) simp
  qed
  then obtain ops where ops: "ids r1 = foldl bridge_step (ids r) ops"
    "\<forall>b. ForAgent b \<in> set ops \<longrightarrow> d = ClientToAgent \<and> (\<exists>m p. f = Request b m p)" by blast
  have "ids r4 = ids r1"
    using ids_passed_on(1) [of E d f1 r1] ids_passed_on(2) [of E d f2 r2] ids_passed_on(3) [of E d f2 r3]
    by (simp add: m o a)
  moreover obtain ops' where "ids (dispose E d f2 l e disp r4) = foldl bridge_step (ids r4) ops'"
    "\<forall>b. ForAgent b \<notin> set ops'"
    using ids_dispose by blast
  ultimately have "ids (relay_frame E d f r) = foldl bridge_step (ids r) (ops @ ops')"
    and "\<forall>b. ForAgent b \<in> set (ops @ ops') \<longrightarrow> d = ClientToAgent \<and> (\<exists>m p. f = Request b m p)"
    using ops by (auto simp: relay_frame_def b m o a)
  then show ?thesis by blast
qed

lemma ids_handle:
  "\<exists>ops. ids (handle E d line r) = foldl bridge_step (ids r) ops \<and>
     (\<forall>b. ForAgent b \<in> set ops \<longrightarrow> d = ClientToAgent \<and> (\<exists>m p. parse E line = Inr (Request b m p)))"
proof (cases "parse E line")
  case (Inl e)
  then show ?thesis
    by (intro exI [of _ "[]"]) (simp add: handle_def send_line_def split: direction.split)
next
  case (Inr f)
  consider (ext) "d = ClientToAgent" "extension_call f"
    | (frame) r1 where "ids r1 = ids r" "handle E d line r = relay_frame E d f r1"
    | (answered) "ids (handle E d line r) = ids r"
  proof (cases "d = ClientToAgent \<and> extension_call f")
    case True
    then show ?thesis using that(1) by blast
  next
    case False
    show ?thesis
    proof (cases "d = ClientToAgent")
      case True
      with False Inr have h: "handle E d line r = (if fst (answer_from_recording E f r)
          then snd (answer_from_recording E f r) else relay_frame E d f (snd (answer_from_recording E f r)))"
        by (simp add: handle_def case_prod_beta Let_def)
      show ?thesis
      proof (cases "fst (answer_from_recording E f r)")
        case True
        with h show ?thesis using that(3) ids_passed_on(4) [of E f r] by simp
      next
        case False
        with h show ?thesis using that(2) ids_passed_on(4) [of E f r] by simp
      qed
    next
      case False
      with Inr have "handle E d line r = relay_frame E d f r" by (simp add: handle_def)
      then show ?thesis using that(2) by blast
    qed
  qed
  then show ?thesis
  proof cases
    case ext
    then have "ids (handle E d line r) = ids r"
      using handle_extension_eq [OF Inr, of r] by (simp split: frame.split)
    then show ?thesis by (intro exI [of _ "[]"]) simp
  next
    case (frame r1)
    then show ?thesis using ids_relay_frame [of E d f r1] Inr by fastforce
  next
    case answered
    then show ?thesis by (intro exI [of _ "[]"]) simp
  qed
qed

lemma ids_step:
  "\<exists>ops. ids (relay_step E r ev) = foldl bridge_step (ids r) ops \<and>
     (\<forall>b. ForAgent b \<in> set ops \<longrightarrow> mints_for E ev b)"
proof (cases ev)
  case (FromBrowser line)
  then show ?thesis using ids_handle [of E ClientToAgent line r] by (fastforce simp: mints_for_def)
next
  case (FromAgentLine line)
  then show ?thesis using ids_handle [of E AgentToClient line r] by fastforce
next
  case NewBrowser
  then show ?thesis by (intro exI [of _ "[Reattach]"]) simp
next
  case (Outbox d f)
  then show ?thesis
    by (intro exI [of _ "[]"]) (simp add: send_line_def split: direction.split)
next
  case (SinkEvent op)
  then show ?thesis by (intro exI [of _ "[]"]) simp
qed

lemma ids_run:
  "\<exists>ops. ids (relay_run E r evs) = foldl bridge_step (ids r) ops \<and>
     (\<forall>b. ForAgent b \<in> set ops \<longrightarrow> (\<exists>ev \<in> set evs. mints_for E ev b))"
proof (induction evs arbitrary: r)
  case Nil
  show ?case by (intro exI [of _ "[]"]) (simp add: relay_run_def)
next
  case (Cons ev evs)
  obtain ops where ops: "ids (relay_step E r ev) = foldl bridge_step (ids r) ops"
    "\<forall>b. ForAgent b \<in> set ops \<longrightarrow> mints_for E ev b" using ids_step by blast
  obtain ops' where ops': "ids (relay_run E (relay_step E r ev) evs) = foldl bridge_step (ids (relay_step E r ev)) ops'"
    "\<forall>b. ForAgent b \<in> set ops' \<longrightarrow> (\<exists>ev \<in> set evs. mints_for E ev b)" using Cons.IH by blast
  have "ids (relay_run E r (ev # evs)) = foldl bridge_step (ids r) (ops @ ops')"
    using ops(1) ops'(1) by (simp add: relay_run_def)
  then show ?case using ops(2) ops'(2) by (intro exI [of _ "ops @ ops'"]) auto
qed

text \<open>
  Whatever earlier browsers left in flight, a response of the agent is delivered to
  the browser attached now only under an id which that browser itself has sent a request
  with since it attached.
\<close>

theorem answers_go_to_the_asker:
  assumes "fst (for_browser a (ids (relay_run E (new_relay i info servers) (before @ NewBrowser # since)))) = Some b"
  shows "\<exists>line m p. FromBrowser line \<in> set since \<and> parse E line = Inr (Request b m p)"
proof -
  let ?r = "relay_run E (new_relay i info servers) before"
  obtain ops where ops: "ids ?r = foldl bridge_step new_bridge ops"
    using ids_run [of E "new_relay i info servers" before] by (auto simp: new_relay_def)
  obtain ops' where ops': "ids (relay_run E (relay_step E ?r NewBrowser) since) =
      foldl bridge_step (ids (relay_step E ?r NewBrowser)) ops'"
    "\<forall>b. ForAgent b \<in> set ops' \<longrightarrow> (\<exists>ev \<in> set since. mints_for E ev b)" using ids_run by blast
  have "ids (relay_run E (new_relay i info servers) (before @ NewBrowser # since)) =
      bridge_run (ops @ Reattach # ops')"
    using ops'(1) ops by (simp add: relay_run_def bridge_run_def)
  with assms have "owed (rev ops' @ Reattach # rev ops) a = Some b"
    by (simp add: for_browser_def outstanding_bridge_run)
  then have "ForAgent b \<in> set (rev ops')" by (rule owed_since_reattach)
  with ops'(2) obtain ev where "ev \<in> set since" "mints_for E ev b" by auto
  then show ?thesis by (auto simp: mints_for_def)
qed

section \<open>Turns and questions\<close>

text \<open>An interceptor that lets a frame of the agent pass, writing nothing.\<close>

definition passes :: "('i, 'a) relay_env_scheme \<Rightarrow> 'i relay \<Rightarrow> direction \<Rightarrow> frame \<Rightarrow> bool" where
  "passes E r d f \<longleftrightarrow>
     (case d of ClientToAgent \<Rightarrow> on_client_frame E | AgentToClient \<Rightarrow> on_agent_frame E) (interceptor r) f =
       (Forward, [], interceptor r)"

lemma ask_passes: "passes E r d f \<Longrightarrow> ask_interceptor E d f r = (Forward, r)"
  by (simp add: passes_def ask_interceptor_def write_out_def)

text \<open>
  A turn whose browser has gone: when the agent answers the prompt, the answer itself
  is delivered to nobody, and the browser attached now is told that this session's turn
  has ended and why; the questions the turn left open are off the re-ask list.
\<close>

theorem inherited_turn_is_reported_over:
  assumes "parse E line = Inr (Response j payload)"
    and "peek (correlator_of r) ClientToAgent j = Some SESSION_PROMPT"
    and "session_of_prompt (sessions r) j = Some sid"
    and "hm_get (outstanding (ids r)) j = None"
    and "passes E r AgentToClient (Response j payload)"
    and "ser_value E (session_turn_ended_json
           \<lparr>te_session_id = sid, te_stop_reason = stop_reason_of E payload\<rparr>) = Inr raw"
  defines "r' \<equiv> handle E AgentToClient line r"
  shows "to_browser_sink r' = sink_send (to_line E (Notification SESSION_TURN_ENDED (Some raw))) (to_browser_sink r)
    \<and> unanswered r' = filter (\<lambda>q. session_of E q \<noteq> Some sid) (unanswered r)
    \<and> to_agent_lines r' = to_agent_lines r"
proof -
  let ?f = "Response j payload"
  obtain r1 where o: "observe_frame E AgentToClient ?f r = (Some SESSION_PROMPT, Some sid, r1)"
    and fields: "ids r1 = ids r" "to_browser_sink r1 = to_browser_sink r" "interceptor r1 = interceptor r"
      "to_agent_lines r1 = to_agent_lines r"
      "unanswered r1 = filter (\<lambda>q. session_of E q \<noteq> Some sid) (unanswered r)"
    using assms(2,3)
    by (simp add: observe_frame_def peek_def ended_turn_def forget_questions_def settle_unanswered_def Let_def)
  have "passes E r1 AgentToClient ?f" using assms(5) fields(3) by (simp add: passes_def)
  then have "r' = announce_after_handshake E AgentToClient ?f (Some SESSION_PROMPT)
      (forward E AgentToClient ?f (Some sid) r1)"
    by (simp add: r'_def handle_agent_line [OF assms(1)] relay_frame_agent o ask_passes dispose_def)
  also have "\<dots> = forward E AgentToClient ?f (Some sid) r1"
    by (simp add: announce_after_handshake_def announce_def)
  also have "\<dots> = to_browser E (Notification SESSION_TURN_ENDED (Some raw)) (r1\<lparr>ids := snd (for_browser j (ids r1))\<rparr>)"
    using assms(4,6) fields(1)
    by (simp add: forward_def for_browser_def notify_browser_def notification_def Let_def)
  finally show ?thesis using fields by (simp add: to_browser_eq)
qed

lemma unanswered_rebind [simp]: "unanswered (snd (rebind d f r)) = unanswered r"
  by (cases d; cases f; simp add: rebind_def for_agent_def Let_def)


lemma unanswered_ask [simp]: "unanswered (snd (ask_interceptor E d f r)) = unanswered r"
  by (simp add: ask_interceptor_def case_prod_beta Let_def write_out_eq)







text \<open>
  A frame the interceptor takes is not passed on in either direction: the agent gets
  what the interceptor wrote to it and no more, and the browser gets, after what the
  interceptor wrote, one inspector notification that quotes the frame.
\<close>

theorem intercepted_frames_are_mirrored:
  assumes "parse E line = Inr f"
    and "observe_frame E AgentToClient f r = (label, ends_turn, r1)"
    and "on_agent_frame E (interceptor r1) f = (Intercept, out, i)"
  defines "r' \<equiv> handle E AgentToClient line r"
  shows "to_agent_lines r' = to_agent_lines r1 @ lines_to E ClientToAgent out \<and>
    to_browser_sink r' = notify_sink E INSPECTOR_FRAME (inspector_frame_json
      \<lparr>if_direction = ''agentToClient'', if_line = to_line E f, if_method = label, if_intercepted = True\<rparr>)
      (send_all (lines_to E AgentToClient out) (to_browser_sink r1)) \<and>
    unanswered r' = unanswered r1 \<and> ids r' = ids r1"
  using assms(2,3)
  by (simp add: r'_def handle_agent_line [OF assms(1)] relay_frame_agent ask_interceptor_def
      dispose_def outbox_eqs)

section \<open>Capabilities\<close>

text \<open>The object at a key, empty where there is none.\<close>

definition object_at :: "(string \<times> json) list \<Rightarrow> string \<Rightarrow> (string \<times> json) list option" where
  "object_at kvs k = (case map_of kvs k of None \<Rightarrow> Some [] | Some v \<Rightarrow> as_object v)"

lemma object_at_or_insert: "as_object (snd (or_insert k (JObject []) kvs)) = object_at kvs k"
  by (simp add: object_at_def or_insert_def split: option.split)

lemma map_of_or_insert_other: "j \<noteq> k \<Longrightarrow> map_of (fst (or_insert k d kvs)) j = map_of kvs j"
  by simp

text \<open>
  The rewrite of \<open>initialize\<close> sets the filesystem and terminal capabilities to true
  and changes nothing else: the id, the method, every other member of the parameters,
  every other capability and every other filesystem flag are the browser's.
\<close>

theorem capabilities_are_added:
  assumes "params_value E p = JObject members" and "object_at members ''clientCapabilities'' = Some caps"
    and "object_at caps ''fs'' = Some flags"
    and "merge_client_capabilities E (Request i INITIALIZE p) True True = Some f"
  shows "\<exists>raw members' caps' flags'. f = Request i INITIALIZE (Some raw) \<and>
    ser_value E (JObject members') = Inr raw \<and>
    map_of members' ''clientCapabilities'' = Some (JObject caps') \<and>
    map_of caps' ''fs'' = Some (JObject flags') \<and> map_of caps' ''terminal'' = Some (JBool True) \<and>
    map_of flags' ''readTextFile'' = Some (JBool True) \<and> map_of flags' ''writeTextFile'' = Some (JBool True) \<and>
    (\<forall>k. k \<noteq> ''clientCapabilities'' \<longrightarrow> map_of members' k = map_of members k) \<and>
    (\<forall>k. k \<noteq> ''fs'' \<and> k \<noteq> ''terminal'' \<longrightarrow> map_of caps' k = map_of caps k) \<and>
    (\<forall>k. k \<noteq> ''readTextFile'' \<and> k \<noteq> ''writeTextFile'' \<longrightarrow> map_of flags' k = map_of flags k)"
proof -
  let ?flags = "obj_insert ''writeTextFile'' (JBool True) (obj_insert ''readTextFile'' (JBool True) flags)"
  let ?caps = "obj_insert ''terminal'' (JBool True) (obj_insert ''fs'' (JObject ?flags)
      (fst (or_insert ''fs'' (JObject []) caps)))"
  let ?members = "obj_insert ''clientCapabilities'' (JObject ?caps)
      (fst (or_insert ''clientCapabilities'' (JObject []) members))"
  have "as_object (snd (or_insert ''clientCapabilities'' (JObject []) members)) = Some caps"
    and "as_object (snd (or_insert ''fs'' (JObject []) caps)) = Some flags"
    using assms(2,3) by (simp_all add: object_at_or_insert)
  then obtain raw where raw: "ser_value E (JObject ?members) = Inr raw" and f: "f = Request i INITIALIZE (Some raw)"
    using assms(1,4)
    by (auto simp: merge_client_capabilities_def case_prod_beta Let_def split: sum.splits)
  show ?thesis
    by (rule exI [of _ raw], rule exI [of _ ?members], rule exI [of _ ?caps], rule exI [of _ ?flags])
       (simp add: f raw)
qed

lemma merge_opted_out:
  assumes "params_value E p = JObject [(''clientCapabilities'',
      JObject [(''fs'', JObject [(''readTextFile'', JBool False)])])]"
    and "ser_value E (JObject [(''clientCapabilities'', JObject [(''fs'', JObject
           [(''readTextFile'', JBool True), (''writeTextFile'', JBool True)]), (''terminal'', JBool True)])]) = Inr raw"
  shows "merge_client_capabilities E (Request i INITIALIZE p) True True = Some (Request i INITIALIZE (Some raw))"
  using assms by (simp add: merge_client_capabilities_def or_insert_def obj_insert_def)

text \<open>
  A browser that opts out of reading files is not left out: the flag it set to false
  is overwritten.
\<close>

theorem opt_out_is_overridden:
  assumes "params_value E p = JObject [(''clientCapabilities'',
      JObject [(''fs'', JObject [(''readTextFile'', JBool False)])])]"
    and "ser_value E (JObject [(''clientCapabilities'', JObject [(''fs'', JObject
           [(''readTextFile'', JBool True), (''writeTextFile'', JBool True)]), (''terminal'', JBool True)])]) = Inr raw"
  shows "merge_client_capabilities E (Request i INITIALIZE p) True True = Some (Request i INITIALIZE (Some raw))"
  by (rule merge_opted_out [OF assms])

end
