(* ===== verification/Relay_Tasks.thy ===== *)
theory Relay_Tasks
  imports Relay_Props
begin

text \<open>
  \<open>Relay::handle\<close> of \<open>crates/mjx-acp-server/src/relay.rs\<close> at the grain other tasks see: a call is
  a tree of sections, each what one lock protects or one synchronous call, and between two
  sections any other task may run. Run without interruption a call is \<open>handle\<close> of theory
  \<open>Relay\<close>; theory \<open>Live\<close> interleaves calls.
\<close>

section \<open>Calls as trees of sections\<close>

text \<open>
  Where a task stands before a section: at the \<open>await\<close> of a lock, where the runtime may
  suspend it or end it, in synchronous code, or in synchronous code with a lock held.
\<close>

datatype lock = IdsLock | CorrelatorLock | SessionsLock | HandshakeLock | UnansweredLock

datatype point = Awaits lock | Runs | Holds lock

datatype ('s, 'a) task = Finished 'a | Section point "'s \<Rightarrow> 's \<times> ('s, 'a) task"

primrec bind_task :: "('s, 'a) task \<Rightarrow> ('a \<Rightarrow> ('s, 'b) task) \<Rightarrow> ('s, 'b) task" where
  "bind_task (Finished x) k = k x"
| "bind_task (Section p f) k = Section p (\<lambda>s. map_prod id (\<lambda>t. bind_task t k) (f s))"

primrec run_task :: "('s, 'a) task \<Rightarrow> 's \<Rightarrow> 'a \<times> 's" where
  "run_task (Finished x) = (\<lambda>s. (x, s))"
| "run_task (Section p f) = (\<lambda>s. case map_prod id run_task (f s) of (s', rest) \<Rightarrow> rest s')"

definition one_section :: "point \<Rightarrow> ('s \<Rightarrow> 'a \<times> 's) \<Rightarrow> ('s, 'a) task" where
  "one_section p g = Section p (\<lambda>s. let (x, s') = g s in (s', Finished x))"

definition locked :: "lock \<Rightarrow> ('s \<Rightarrow> 'a \<times> 's) \<Rightarrow> ('s, 'a) task" where
  "locked l g = one_section (Awaits l) g"

definition sync :: "('s \<Rightarrow> 'a \<times> 's) \<Rightarrow> ('s, 'a) task" where
  "sync g = one_section Runs g"

lemma task_induct [case_names Finished Section]:
  assumes "\<And>x. P (Finished x)" and "\<And>p f. (\<And>s. P (snd (f s))) \<Longrightarrow> P (Section p f)"
  shows "P t"
proof (induction t)
  case (Finished x)
  show ?case by (rule assms(1))
next
  case (Section p f)
  show ?case
  proof (rule assms(2))
    show "P (snd (f s))" for s
      by (rule Section.IH [of "f s"]) (simp_all add: snds.intros)
  qed
qed

lemma run_Section [simp]: "run_task (Section p f) s = run_task (snd (f s)) (fst (f s))"
  by (simp add: case_prod_beta)

declare run_task.simps(2) [simp del]

lemma run_bind_task: "run_task (bind_task t k) s = (let (x, s') = run_task t s in run_task (k x) s')"
  by (induction t arbitrary: s rule: task_induct) (simp_all add: case_prod_beta Let_def)

lemma run_one_section [simp]: "run_task (one_section p g) s = g s"
  by (simp add: one_section_def Let_def case_prod_beta)

lemma run_locked [simp]: "run_task (locked l g) s = g s" "run_task (sync g) s = g s"
  by (simp_all add: locked_def sync_def)

section \<open>The outbox\<close>

definition send_task :: "direction \<Rightarrow> string \<Rightarrow> ('i relay, unit) task" where
  "send_task d line = sync (\<lambda>r. ((), send_line d line r))"

definition notify_task :: "('a) serde_scheme \<Rightarrow> string \<Rightarrow> json \<Rightarrow> ('i relay, unit) task" where
  "notify_task E m v =
     (case notification m (ser_value E v) of
        Inr f \<Rightarrow> send_task AgentToClient (to_line E f) | Inl _ \<Rightarrow> Finished ())"

primrec write_out_task :: "('a) serde_scheme \<Rightarrow> (direction \<times> frame) list \<Rightarrow> ('i relay, unit) task" where
  "write_out_task E [] = Finished ()"
| "write_out_task E (x # out) =
     bind_task (send_task (fst x) (to_line E (snd x))) (\<lambda>_. write_out_task E out)"

section \<open>The parts of \<open>handle\<close>\<close>

definition announce_task :: "('a) serde_scheme \<Rightarrow> string \<Rightarrow> bool \<Rightarrow> ('i relay, unit) task" where
  "announce_task E m resumed =
     (if m \<noteq> INITIALIZE then Finished ()
      else bind_task
        (locked HandshakeLock (\<lambda>r.
           let (tr, h) = handshake_transports E (handshake r)
           in ((agent_info_of r)\<lparr>ai_resumed := resumed,
                 ai_mcp_servers := map (server_info tr) (mcp_servers_of r)\<rparr>, r\<lparr>handshake := h\<rparr>)))
        (\<lambda>info. notify_task E AGENT_INFO (agent_info_json info)))"

definition announce_after_task ::
  "('a) serde_scheme \<Rightarrow> direction \<Rightarrow> frame \<Rightarrow> string option \<Rightarrow> ('i relay, unit) task" where
  "announce_after_task E d f label =
     (if d \<noteq> AgentToClient \<or> \<not> is_response f then Finished ()
      else case label of None \<Rightarrow> Finished () | Some m \<Rightarrow> announce_task E m False)"

text \<open>\<open>reask_unanswered\<close> keeps the list locked while it sends.\<close>

primrec reask_lines :: "string list \<Rightarrow> ('i relay, unit) task" where
  "reask_lines [] = Finished ()"
| "reask_lines (l # ls) =
     Section (Holds UnansweredLock) (\<lambda>r. (send_line AgentToClient l r, reask_lines ls))"

definition reask_task :: "('a) serde_scheme \<Rightarrow> ('i relay, unit) task" where
  "reask_task E =
     Section (Awaits UnansweredLock) (\<lambda>r. (r, reask_lines (map (to_line E) (unanswered r))))"

definition names_session :: "('i, 'a) relay_env_scheme \<Rightarrow> frame \<Rightarrow> bool" where
  "names_session E f \<longleftrightarrow> (case params_as (de_replay E) f of Inr (Some _) \<Rightarrow> True | _ \<Rightarrow> False)"

definition handle_extension_task :: "('i, 'a) relay_env_scheme \<Rightarrow> frame \<Rightarrow> ('i relay, unit) task" where
  "handle_extension_task E f =
     (case f of
        Request i m p \<Rightarrow>
          if m = SESSION_REPLAY
          then bind_task
            (one_section (if names_session E f then Awaits SessionsLock else Runs)
               (\<lambda>r. (replay_reply E f i (sessions r), r)))
            (\<lambda>answer. bind_task (send_task AgentToClient (to_line E answer)) (\<lambda>_. reask_task E))
          else send_task AgentToClient (to_line E (frame_error i (method_not_found m)))
      | _ \<Rightarrow> Finished ())"

definition answer_from_recording_task ::
  "('i, 'a) relay_env_scheme \<Rightarrow> frame \<Rightarrow> ('i relay, bool) task" where
  "answer_from_recording_task E f =
     (case f of
        Request i m p \<Rightarrow>
          bind_task
            (locked HandshakeLock (\<lambda>r.
               let (answer, h) = recorded m (handshake r) in (answer, r\<lparr>handshake := h\<rparr>)))
            (\<lambda>answer. case answer of
               None \<Rightarrow> Finished False
             | Some result \<Rightarrow>
                 bind_task (send_task AgentToClient (to_line E (Response i (Result result))))
                   (\<lambda>_. bind_task (announce_task E m True) (\<lambda>_. Finished True)))
      | _ \<Rightarrow> Finished False)"

definition rebind_task :: "direction \<Rightarrow> frame \<Rightarrow> ('i relay, frame) task" where
  "rebind_task d f =
     (case (d, f) of
        (ClientToAgent, Request i m p) \<Rightarrow>
          bind_task (locked IdsLock (\<lambda>r. let (j, b) = for_agent i (ids r) in (j, r\<lparr>ids := b\<rparr>)))
            (\<lambda>j. Finished (Request j m p))
      | _ \<Rightarrow> Finished f)"

definition add_servers_task ::
  "('i, 'a) relay_env_scheme \<Rightarrow> direction \<Rightarrow> frame \<Rightarrow> ('i relay, frame) task" where
  "add_servers_task E d f =
     bind_task (sync (\<lambda>r. (mcp_servers_of r, r)))
       (\<lambda>servers. if d = ClientToAgent \<and> servers \<noteq> []
          then bind_task
            (locked HandshakeLock (\<lambda>r.
               let (tr, h) = handshake_transports E (handshake r) in (tr, r\<lparr>handshake := h\<rparr>)))
            (\<lambda>tr. Finished (case merge_mcp_servers E (wire_json E) f servers tr of
               None \<Rightarrow> f | Some f' \<Rightarrow> f'))
          else Finished f)"

definition forget_questions_task :: "('a) serde_scheme \<Rightarrow> string \<Rightarrow> ('i relay, unit) task" where
  "forget_questions_task E sid =
     bind_task
       (locked UnansweredLock (\<lambda>r.
          ((), r\<lparr>unanswered := filter (\<lambda>asked. session_of E asked \<noteq> Some sid) (unanswered r)\<rparr>)))
       (\<lambda>_. locked SessionsLock (\<lambda>r.
          ((), r\<lparr>sessions := snd (cancel_session_elicitations sid (sessions r))\<rparr>)))"

definition ended_turn_task ::
  "direction \<Rightarrow> frame \<Rightarrow> string option \<Rightarrow> ('i relay, string option) task" where
  "ended_turn_task d f label =
     (if d = AgentToClient \<and> is_response f \<and> label = Some SESSION_PROMPT
      then locked SessionsLock (\<lambda>r. (Option.bind (frame_id f) (session_of_prompt (sessions r)), r))
      else Finished None)"

definition settle_task :: "direction \<Rightarrow> frame \<Rightarrow> ('i relay, unit) task" where
  "settle_task d f =
     (case (d, f) of
        (ClientToAgent, Response i p) \<Rightarrow>
          locked UnansweredLock (\<lambda>r.
            ((), r\<lparr>unanswered := filter (\<lambda>q. frame_id q \<noteq> Some i) (unanswered r)\<rparr>))
      | _ \<Rightarrow> Finished ())"

definition keep_task :: "direction \<Rightarrow> frame \<Rightarrow> string option \<Rightarrow> ('i relay, unit) task" where
  "keep_task d f label =
     (case (d, f, label) of
        (AgentToClient, Response i (Result result), Some m) \<Rightarrow>
          locked HandshakeLock (\<lambda>r. ((), r\<lparr>handshake := record_answer m result (handshake r)\<rparr>))
      | _ \<Rightarrow> Finished ())"

definition observe_task ::
  "('i, 'a) relay_env_scheme \<Rightarrow> direction \<Rightarrow> frame \<Rightarrow>
   ('i relay, string option \<times> string option) task" where
  "observe_task E d f =
     bind_task
       (locked CorrelatorLock (\<lambda>r.
          let (answers, c) = observe d f (correlator_of r) in (answers, r\<lparr>correlator_of := c\<rparr>)))
       (\<lambda>answers.
     bind_task
       (Finished (case frame_method f of Some m \<Rightarrow> Some m | None \<Rightarrow> answers))
       (\<lambda>label.
     bind_task (ended_turn_task d f label)
       (\<lambda>ends_turn.
     bind_task
       (locked SessionsLock (\<lambda>r. ((), r\<lparr>sessions := observe_session E d f (sessions r)\<rparr>)))
       (\<lambda>_.
     bind_task
       (case ends_turn of None \<Rightarrow> Finished () | Some sid \<Rightarrow> forget_questions_task E sid)
       (\<lambda>_. bind_task (settle_task d f)
       (\<lambda>_. bind_task (keep_task d f label)
       (\<lambda>_. Finished (label, ends_turn))))))))"

definition ask_interceptor_task ::
  "('i, 'a) relay_env_scheme \<Rightarrow> direction \<Rightarrow> frame \<Rightarrow> ('i relay, disposition) task" where
  "ask_interceptor_task E d f =
     bind_task
       (sync (\<lambda>r.
          let (disposition, out, i) =
            (case d of ClientToAgent \<Rightarrow> on_client_frame E | AgentToClient \<Rightarrow> on_agent_frame E)
              (interceptor r) f
          in ((disposition, out), r\<lparr>interceptor := i\<rparr>)))
       (\<lambda>(disposition, out). bind_task (write_out_task E out) (\<lambda>_. Finished disposition))"

definition forward_task ::
  "('a) serde_scheme \<Rightarrow> direction \<Rightarrow> frame \<Rightarrow> string option \<Rightarrow> ('i relay, unit) task" where
  "forward_task E d f ends_turn =
     (case (d, f) of
        (AgentToClient, Response i payload) \<Rightarrow>
          bind_task (locked IdsLock (\<lambda>r. let (j, b) = for_browser i (ids r) in (j, r\<lparr>ids := b\<rparr>)))
            (\<lambda>browser. case browser of
               Some j \<Rightarrow> send_task d (to_line E (Response j payload))
             | None \<Rightarrow>
                 (case ends_turn of
                    None \<Rightarrow> Finished ()
                  | Some sid \<Rightarrow> notify_task E SESSION_TURN_ENDED (session_turn_ended_json
                      \<lparr>te_session_id = sid, te_stop_reason = stop_reason_of E payload\<rparr>)))
      | _ \<Rightarrow> send_task d (to_line E f))"

definition dispose_task ::
  "('i, 'a) relay_env_scheme \<Rightarrow> direction \<Rightarrow> frame \<Rightarrow> string option \<Rightarrow> string option \<Rightarrow>
   disposition \<Rightarrow> ('i relay, unit) task" where
  "dispose_task E d f label ends_turn disposition =
     (case disposition of
        Forward \<Rightarrow>
          bind_task
            (if d = AgentToClient \<and> is_request f
             then locked UnansweredLock (\<lambda>r. ((), r\<lparr>unanswered := unanswered r @ [f]\<rparr>))
             else Finished ())
            (\<lambda>_. bind_task (forward_task E d f ends_turn) (\<lambda>_. announce_after_task E d f label))
      | Rewrite rewritten \<Rightarrow> forward_task E d rewritten None
      | Intercept \<Rightarrow> notify_task E INSPECTOR_FRAME (inspector_frame_json
          \<lparr>if_direction = direction_name d, if_line = to_line E f, if_method = label,
           if_intercepted = True\<rparr>))"

definition relay_frame_task ::
  "('i, 'a) relay_env_scheme \<Rightarrow> direction \<Rightarrow> frame \<Rightarrow> ('i relay, unit) task" where
  "relay_frame_task E d f0 =
     bind_task (rebind_task d f0)
       (\<lambda>f1. bind_task (add_servers_task E d f1)
       (\<lambda>f. bind_task (observe_task E d f)
       (\<lambda>(label, ends_turn). bind_task (ask_interceptor_task E d f)
       (\<lambda>disposition. dispose_task E d f label ends_turn disposition))))"

section \<open>\<open>handle\<close>\<close>

definition handle_task ::
  "('i, 'a) relay_env_scheme \<Rightarrow> direction \<Rightarrow> string \<Rightarrow> ('i relay, unit) task" where
  "handle_task E d line =
     (case parse E line of
        Inl _ \<Rightarrow> send_task d line
      | Inr f \<Rightarrow>
          if d = ClientToAgent \<and> extension_call f then handle_extension_task E f
          else bind_task
            (if d = ClientToAgent then answer_from_recording_task E f else Finished False)
            (\<lambda>answered. if answered then Finished () else relay_frame_task E d f))"

section \<open>An uninterrupted call is \<open>handle\<close>\<close>

lemma run_send [simp]: "run_task (send_task d l) r = ((), send_line d l r)"
  by (simp add: send_task_def)

lemma run_notify [simp]: "run_task (notify_task E m v) r = ((), notify_browser E m v r)"
  by (simp add: notify_task_def notify_browser_def to_browser_def split: sum.split)

lemma run_write_out [simp]: "run_task (write_out_task E out) r = ((), write_out E out r)"
  by (induction out arbitrary: r) (simp_all add: run_bind_task write_out_def case_prod_beta)

lemma run_announce [simp]: "run_task (announce_task E m b) r = ((), announce E m b r)"
  by (simp add: announce_task_def announce_def run_bind_task case_prod_beta Let_def)

lemma run_announce_after [simp]:
  "run_task (announce_after_task E d f l) r = ((), announce_after_handshake E d f l r)"
  by (simp add: announce_after_task_def announce_after_handshake_def split: option.split)

lemma run_reask_lines:
  "run_task (reask_lines (map (to_line E) fs)) r = ((), foldl (\<lambda>r f. to_browser E f r) r fs)"
  by (induction fs arbitrary: r) (simp_all add: to_browser_def)

lemma run_reask [simp]: "run_task (reask_task E) r = ((), reask_unanswered E r)"
  by (simp add: reask_task_def run_reask_lines reask_unanswered_def)

lemma run_extension [simp]: "run_task (handle_extension_task E f) r = ((), handle_extension E f r)"
  by (simp add: handle_extension_task_def handle_extension_def run_bind_task to_browser_def Let_def
      split: frame.split)

lemma run_recording [simp]:
  "run_task (answer_from_recording_task E f) r = answer_from_recording E f r"
  by (simp add: answer_from_recording_task_def answer_from_recording_def run_bind_task to_browser_def
      case_prod_beta Let_def split: frame.split option.split)

lemma run_rebind [simp]: "run_task (rebind_task d f) r = rebind d f r"
  by (simp add: rebind_task_def rebind_def run_bind_task case_prod_beta Let_def
      split: direction.split frame.split)

lemma run_add_servers [simp]: "run_task (add_servers_task E d f) r = add_servers E d f r"
  by (simp add: add_servers_task_def add_servers_def run_bind_task case_prod_beta Let_def)

lemma run_forget [simp]: "run_task (forget_questions_task E sid) r = ((), forget_questions E sid r)"
  by (simp add: forget_questions_task_def forget_questions_def run_bind_task)

lemma run_ended_turn [simp]:
  "run_task (ended_turn_task d f label) r = (ended_turn d f label (sessions r), r)"
  by (simp add: ended_turn_task_def ended_turn_def)

lemma run_settle [simp]:
  "run_task (settle_task d f) r = ((), r\<lparr>unanswered := settle_unanswered d f (unanswered r)\<rparr>)"
  by (simp add: settle_task_def settle_unanswered_def split: direction.split frame.split)

lemma run_keep [simp]:
  "run_task (keep_task d f label) r = ((), r\<lparr>handshake := keep_answer d f label (handshake r)\<rparr>)"
  by (simp add: keep_task_def keep_answer_def
      split: direction.split frame.split response_payload.split option.split)

lemma run_observe [simp]:
  "run_task (observe_task E d f) r =
     (let (label, ends_turn, r') = observe_frame E d f r in ((label, ends_turn), r'))"
  by (simp add: observe_task_def observe_frame_def run_bind_task case_prod_beta Let_def
      split: option.split)

lemma run_ask [simp]: "run_task (ask_interceptor_task E d f) r = ask_interceptor E d f r"
  by (simp add: ask_interceptor_task_def ask_interceptor_def run_bind_task case_prod_beta Let_def)

lemma run_forward [simp]: "run_task (forward_task E d f e) r = ((), forward E d f e r)"
  by (simp add: forward_task_def forward_def run_bind_task case_prod_beta Let_def
      split: direction.split frame.split option.split)

lemma run_dispose [simp]: "run_task (dispose_task E d f l e disp) r = ((), dispose E d f l e disp r)"
  by (cases d; cases "is_request f")
     (simp_all add: dispose_task_def dispose_def run_bind_task Let_def split: disposition.split)

lemma run_relay_frame [simp]: "run_task (relay_frame_task E d f) r = ((), relay_frame E d f r)"
  by (simp add: relay_frame_task_def relay_frame_def run_bind_task case_prod_beta Let_def)

lemma run_handle_task: "run_task (handle_task E d line) r = ((), handle E d line r)"
  by (simp add: handle_task_def handle_def run_bind_task case_prod_beta Let_def split: sum.split)

end
