(* ===== verification/Live.thy ===== *)
theory Live
  imports Relay_Tasks
begin

text \<open>
  A connection of \<open>crates/mjx-acp-server/src/relay.rs\<close> with the tasks that run on it: the one
  that reads the agent, one reader for each socket, and the calls of \<open>Connection::attach\<close>.
  Calls of \<open>handle\<close> are the trees of theory \<open>Relay_Tasks\<close>, a call of \<open>attach\<close> is a stage of its
  socket; a step runs one section of one of them.
\<close>

section \<open>State\<close>

text \<open>
  How far a socket's \<open>attach\<close> has come, with what it holds in local variables: the reader it
  evicted, the number and the channel of its attachment, why it ended.
\<close>

datatype stage =
    AwaitIds
  | AwaitHandshake
  | AtTake
  | AtNotice "nat option"
  | AtSwap "nat option"
  | AtEvict "nat option" "64 word" nat
  | AtSpawn "64 word" nat
  | AtStore "64 word" nat
  | AtSubscribe "64 word" nat
  | Serving "64 word" nat
  | AtAbort "64 word" nat detached
  | AtDetach "64 word" nat detached
  | AtWriter "64 word" nat detached
  | AtClear "64 word"
  | AtReturn
  | Returned

type_synonym 'i call = "(string \<times> ('i relay, unit) task) option"

text \<open>
  A socket's reader runs from its spawning to its end; a task told to abort ends where it
  next waits.
\<close>

record 'i socket =
  so_stage :: stage
  so_reading :: bool
  so_aborted :: bool
  so_call :: "'i call"

definition new_socket :: "'i socket" where
  "new_socket = \<lparr>so_stage = AwaitIds, so_reading = False, so_aborted = False, so_call = None\<rparr>"

text \<open>
  The connection's \<open>reader\<close> is a number and a handle to abort by; \<open>reader_handle\<close> is the handle,
  the socket whose reader it is.
\<close>

record 'i live =
  conn :: "'i connection"
  reader_handle :: "nat option"
  sockets :: "'i socket list"
  agent_reading :: bool
  agent_call :: "'i call"

definition new_live :: "'i connection \<Rightarrow> 'i live" where
  "new_live c = \<lparr>conn = c, reader_handle = None, sockets = [], agent_reading = True, agent_call = None\<rparr>"

definition live_relay :: "'i live \<Rightarrow> 'i relay" where
  "live_relay v = relay_of (conn v)"

definition set_relay :: "'i relay \<Rightarrow> 'i live \<Rightarrow> 'i live" where
  "set_relay r v = v\<lparr>conn := (conn v)\<lparr>relay_of := r\<rparr>\<rparr>"

definition on_socket :: "nat \<Rightarrow> ('i socket \<Rightarrow> 'i socket) \<Rightarrow> 'i live \<Rightarrow> 'i live" where
  "on_socket k f v = v\<lparr>sockets := (sockets v)[k := f (sockets v ! k)]\<rparr>"

definition set_stage :: "nat \<Rightarrow> stage \<Rightarrow> 'i live \<Rightarrow> 'i live" where
  "set_stage k st = on_socket k (\<lambda>s. s\<lparr>so_stage := st\<rparr>)"

section \<open>Calls of \<open>handle\<close>\<close>

definition in_call :: "string \<Rightarrow> ('i relay, unit) task \<Rightarrow> 'i call" where
  "in_call line t = (case t of Finished _ \<Rightarrow> None | Section p f \<Rightarrow> Some (line, t))"

definition begin_call :: "('i, 'a) relay_env_scheme \<Rightarrow> direction \<Rightarrow> string \<Rightarrow> 'i call" where
  "begin_call E d line = in_call line (handle_task E d line)"

fun at_point :: "'i call \<Rightarrow> point option" where
  "at_point (Some (line, Section p f)) = Some p"
| "at_point _ = None"

definition at_await :: "'i call \<Rightarrow> bool" where
  "at_await c \<longleftrightarrow> (case at_point c of Some (Awaits l) \<Rightarrow> True | _ \<Rightarrow> False)"

definition lock_held :: "lock \<Rightarrow> 'i live \<Rightarrow> bool" where
  "lock_held l v \<longleftrightarrow> at_point (agent_call v) = Some (Holds l) \<or>
     list_ex (\<lambda>s. at_point (so_call s) = Some (Holds l)) (sockets v)"

definition can_run :: "'i call \<Rightarrow> 'i live \<Rightarrow> bool" where
  "can_run c v \<longleftrightarrow> (case at_point c of
       None \<Rightarrow> False
     | Some (Awaits l) \<Rightarrow> \<not> lock_held l v
     | Some _ \<Rightarrow> True)"

fun advance :: "'i call \<Rightarrow> 'i relay \<Rightarrow> 'i call \<times> 'i relay" where
  "advance (Some (line, Section p f)) r = (let (r', t) = f r in (in_call line t, r'))"
| "advance c r = (c, r)"

section \<open>Calls of \<open>attach\<close>\<close>

definition notice :: "('i, 'a) relay_env_scheme \<Rightarrow> nat option \<Rightarrow> 'i relay \<Rightarrow> 'i relay" where
  "notice E evicted r =
     (if evicted \<noteq> None then notify_browser E CONNECTION_TAKEN_OVER (JObject []) r else r)"

definition attach_step :: "('i, 'a) relay_env_scheme \<Rightarrow> nat \<Rightarrow> 'i live \<Rightarrow> 'i live" where
  "attach_step E k v =
     (let r = live_relay v; c = conn v in
      case so_stage (sockets v ! k) of
        AwaitIds \<Rightarrow> set_stage k AwaitHandshake (set_relay (r\<lparr>ids := bridge_reattach (ids r)\<rparr>) v)
      | AwaitHandshake \<Rightarrow>
          set_stage k AtTake (set_relay (r\<lparr>handshake := handshake_reattach (handshake r)\<rparr>) v)
      | AtTake \<Rightarrow> set_stage k (AtNotice (reader_handle v))
          (v\<lparr>conn := c\<lparr>reader := None\<rparr>, reader_handle := None\<rparr>)
      | AtNotice evicted \<Rightarrow> set_stage k (AtSwap evicted) (set_relay (notice E evicted r) v)
      | AtSwap evicted \<Rightarrow>
          let (g, n, sink) = sink_attach (to_browser_sink r)
          in set_stage k (AtEvict evicted g n) (set_relay (r\<lparr>to_browser_sink := sink\<rparr>) v)
      | AtEvict evicted g n \<Rightarrow> set_stage k (AtSpawn g n)
          (case evicted of
             None \<Rightarrow> v
           | Some j \<Rightarrow> on_socket j (\<lambda>s. s\<lparr>so_aborted := True\<rparr>) v)
      | AtSpawn g n \<Rightarrow> set_stage k (AtStore g n) (on_socket k (\<lambda>s. s\<lparr>so_reading := True\<rparr>) v)
      | AtStore g n \<Rightarrow> set_stage k (AtSubscribe g n)
          (v\<lparr>conn := c\<lparr>reader := Some g\<rparr>, reader_handle := Some k\<rparr>)
      | AtSubscribe g n \<Rightarrow> set_stage k (Serving g n)
          (v\<lparr>conn := c\<lparr>watchers := watchers c + 1\<rparr>\<rparr>)
      | Serving g n \<Rightarrow> v
      | AtAbort g n why \<Rightarrow> set_stage k (AtDetach g n why) (on_socket k (\<lambda>s. s\<lparr>so_aborted := True\<rparr>) v)
      | AtDetach g n why \<Rightarrow> set_stage k (AtWriter g n why)
          (set_relay (r\<lparr>to_browser_sink := sink_detach g (to_browser_sink r)\<rparr>) v)
      | AtWriter g n why \<Rightarrow> set_stage k (AtClear g)
          (if why = TakenOver then v
           else set_relay (r\<lparr>to_browser_sink := close_channel n (to_browser_sink r)\<rparr>) v)
      | AtClear g \<Rightarrow> set_stage k AtReturn
          (if reader c = Some g then v\<lparr>conn := c\<lparr>reader := None\<rparr>, reader_handle := None\<rparr> else v)
      | AtReturn \<Rightarrow> set_stage k Returned (v\<lparr>conn := c\<lparr>watchers := watchers c - 1\<rparr>\<rparr>)
      | Returned \<Rightarrow> v)"

text \<open>The wait ends, because the reader has or because the agent is gone.\<close>

definition wait_ends :: "nat \<Rightarrow> bool \<Rightarrow> 'i live \<Rightarrow> 'i live" where
  "wait_ends k reader_ended v =
     (case so_stage (sockets v ! k) of
        Serving g n \<Rightarrow>
          if (if reader_ended then \<not> so_reading (sockets v ! k) else \<not> agent_alive (conn v))
          then set_stage k (AtAbort g n (detached_by reader_ended g (conn v))) v
          else v
      | _ \<Rightarrow> v)"

section \<open>Steps\<close>

text \<open>
  A reader takes a line when it is not in a call, aborted or not, since a task that is
  running does not see the abort; it ends with its socket's stream, or, aborted, wherever
  it waits: for a line or for a lock. \<open>Writes\<close> are the lines of the interceptor's tasks
  and of the agent's diagnostics, \<open>InterceptorMoves\<close> is what those tasks make of the
  interceptor's state.
\<close>

datatype 'i live_event =
    Arrive
  | Proceed nat
  | WaitEnds nat bool
  | TakesLine nat string
  | RunsReader nat
  | CutReader nat
  | HangsUp nat
  | AgentSays string
  | RunsAgent
  | AgentEnds
  | Writes direction frame
  | InterceptorMoves 'i
  | WriterGone nat

fun live_step :: "('i, 'a) relay_env_scheme \<Rightarrow> 'i live \<Rightarrow> 'i live_event \<Rightarrow> 'i live" where
  "live_step E v Arrive = v\<lparr>sockets := sockets v @ [new_socket]\<rparr>"
| "live_step E v (Proceed k) = (if k < length (sockets v) then attach_step E k v else v)"
| "live_step E v (WaitEnds k b) = (if k < length (sockets v) then wait_ends k b v else v)"
| "live_step E v (TakesLine k line) =
     (if k < length (sockets v) \<and> so_reading (sockets v ! k) \<and> so_call (sockets v ! k) = None
      then on_socket k (\<lambda>s. s\<lparr>so_call := begin_call E ClientToAgent line\<rparr>) v else v)"
| "live_step E v (RunsReader k) =
     (if k < length (sockets v) \<and> can_run (so_call (sockets v ! k)) v
      then let (c, r) = advance (so_call (sockets v ! k)) (live_relay v)
           in on_socket k (\<lambda>s. s\<lparr>so_call := c\<rparr>) (set_relay r v)
      else v)"
| "live_step E v (CutReader k) =
     (if k < length (sockets v) \<and> so_aborted (sockets v ! k) \<and> (so_call (sockets v ! k) = None \<or> at_await (so_call (sockets v ! k)))
      then on_socket k (\<lambda>s. s\<lparr>so_reading := False, so_call := None\<rparr>) v else v)"
| "live_step E v (HangsUp k) =
     (if k < length (sockets v) \<and> so_call (sockets v ! k) = None
      then on_socket k (\<lambda>s. s\<lparr>so_reading := False\<rparr>) v else v)"
| "live_step E v (AgentSays line) =
     (if agent_reading v \<and> agent_call v = None
      then v\<lparr>agent_call := begin_call E AgentToClient line\<rparr> else v)"
| "live_step E v RunsAgent =
     (if can_run (agent_call v) v
      then let (c, r) = advance (agent_call v) (live_relay v)
           in (set_relay r v)\<lparr>agent_call := c\<rparr>
      else v)"
| "live_step E v AgentEnds =
     (if agent_reading v \<and> agent_call v = None
      then v\<lparr>conn := agent_gone (conn v), agent_reading := False\<rparr> else v)"
| "live_step E v (Writes d f) = set_relay (send_line d (to_line E f) (live_relay v)) v"
| "live_step E v (InterceptorMoves i) = set_relay ((live_relay v)\<lparr>interceptor := i\<rparr>) v"
| "live_step E v (WriterGone n) =
     set_relay ((live_relay v)\<lparr>to_browser_sink := sink_step (to_browser_sink (live_relay v)) (WriterEnds n)\<rparr>) v"

definition live_run :: "('i, 'a) relay_env_scheme \<Rightarrow> 'i live \<Rightarrow> 'i live_event list \<Rightarrow> 'i live" where
  "live_run E v evs = foldl (live_step E) v evs"

lemma live_run_simps [simp]:
  "live_run E v [] = v" "live_run E v (e # evs) = live_run E (live_step E v e) evs"
  "live_run E v (xs @ ys) = live_run E (live_run E v xs) ys"
  by (simp_all add: live_run_def)

lemma live_accessors [simp]:
  "live_relay (set_relay r v) = r" "live_relay (on_socket k f v) = live_relay v"
  "live_relay (set_stage k st v) = live_relay v"
  "sockets (set_relay r v) = sockets v" "agent_call (set_relay r v) = agent_call v"
  "agent_call (on_socket k f v) = agent_call v" "agent_call (set_stage k st v) = agent_call v"
  "reader_handle (set_relay r v) = reader_handle v" "reader_handle (on_socket k f v) = reader_handle v"
  "reader_handle (set_stage k st v) = reader_handle v"
  "agent_reading (set_relay r v) = agent_reading v" "agent_reading (on_socket k f v) = agent_reading v"
  "agent_reading (set_stage k st v) = agent_reading v"
  "conn (on_socket k f v) = conn v" "conn (set_stage k st v) = conn v"
  "length (sockets (on_socket k f v)) = length (sockets v)"
  "length (sockets (set_stage k st v)) = length (sockets v)"
  by (simp_all add: live_relay_def set_relay_def on_socket_def set_stage_def)

lemma socket_on_socket:
  "k < length (sockets v) \<Longrightarrow> sockets (on_socket k f v) ! j = (if j = k then f (sockets v ! k) else sockets v ! j)"
  by (simp add: on_socket_def nth_list_update)

lemma socket_set_stage:
  "k < length (sockets v) \<Longrightarrow>
     sockets (set_stage k st v) ! j = (if j = k then (sockets v ! k)\<lparr>so_stage := st\<rparr> else sockets v ! j)"
  by (simp add: set_stage_def socket_on_socket)

end
