(* ===== verification/Connection.thy ===== *)
theory Connection
  imports Relay_Props
begin

text \<open>
  What a connection promises of the sockets that attach to it, one after the other, and
  the concrete runs of the relay that the witnesses of \<open>Relay_Props\<close> and of this theory
  evaluate.
\<close>

section \<open>Taking over\<close>

lemma notify_sink_generation [simp]:
  "generation (notify_sink E m v s) = generation s"
  "length (channels (notify_sink E m v s)) = length (channels s)"
  by (simp_all add: notify_sink_def sink_send_def split: sum.split option.split)

lemma attach_begin_eq:
  "attach_begin E c =
     (let r = relay_of c;
          s = (if reader c \<noteq> None
               then notify_sink E CONNECTION_TAKEN_OVER (JObject []) (to_browser_sink r) else to_browser_sink r)
      in (generation s + 1, length (channels s),
          c\<lparr>relay_of := r\<lparr>ids := bridge_reattach (ids r), handshake := handshake_reattach (handshake r),
                           to_browser_sink := s\<lparr>generation := generation s + 1,
                             sender := Some (length (channels s)),
                             channels := channels s @ [\<lparr>ch_lines = [], ch_closed = False\<rparr>]\<rparr>\<rparr>,
            reader := Some (generation s + 1), watchers := watchers c + 1\<rparr>))"
  by (simp add: attach_begin_def attach_swap_def attach_reset_def notify_browser_eq sink_attach_def Let_def)

lemma takeover_outcome:
  assumes "attach_begin E c = (g, n, c1)" and "attach_begin E c1 = (g', n', c2)"
  shows "connection_attached c2" "reader c2 = Some g'" "detached_by True g c2 = TakenOver"
    "attach_end g n TakenOver c2 = c2\<lparr>watchers := watchers c2 - 1\<rparr>" "agent_alive c2 = agent_alive c"
    "watchers c2 = watchers c + 2"
proof -
  have g: "g' = g + 1" "generation (to_browser_sink (relay_of c2)) = g'" "reader c2 = Some g'"
    "agent_alive c2 = agent_alive c" "watchers c2 = watchers c + 2"
    using assms by (auto simp: attach_begin_eq Let_def)
  have "connection_attached c2"
    using assms(2) by (auto simp: attach_begin_eq Let_def connection_attached_def is_attached_def nth_append)
  moreover have "g \<noteq> g + 1" by simp
  ultimately show "connection_attached c2" "reader c2 = Some g'" "detached_by True g c2 = TakenOver"
    "attach_end g n TakenOver c2 = c2\<lparr>watchers := watchers c2 - 1\<rparr>" "agent_alive c2 = agent_alive c"
    "watchers c2 = watchers c + 2"
    using g by (simp_all add: detached_by_def is_current_def attach_end_def sink_detach_def Let_def)
qed

text \<open>The end of the agent's output is only seen where somebody is attached.\<close>

lemma finished_if_watched: "is_finished (agent_gone c) \<longleftrightarrow> is_finished c \<or> watchers c \<noteq> 0"
  by (simp add: agent_gone_def is_finished_def)

text \<open>
  C12: The second socket always wins, and the first is told: when a socket attaches while another
  is attached, the last line the displaced socket gets is the notice that it has been taken over, if
  the notice could be built; the new socket is the one attached; and whatever the
  displaced socket's task does on its way out changes nothing but that it no longer watches.
\<close>

theorem takeover_is_clean:
  assumes "attach_begin E c = (g, n, c1)" and "attach_begin E c1 = (g', n', c2)"
    and "ser_value E (JObject []) = Inr raw"
  shows "ch_lines (channels (to_browser_sink (relay_of c2)) ! n) =
      [to_line E (Notification CONNECTION_TAKEN_OVER (Some raw))] \<and>
    connection_attached c2 \<and> reader c2 = Some g' \<and>
    detached_by True g c2 = TakenOver \<and> attach_end g n TakenOver c2 = c2\<lparr>watchers := watchers c2 - 1\<rparr>"
proof -
  have c1: "sender (to_browser_sink (relay_of c1)) = Some n" "n < length (channels (to_browser_sink (relay_of c1)))"
      "channels (to_browser_sink (relay_of c1)) ! n = \<lparr>ch_lines = [], ch_closed = False\<rparr>"
      "reader c1 = Some g"
    using assms(1) by (auto simp: attach_begin_eq Let_def)
  have "channels (to_browser_sink (relay_of c2)) =
      channels (notify_sink E CONNECTION_TAKEN_OVER (JObject []) (to_browser_sink (relay_of c1))) @
      [\<lparr>ch_lines = [], ch_closed = False\<rparr>]"
    using assms(2) c1(4) by (auto simp: attach_begin_eq Let_def)
  then have "ch_lines (channels (to_browser_sink (relay_of c2)) ! n) =
      [to_line E (Notification CONNECTION_TAKEN_OVER (Some raw))]"
    using c1 assms(3) by (simp add: notify_sink_def notification_def sink_send_def nth_append)
  with takeover_outcome [OF assms(1,2)] show ?thesis by simp
qed

section \<open>A frame between the two halves of an attach\<close>

text \<open>A browser's request that nothing intercepts, with no MCP servers configured.\<close>

lemma relay_request:
  fixes i :: request_id
  assumes "mcp_servers_of r = []" and "passes E r ClientToAgent (Request (IdNumber (next_id (ids r) + 1)) m p)"
  defines "r' \<equiv> relay_frame E ClientToAgent (Request i m p) r"
  shows "ids r' = snd (for_agent i (ids r)) \<and> to_browser_sink r' = to_browser_sink r \<and>
    interceptor r' = interceptor r \<and> peek (correlator_of r') ClientToAgent (IdNumber (next_id (ids r) + 1)) = Some m"
proof -
  let ?f = "Request (IdNumber (next_id (ids r) + 1)) m p"
  let ?r1 = "r\<lparr>ids := snd (for_agent i (ids r))\<rparr>"
  have b: "rebind ClientToAgent (Request i m p) r = (?f, ?r1)"
    by (simp add: rebind_def for_agent_def Let_def)
  have m: "add_servers E ClientToAgent ?f ?r1 = (?f, ?r1)"
    using assms(1) by (simp add: add_servers_def)
  obtain l e r2 where o: "observe_frame E ClientToAgent ?f ?r1 = (l, e, r2)"
    and r2: "ids r2 = ids ?r1" "to_browser_sink r2 = to_browser_sink r" "interceptor r2 = interceptor r"
      "peek (correlator_of r2) ClientToAgent (IdNumber (next_id (ids r) + 1)) = Some m"
    by (simp add: observe_frame_def ended_turn_def case_prod_beta Let_def peek_def)
  have "passes E r2 ClientToAgent ?f" using assms(2) r2(3) by (simp add: passes_def)
  then have "r' = forward E ClientToAgent ?f e r2"
    by (simp add: r'_def relay_frame_def b m o ask_passes dispose_def announce_after_handshake_def)
  with r2 show ?thesis by (simp add: forward_client send_line_simps)
qed

text \<open>An answer to a request the bridge still knows goes to the socket attached now.\<close>

lemma relay_response:
  assumes "peek (correlator_of r) ClientToAgent j = Some m" and "m \<noteq> INITIALIZE"
    and "hm_get (outstanding (ids r)) j = Some i" and "passes E r AgentToClient (Response j payload)"
  shows "to_browser_sink (relay_frame E AgentToClient (Response j payload) r) =
    sink_send (to_line E (Response i payload)) (to_browser_sink r)"
proof -
  let ?f = "Response j payload"
  obtain e r1 where o: "observe_frame E AgentToClient ?f r = (Some m, e, r1)"
    and r1: "ids r1 = ids r" "to_browser_sink r1 = to_browser_sink r" "interceptor r1 = interceptor r"
    using assms(1)
    by (cases "ended_turn AgentToClient ?f (Some m) (sessions r)")
       (auto simp: observe_frame_def peek_def forget_questions_def case_prod_beta Let_def)
  have "passes E r1 AgentToClient ?f" using assms(4) r1(3) by (simp add: passes_def)
  then have "relay_frame E AgentToClient ?f r = forward E AgentToClient ?f e r1"
    using assms(2)
    by (simp add: relay_frame_agent o ask_passes dispose_def announce_after_handshake_def announce_def)
  with assms(3) r1 show ?thesis
    by (simp add: forward_def for_browser_def send_line_simps Let_def)
qed

lemma attach_swap_relay:
  obtains s where "relay_of (snd (snd (attach_swap E c))) = (relay_of c)\<lparr>to_browser_sink := s\<rparr>"
    "sender s = Some (fst (snd (attach_swap E c)))" "fst (snd (attach_swap E c)) < length (channels s)"
    "channels s ! fst (snd (attach_swap E c)) = \<lparr>ch_lines = [], ch_closed = False\<rparr>"
proof (cases "reader c")
  case None
  then show ?thesis
    by (intro that [of "snd (snd (sink_attach (to_browser_sink (relay_of c))))"])
       (simp_all add: attach_swap_def sink_attach_def Let_def)
next
  case (Some g)
  then show ?thesis
    by (intro that [of "snd (snd (sink_attach (notify_sink E CONNECTION_TAKEN_OVER (JObject [])
          (to_browser_sink (relay_of c)))))"])
       (simp_all add: attach_swap_def sink_attach_def notify_browser_eq Let_def nth_append)
qed

text \<open>
  C11: The bridge is emptied before the displaced socket's reader is ended, and that reader
  can still be served in between: a request it gets in then is owed to it but recorded as
  the new browser's, and the agent's answer to it is the first thing the new browser
  receives, under an id it never used.
\<close>

theorem late_request_is_answered_to_successor:
  fixes payload :: response_payload
  assumes "mcp_servers_of (relay_of c) = []"
    and "parse E line = Inr (Request i m p)"
    and "\<not> is_extension m" and "m \<noteq> INITIALIZE" and "m \<noteq> SESSION_NEW"
    and "\<And>r d f. passes E r d f"
    and "parse E answer = Inr (Response (IdNumber (next_id (ids (relay_of c)) + 1)) payload)"
  defines "c0 \<equiv> attach_reset c"
  defines "c1 \<equiv> c0\<lparr>relay_of := handle E ClientToAgent line (relay_of c0)\<rparr>"
  defines "n \<equiv> fst (snd (attach_swap E c1))" and "c2 \<equiv> snd (snd (attach_swap E c1))"
  defines "r3 \<equiv> handle E AgentToClient answer (relay_of c2)"
  shows "ch_lines (channels (to_browser_sink r3) ! n) = [to_line E (Response i payload)]"
proof -
  let ?j = "IdNumber (next_id (ids (relay_of c)) + 1)"
  have c0: "mcp_servers_of (relay_of c0) = []" "next_id (ids (relay_of c0)) = next_id (ids (relay_of c))"
    using assms(1) by (simp_all add: c0_def attach_reset_def bridge_reattach_def Let_def)
  have "answer_from_recording E (Request i m p) (relay_of c0) = (False, relay_of c0)"
    using assms(4,5) by (simp add: answer_from_recording_def recorded_def)
  then have "relay_of c1 = relay_frame E ClientToAgent (Request i m p) (relay_of c0)"
    using assms(2,3) by (simp add: c1_def handle_def extension_call_def)
  then have r1: "ids (relay_of c1) = snd (for_agent i (ids (relay_of c0)))"
    "peek (correlator_of (relay_of c1)) ClientToAgent ?j = Some m"
    using relay_request [OF c0(1) assms(6), of i] c0(2) by simp_all
  obtain s where c2: "relay_of c2 = (relay_of c1)\<lparr>to_browser_sink := s\<rparr>" and s: "sender s = Some n"
    "n < length (channels s)" "channels s ! n = \<lparr>ch_lines = [], ch_closed = False\<rparr>"
    unfolding c2_def n_def by (rule attach_swap_relay [of E c1])
  have "r3 = relay_frame E AgentToClient (Response ?j payload) (relay_of c2)"
    using assms(7) by (simp add: r3_def handle_agent_line)
  moreover have "peek (correlator_of (relay_of c2)) ClientToAgent ?j = Some m"
    and "hm_get (outstanding (ids (relay_of c2))) ?j = Some i"
    using r1 c0(2) by (simp_all add: c2 for_agent_def Let_def)
  ultimately have "to_browser_sink r3 = sink_send (to_line E (Response i payload)) s"
    using relay_response [of "relay_of c2" ?j m i E payload] assms(4,6) by (simp add: c2)
  with s show ?thesis by (simp add: sink_send_def)
qed

end
