(* ===== verification/Live_Props.thy ===== *)
theory Live_Props
  imports Live Connection
begin

text \<open>
  What a connection keeps when its tasks interleave: each component sees its operations one
  after the other, so that what is proved of the components holds; and an answer goes to
  whoever asked since the ids were last taken over.
\<close>

section \<open>What every section of a call does\<close>

primrec every :: "('s \<Rightarrow> 's \<Rightarrow> bool) \<Rightarrow> ('s, 'a) task \<Rightarrow> bool" where
  "every P (Finished x) \<longleftrightarrow> True"
| "every P (Section p f) \<longleftrightarrow> (\<forall>s. case map_prod id (every P) (f s) of (s', rest) \<Rightarrow> P s s' \<and> rest)"

lemma every_Section [simp]:
  "every P (Section p f) \<longleftrightarrow> (\<forall>s. P s (fst (f s)) \<and> every P (snd (f s)))"
  by (simp add: case_prod_beta)

declare every.simps(2) [simp del]

lemma every_bind: "every P t \<Longrightarrow> (\<And>x. every P (k x)) \<Longrightarrow> every P (bind_task t k)"
  by (induction t rule: task_induct) simp_all

lemma every_one_section:
  "every P (one_section p g) \<longleftrightarrow> (\<forall>s. P s (snd (g s)))"
  "every P (locked l g) \<longleftrightarrow> (\<forall>s. P s (snd (g s)))"
  "every P (sync g) \<longleftrightarrow> (\<forall>s. P s (snd (g s)))"
  by (simp_all add: one_section_def locked_def sync_def case_prod_beta Let_def)

text \<open>
  From one state of the relay to a later one each component has had operations of its own
  and nothing else, and the bridge has taken in ids of \<open>M\<close> only.
\<close>

definition observations :: "correlator \<Rightarrow> (direction \<times> frame) list \<Rightarrow> correlator" where
  "observations c h = foldl (\<lambda>c (d, f). snd (observe d f c)) c h"

definition moves ::
  "('a) acp_scheme \<Rightarrow> (request_id \<Rightarrow> bool) \<Rightarrow> (frame \<Rightarrow> bool) \<Rightarrow> 'i relay \<Rightarrow> 'i relay \<Rightarrow> bool" where
  "moves E M W r r' \<longleftrightarrow>
     (\<exists>ops. ids r' = foldl bridge_step (ids r) ops \<and> (\<forall>b. ForAgent b \<in> set ops \<longrightarrow> M b)) \<and>
     (\<exists>h. correlator_of r' = observations (correlator_of r) h \<and> (\<forall>f. (AgentToClient, f) \<in> set h \<longrightarrow> W f)) \<and>
     (\<exists>evs. sessions r' = store_run E (sessions r) evs \<and> (\<forall>f. FromAgent f \<in> set evs \<longrightarrow> W f)) \<and>
     (\<exists>ops. to_browser_sink r' = sink_run (to_browser_sink r) ops)"

lemma moves_trans: "moves E M W a b \<Longrightarrow> moves E M W b c \<Longrightarrow> moves E M W a c"
  unfolding moves_def observations_def store_run_def sink_run_def
proof (elim conjE exE, intro conjI)
  fix o1 o2 :: "bridge_op list"
  assume "ids b = foldl bridge_step (ids a) o1" "ids c = foldl bridge_step (ids b) o2"
    "\<forall>b. ForAgent b \<in> set o1 \<longrightarrow> M b" "\<forall>b. ForAgent b \<in> set o2 \<longrightarrow> M b"
  then show "\<exists>ops. ids c = foldl bridge_step (ids a) ops \<and> (\<forall>b. ForAgent b \<in> set ops \<longrightarrow> M b)"
    by (intro exI [of _ "o1 @ o2"]) auto
next
  fix h1 h2 :: "(direction \<times> frame) list"
  assume "correlator_of b = foldl (\<lambda>c (d, f). snd (observe d f c)) (correlator_of a) h1"
    "correlator_of c = foldl (\<lambda>c (d, f). snd (observe d f c)) (correlator_of b) h2"
    "\<forall>f. (AgentToClient, f) \<in> set h1 \<longrightarrow> W f" "\<forall>f. (AgentToClient, f) \<in> set h2 \<longrightarrow> W f"
  then show "\<exists>h. correlator_of c = foldl (\<lambda>c (d, f). snd (observe d f c)) (correlator_of a) h \<and>
      (\<forall>f. (AgentToClient, f) \<in> set h \<longrightarrow> W f)"
    by (intro exI [of _ "h1 @ h2"]) auto
next
  fix e1 e2
  assume "sessions b = foldl (store_step E) (sessions a) e1" "sessions c = foldl (store_step E) (sessions b) e2"
    "\<forall>f. FromAgent f \<in> set e1 \<longrightarrow> W f" "\<forall>f. FromAgent f \<in> set e2 \<longrightarrow> W f"
  then show "\<exists>evs. sessions c = foldl (store_step E) (sessions a) evs \<and> (\<forall>f. FromAgent f \<in> set evs \<longrightarrow> W f)"
    by (intro exI [of _ "e1 @ e2"]) auto
next
  fix s1 s2
  assume "to_browser_sink b = foldl sink_step (to_browser_sink a) s1"
    "to_browser_sink c = foldl sink_step (to_browser_sink b) s2"
  then show "\<exists>ops. to_browser_sink c = foldl sink_step (to_browser_sink a) ops"
    by (intro exI [of _ "s1 @ s2"]) simp
qed

lemma moves_mono:
  "moves E M W r r' \<Longrightarrow> (\<And>b. M b \<Longrightarrow> M' b) \<Longrightarrow> (\<And>f. W f \<Longrightarrow> W' f) \<Longrightarrow> moves E M' W' r r'"
  unfolding moves_def by meson

definition shifts :: "('a) acp_scheme \<Rightarrow> (request_id \<Rightarrow> bool) \<Rightarrow> 'i relay \<Rightarrow> 'i relay \<Rightarrow> bool" where
  "shifts E M = moves E M (\<lambda>_. True)"

lemma shifts_iff:
  "shifts E M r r' \<longleftrightarrow>
     (\<exists>ops. ids r' = foldl bridge_step (ids r) ops \<and> (\<forall>b. ForAgent b \<in> set ops \<longrightarrow> M b)) \<and>
     (\<exists>h. correlator_of r' = observations (correlator_of r) h) \<and>
     (\<exists>evs. sessions r' = store_run E (sessions r) evs) \<and>
     (\<exists>ops. to_browser_sink r' = sink_run (to_browser_sink r) ops)"
  by (simp add: shifts_def moves_def)

lemma shifts_mono: "shifts E M r r' \<Longrightarrow> (\<And>b. M b \<Longrightarrow> M' b) \<Longrightarrow> shifts E M' r r'"
  unfolding shifts_def by (rule moves_mono)

lemma shifts_trans: "shifts E M a b \<Longrightarrow> shifts E M b c \<Longrightarrow> shifts E M a c"
  unfolding shifts_def by (rule moves_trans)

lemma steps_nil:
  "\<exists>ops. b = foldl bridge_step b ops \<and> (\<forall>i. ForAgent i \<in> set ops \<longrightarrow> M i)"
  "\<exists>h. c = observations c h \<and> (\<forall>f. (AgentToClient, f) \<in> set h \<longrightarrow> W f)"
  "\<exists>evs. s = store_run E s evs \<and> (\<forall>f. FromAgent f \<in> set evs \<longrightarrow> W f)"
  "\<exists>ops. k = sink_run k ops"
  by (rule exI [of _ "[]"], simp add: observations_def store_run_def sink_run_def)+

lemma steps_one:
  "(d = AgentToClient \<Longrightarrow> W f) \<Longrightarrow>
     \<exists>h. snd (observe d f c) = observations c h \<and> (\<forall>f. (AgentToClient, f) \<in> set h \<longrightarrow> W f)"
  "(d = AgentToClient \<Longrightarrow> W f) \<Longrightarrow>
     \<exists>evs. observe_session E d f s = store_run E s evs \<and> (\<forall>f. FromAgent f \<in> set evs \<longrightarrow> W f)"
  "\<exists>evs. snd (cancel_session_elicitations sid s) = store_run E s evs \<and> (\<forall>f. FromAgent f \<in> set evs \<longrightarrow> W f)"
  by (rule exI [of _ "[(d, f)]"], simp add: observations_def)
     (rule exI [of _ "[case d of ClientToAgent \<Rightarrow> FromClient f | AgentToClient \<Rightarrow> FromAgent f]"],
      simp add: store_run_def observe_session_def split: direction.split,
      rule exI [of _ "[CancelQuestions sid]"], simp add: store_run_def)

lemma sink_one:
  "\<exists>ops. sink_send l k = sink_run k ops" "\<exists>ops. sink_detach g k = sink_run k ops"
  "\<exists>ops. snd (snd (sink_attach k)) = sink_run k ops" "\<exists>ops. sink_step k op = sink_run k ops"
  by (rule exI [of _ "[Send l]"], simp add: sink_run_def)
     (rule exI [of _ "[Detach g]"], simp add: sink_run_def, rule exI [of _ "[Attach]"], simp add: sink_run_def,
      rule exI [of _ "[op]"], simp add: sink_run_def)

lemma bridge_one:
  "M b \<Longrightarrow> \<exists>ops. snd (for_agent b i) = foldl bridge_step i ops \<and> (\<forall>b. ForAgent b \<in> set ops \<longrightarrow> M b)"
  "\<exists>ops. snd (for_browser b i) = foldl bridge_step i ops \<and> (\<forall>b. ForAgent b \<in> set ops \<longrightarrow> M b)"
  "\<exists>ops. bridge_reattach i = foldl bridge_step i ops \<and> (\<forall>b. ForAgent b \<in> set ops \<longrightarrow> M b)"
  by (rule exI [of _ "[ForAgent b]"], simp)
     (rule exI [of _ "[ForBrowser b]"], simp, rule exI [of _ "[Reattach]"], simp)

lemma moves_simps [simp]:
  "moves E M W r r"
  "moves E M W r (r\<lparr>handshake := h\<rparr>)" "moves E M W r (r\<lparr>unanswered := q\<rparr>)"
  "moves E M W r (r\<lparr>interceptor := i\<rparr>)"
  "(d = AgentToClient \<Longrightarrow> W f) \<Longrightarrow> moves E M W r (r\<lparr>correlator_of := snd (observe d f (correlator_of r))\<rparr>)"
  "(d = AgentToClient \<Longrightarrow> W f) \<Longrightarrow> moves E M W r (r\<lparr>sessions := observe_session E d f (sessions r)\<rparr>)"
  "moves E M W r (r\<lparr>sessions := snd (cancel_session_elicitations sid (sessions r))\<rparr>)"
  "moves E M W r (r\<lparr>ids := snd (for_browser j (ids r))\<rparr>)"
  "M b \<Longrightarrow> moves E M W r (r\<lparr>ids := snd (for_agent b (ids r))\<rparr>)"
  by (simp_all add: moves_def steps_nil steps_one bridge_one del: observe.simps)

lemma moves_send [simp]: "moves E M W r (send_line d l r)"
  by (cases d) (simp_all add: moves_def send_line_simps steps_nil sink_one)

lemma shifts_refl [simp]: "shifts E M r r"
  by (simp add: shifts_def)

section \<open>Calls\<close>

lemma every_send [simp]: "every (moves E M W) (send_task d l)"
  by (simp add: send_task_def every_one_section)

lemma every_notify [simp]: "every (moves E M W) (notify_task E' m v)"
  by (simp add: notify_task_def split: sum.split)

lemma every_write_out [simp]: "every (moves E M W) (write_out_task E' out)"
  by (induction out) (simp_all add: every_bind)

lemma every_announce [simp]: "every (moves E M W) (announce_task E' m b)"
  by (auto simp: announce_task_def every_one_section case_prod_beta Let_def intro!: every_bind)

lemma every_announce_after [simp]: "every (moves E M W) (announce_after_task E' d f l)"
  by (simp add: announce_after_task_def split: option.split)

lemma every_reask_lines [simp]: "every (moves E M W) (reask_lines ls)"
  by (induction ls) simp_all

lemma every_reask [simp]: "every (moves E M W) (reask_task E')"
  by (simp add: reask_task_def)

lemma every_extension [simp]: "every (moves E M W) (handle_extension_task E' f)"
  by (auto simp: handle_extension_task_def every_one_section intro!: every_bind split: frame.split)

lemma every_recording [simp]: "every (moves E M W) (answer_from_recording_task E' f)"
  by (auto simp: answer_from_recording_task_def every_one_section case_prod_beta Let_def
      intro!: every_bind split: frame.split option.split)

lemma every_rebind:
  "(\<And>i m p. d = ClientToAgent \<Longrightarrow> f = Request i m p \<Longrightarrow> M i) \<Longrightarrow> every (moves E M W) (rebind_task d f)"
  by (auto simp: rebind_task_def every_one_section case_prod_beta Let_def intro!: every_bind
      split: frame.split direction.split)

lemma every_add_servers [simp]: "every (moves E M W) (add_servers_task E' d f)"
  by (auto simp: add_servers_task_def every_one_section case_prod_beta Let_def intro!: every_bind)

lemma every_forget [simp]: "every (moves E M W) (forget_questions_task E' sid)"
  by (auto simp: forget_questions_task_def every_one_section intro!: every_bind)

lemma every_settle [simp]: "every (moves E M W) (settle_task d f)"
  by (simp add: settle_task_def every_one_section split: direction.split frame.split)

lemma every_keep [simp]: "every (moves E M W) (keep_task d f l)"
  by (simp add: keep_task_def every_one_section
      split: direction.split frame.split response_payload.split option.split)

lemma every_ended_turn [simp]: "every (moves E M W) (ended_turn_task d f l)"
  by (simp add: ended_turn_task_def every_one_section)

lemma every_observe [simp]: "(d = AgentToClient \<Longrightarrow> W f) \<Longrightarrow> every (moves E M W) (observe_task E d f)"
  by (auto simp: observe_task_def every_one_section case_prod_beta Let_def simp del: observe.simps
      intro!: every_bind split: option.split)

lemma every_ask [simp]: "every (moves E M W) (ask_interceptor_task E' d f)"
  by (auto simp: ask_interceptor_task_def every_one_section case_prod_beta Let_def intro!: every_bind)

lemma every_forward [simp]: "every (moves E M W) (forward_task E' d f e)"
  by (auto simp: forward_task_def every_one_section case_prod_beta Let_def intro!: every_bind
      split: direction.split frame.split option.split)

lemma every_dispose [simp]: "every (moves E M W) (dispose_task E' d f l e disp)"
  by (auto simp: dispose_task_def every_one_section intro!: every_bind split: disposition.split)

definition asks_as :: "('a) serde_scheme \<Rightarrow> string \<Rightarrow> request_id \<Rightarrow> bool" where
  "asks_as E line b \<longleftrightarrow> (case parse E line of Inr (Request i m p) \<Rightarrow> b = i | _ \<Rightarrow> False)"

lemma asks_as_iff: "asks_as E line b \<longleftrightarrow> (\<exists>m p. parse E line = Inr (Request b m p))"
  by (auto simp: asks_as_def split: sum.split frame.split)

lemma every_relay_frame:
  "(\<And>i m p. d = ClientToAgent \<Longrightarrow> f = Request i m p \<Longrightarrow> M i) \<Longrightarrow>
   (\<And>f. d = AgentToClient \<Longrightarrow> W f) \<Longrightarrow> every (moves E M W) (relay_frame_task E d f)"
  by (auto simp: relay_frame_task_def intro!: every_bind every_rebind)

lemma every_handle:
  "every (shifts E (\<lambda>b. d = ClientToAgent \<and> asks_as E line b)) (handle_task E d line)"
  unfolding shifts_def by (auto simp: handle_task_def asks_as_iff intro!: every_bind every_relay_frame split: sum.split)

section \<open>Runs\<close>

definition may_ask :: "('a) serde_scheme \<Rightarrow> direction \<Rightarrow> 'i call \<Rightarrow> request_id \<Rightarrow> bool" where
  "may_ask E d c b \<longleftrightarrow>
     d = ClientToAgent \<and> (case c of None \<Rightarrow> False | Some (line, t) \<Rightarrow> asks_as E line b)"

definition call_ok :: "('i, 'a) relay_env_scheme \<Rightarrow> direction \<Rightarrow> 'i call \<Rightarrow> bool" where
  "call_ok E d c \<longleftrightarrow> (case c of None \<Rightarrow> True | Some (line, t) \<Rightarrow>
     every (shifts E (\<lambda>b. d = ClientToAgent \<and> asks_as E line b)) t)"

lemma call_ok_simps [simp]:
  "call_ok E d None"
  "call_ok E d (Some (line, t)) \<longleftrightarrow> every (shifts E (\<lambda>b. d = ClientToAgent \<and> asks_as E line b)) t"
  by (simp_all add: call_ok_def)

lemma call_ok_begin [simp]: "call_ok E d (begin_call E d line)"
  using every_handle [of E d line]
  by (auto simp: begin_call_def in_call_def simp del: every_Section split: task.split)

lemma call_ok_in_call:
  "every (shifts E (\<lambda>b. d = ClientToAgent \<and> asks_as E line b)) t \<Longrightarrow> call_ok E d (in_call line t)"
  by (auto simp: in_call_def simp del: every_Section split: task.split)

lemma advance_ok:
  assumes "call_ok E d c"
  shows "call_ok E d (fst (advance c r)) \<and> shifts E (may_ask E d c) r (snd (advance c r))"
proof (cases c)
  case (Some x)
  obtain line t where x: "x = (line, t)" by (cases x)
  show ?thesis
  proof (cases t)
    case (Section p f)
    then have a: "advance c r = (in_call line (snd (f r)), fst (f r))"
      by (simp add: Some x case_prod_beta)
    have "shifts E (\<lambda>b. d = ClientToAgent \<and> asks_as E line b) r (fst (f r))"
      "every (shifts E (\<lambda>b. d = ClientToAgent \<and> asks_as E line b)) (snd (f r))"
      using assms by (simp_all add: Some x Section)
    with a show ?thesis
      by (auto simp: Some x may_ask_def intro: call_ok_in_call elim!: shifts_mono)
  qed (simp add: Some x)
qed simp

lemma advance_line:
  "fst (advance c r) = Some (line, t) \<Longrightarrow> \<exists>t0. c = Some (line, t0)"
  by (induction c r rule: advance.induct)
     (auto simp: case_prod_beta in_call_def Let_def split: task.splits)

definition reader_calls :: "'i live \<Rightarrow> 'i call set" where
  "reader_calls v = so_call ` set (sockets v)"

definition live_ok :: "('i, 'a) relay_env_scheme \<Rightarrow> 'i live \<Rightarrow> bool" where
  "live_ok E v \<longleftrightarrow> call_ok E AgentToClient (agent_call v) \<and>
     (\<forall>c \<in> reader_calls v. call_ok E ClientToAgent c)"

lemma reader_calls_nth: "k < length (sockets v) \<Longrightarrow> so_call (sockets v ! k) \<in> reader_calls v"
  by (simp add: reader_calls_def)

lemma reader_calls_on_socket: "reader_calls (on_socket k f v) \<subseteq> insert (so_call (f (sockets v ! k))) (reader_calls v)"
  using set_update_subset_insert [of "sockets v" k "f (sockets v ! k)"]
  by (auto simp: reader_calls_def on_socket_def)

lemma reader_calls_keep:
  assumes "\<And>s. so_call (f s) = so_call s"
  shows "reader_calls (on_socket k f v) = reader_calls v"
proof (cases "k < length (sockets v)")
  case True
  with assms have "map so_call ((sockets v)[k := f (sockets v ! k)]) = map so_call (sockets v)"
    by (simp add: map_update list_update_same_conv)
  then have "so_call ` set ((sockets v)[k := f (sockets v ! k)]) = so_call ` set (sockets v)"
    by (metis list.set_map)
  then show ?thesis by (simp add: reader_calls_def on_socket_def)
qed (simp add: reader_calls_def on_socket_def list_update_beyond)

lemma reader_calls_simps [simp]:
  "reader_calls (set_relay r v) = reader_calls v" "reader_calls (set_stage k st v) = reader_calls v"
  "reader_calls (v\<lparr>conn := c\<rparr>) = reader_calls v" "reader_calls (v\<lparr>reader_handle := h\<rparr>) = reader_calls v"
  "reader_calls (v\<lparr>agent_call := x\<rparr>) = reader_calls v" "reader_calls (v\<lparr>agent_reading := b\<rparr>) = reader_calls v"
  by (simp_all add: set_stage_def reader_calls_keep) (simp_all add: reader_calls_def)

lemma calls_attach_step [simp]:
  "reader_calls (attach_step E k v) = reader_calls v" "agent_call (attach_step E k v) = agent_call v"
  by (simp_all add: attach_step_def reader_calls_keep case_prod_beta Let_def split: stage.split option.split)

lemma calls_wait_ends [simp]:
  "reader_calls (wait_ends k b v) = reader_calls v" "agent_call (wait_ends k b v) = agent_call v"
  by (simp_all add: wait_ends_def split: stage.split)

text \<open>The calls of readers after a step: those before, one section on, or a new one.\<close>

fun taken_up :: "('i, 'a) relay_env_scheme \<Rightarrow> 'i live \<Rightarrow> 'i live_event \<Rightarrow> 'i call set" where
  "taken_up E v (TakesLine k line) = {begin_call E ClientToAgent line}"
| "taken_up E v (RunsReader k) =
     (if k < length (sockets v) then {fst (advance (so_call (sockets v ! k)) (live_relay v))} else {})"
| "taken_up E v _ = {}"

lemma reader_calls_step:
  "reader_calls (live_step E v ev) \<subseteq> insert None (taken_up E v ev \<union> reader_calls v)"
proof (cases ev)
  case (TakesLine k line)
  then show ?thesis
    using reader_calls_on_socket [of k "\<lambda>s. s\<lparr>so_call := begin_call E ClientToAgent line\<rparr>" v] by auto
next
  case (RunsReader k)
  let ?a = "advance (so_call (sockets v ! k)) (live_relay v)"
  show ?thesis
    using RunsReader reader_calls_on_socket [of k "\<lambda>s. s\<lparr>so_call := fst ?a\<rparr>" "set_relay (snd ?a) v"]
    by (auto simp: case_prod_beta)
next
  case (CutReader k)
  then show ?thesis
    using reader_calls_on_socket [of k "\<lambda>s. s\<lparr>so_reading := False, so_call := None\<rparr>" v] by auto
qed (auto simp: reader_calls_keep case_prod_beta, auto simp: reader_calls_def new_socket_def)

lemma agent_call_step:
  "agent_call (live_step E v ev) =
     (case ev of
        AgentSays line \<Rightarrow> if agent_reading v \<and> agent_call v = None then begin_call E AgentToClient line else agent_call v
      | RunsAgent \<Rightarrow> if can_run (agent_call v) v then fst (advance (agent_call v) (live_relay v)) else agent_call v
      | _ \<Rightarrow> agent_call v)"
  by (cases ev) (simp_all add: case_prod_beta)

lemma reader_calls_keep_inv:
  assumes "\<And>c r. P c \<Longrightarrow> P (fst (advance c r))" and "\<And>line. P (begin_call E ClientToAgent line)" and "P None"
    and "\<And>c. c \<in> reader_calls v \<Longrightarrow> P c" and "c \<in> reader_calls (live_step E v ev)"
  shows "P c"
proof -
  have "P x" if "x \<in> taken_up E v ev" for x
  proof (cases ev)
    case (RunsReader k)
    with that have k: "k < length (sockets v)" "x = fst (advance (so_call (sockets v ! k)) (live_relay v))"
      by (auto split: if_splits)
    with assms(4) [OF reader_calls_nth] show ?thesis by (simp add: assms(1))
  qed (use that assms(2) in auto)
  then show ?thesis using assms(3-5) reader_calls_step [of E v ev] by auto
qed

lemma agent_call_keep_inv:
  assumes "\<And>c r. P c \<Longrightarrow> P (fst (advance c r))" and "\<And>line. P (begin_call E AgentToClient line)"
    and "P (agent_call v)"
  shows "P (agent_call (live_step E v ev))"
  using assms by (simp add: agent_call_step split: live_event.split)

lemma live_ok_step:
  assumes "live_ok E v"
  shows "live_ok E (live_step E v ev)"
  unfolding live_ok_def
proof (intro conjI ballI)
  show "call_ok E AgentToClient (agent_call (live_step E v ev))"
    by (rule agent_call_keep_inv) (use assms in \<open>simp_all add: advance_ok live_ok_def\<close>)
  show "call_ok E ClientToAgent c" if "c \<in> reader_calls (live_step E v ev)" for c
    by (rule reader_calls_keep_inv [OF _ _ _ _ that]) (use assms in \<open>simp_all add: advance_ok live_ok_def\<close>)
qed


text \<open>The relay's components across a step.\<close>

lemma moves_set_fields:
  "moves E M W r (r\<lparr>ids := bridge_reattach (ids r)\<rparr>)"
  "moves E M W r (r\<lparr>to_browser_sink := snd (snd (sink_attach (to_browser_sink r)))\<rparr>)"
  "moves E M W r (r\<lparr>to_browser_sink := sink_detach g (to_browser_sink r)\<rparr>)"
  "moves E M W r (r\<lparr>to_browser_sink := sink_step (to_browser_sink r) op\<rparr>)"
  "moves E M W r (notify_browser E' m x r)"
  by (simp_all add: moves_def steps_nil steps_one sink_one bridge_one notify_browser_eq notify_sink_def
      split: sum.split)

lemma live_relay_fields [simp]:
  "live_relay (v\<lparr>reader_handle := h\<rparr>) = live_relay v" "live_relay (v\<lparr>agent_call := x\<rparr>) = live_relay v"
  "live_relay (v\<lparr>sockets := ss\<rparr>) = live_relay v" "live_relay (v\<lparr>agent_reading := b\<rparr>) = live_relay v"
  "relay_of (conn v) = live_relay v"
  "live_relay (v\<lparr>conn := (conn v)\<lparr>reader := g\<rparr>\<rparr>) = live_relay v"
  "live_relay (v\<lparr>conn := (conn v)\<lparr>watchers := n\<rparr>\<rparr>) = live_relay v"
  "live_relay (v\<lparr>conn := agent_gone (conn v)\<rparr>) = live_relay v"
  by (simp_all add: live_relay_def agent_gone_def)


lemma close_channel_step: "close_channel n s = sink_step s (WriterEnds n)"
  by (simp add: close_channel_def list_update_beyond)

lemma live_relay_set [simp]:
  "live_relay (v\<lparr>conn := c\<rparr>) = relay_of c"
  by (simp add: live_relay_def)

lemma moves_attach_step: "moves E M W (live_relay v) (live_relay (attach_step E' k v))"
  by (simp add: attach_step_def notice_def moves_set_fields close_channel_step case_prod_beta Let_def
      del: sink_step.simps split: stage.split option.split)

lemma moves_wait_ends: "live_relay (wait_ends k b v) = live_relay v"
  by (simp add: wait_ends_def split: stage.split)

definition step_asks :: "('a) serde_scheme \<Rightarrow> 'i live \<Rightarrow> 'i live_event \<Rightarrow> request_id \<Rightarrow> bool" where
  "step_asks E v ev b \<longleftrightarrow>
     (\<exists>k line t. ev = RunsReader k \<and> Some (line, t) \<in> reader_calls v \<and> asks_as E line b)"

lemma moves_step:
  assumes "live_ok E v"
  shows "shifts E (step_asks E v ev) (live_relay v) (live_relay (live_step E v ev))"
proof (cases ev)
  case (RunsReader k)
  show ?thesis
  proof (cases "k < length (sockets v)")
    case True
    let ?c = "so_call (sockets v ! k)"
    have "call_ok E ClientToAgent ?c" using assms True by (simp add: live_ok_def reader_calls_nth)
    then have "shifts E (may_ask E ClientToAgent ?c) (live_relay v) (snd (advance ?c (live_relay v)))"
      using advance_ok by blast
    moreover have "step_asks E v ev b" if "may_ask E ClientToAgent ?c b" for b
      using that reader_calls_nth [OF True] RunsReader
      by (fastforce simp: may_ask_def step_asks_def split: option.splits)
    ultimately have "shifts E (step_asks E v ev) (live_relay v) (snd (advance ?c (live_relay v)))"
      by (rule shifts_mono)
    with RunsReader show ?thesis by (simp add: case_prod_beta)
  qed (simp add: RunsReader)
next
  case RunsAgent
  have "call_ok E AgentToClient (agent_call v)" using assms by (simp add: live_ok_def)
  then have "shifts E (may_ask E AgentToClient (agent_call v)) (live_relay v)
      (snd (advance (agent_call v) (live_relay v)))"
    using advance_ok by blast
  then have "shifts E (step_asks E v ev) (live_relay v) (snd (advance (agent_call v) (live_relay v)))"
    by (rule shifts_mono) (simp add: may_ask_def)
  with RunsAgent show ?thesis by (simp add: case_prod_beta)
qed (simp_all add: shifts_def moves_attach_step moves_wait_ends moves_set_fields del: sink_step.simps)


lemma calls_grow:
  assumes "Some (line, t) \<in> reader_calls (live_step E v ev)"
  shows "(\<exists>t0. Some (line, t0) \<in> reader_calls v) \<or> (\<exists>k. ev = TakesLine k line)"
proof -
  have "Some (line, t) \<in> taken_up E v ev \<union> reader_calls v"
    using assms reader_calls_step [of E v ev] by auto
  then show ?thesis
  proof
    assume new: "Some (line, t) \<in> taken_up E v ev"
    show ?thesis
    proof (cases ev)
      case (RunsReader k)
      with new have "k < length (sockets v)"
        and c: "fst (advance (so_call (sockets v ! k)) (live_relay v)) = Some (line, t)"
        by (auto split: if_splits)
      with advance_line [OF c] show ?thesis using reader_calls_nth by metis
    qed (use new in \<open>auto simp: begin_call_def in_call_def split: task.splits\<close>)
  qed blast
qed

text \<open>
  The ids a run can put into the bridge are those of the requests its readers are at work on
  when it begins, and of those they take up.
\<close>

definition run_asks :: "('a) serde_scheme \<Rightarrow> 'i live \<Rightarrow> 'i live_event list \<Rightarrow> request_id \<Rightarrow> bool" where
  "run_asks E v evs b \<longleftrightarrow>
     (\<exists>line. asks_as E line b \<and>
        ((\<exists>t. Some (line, t) \<in> reader_calls v) \<or> (\<exists>k. TakesLine k line \<in> set evs)))"

lemma run_asks_Cons: "run_asks E (live_step E v ev) evs b \<Longrightarrow> run_asks E v (ev # evs) b"
  unfolding run_asks_def using calls_grow [of _ _ E v ev]
  by (metis list.set_intros(1) list.set_intros(2))

lemma moves_run:
  "live_ok E v \<Longrightarrow> shifts E (run_asks E v evs) (live_relay v) (live_relay (live_run E v evs))"
proof (induction evs arbitrary: v)
  case (Cons ev evs)
  have "shifts E (run_asks E v (ev # evs)) (live_relay v) (live_relay (live_step E v ev))"
    using moves_step [OF Cons.prems, of ev]
    by (rule shifts_mono) (auto simp: step_asks_def run_asks_def)
  moreover have "shifts E (run_asks E v (ev # evs)) (live_relay (live_step E v ev))
      (live_relay (live_run E (live_step E v ev) evs))"
    using Cons.IH [OF live_ok_step [OF Cons.prems]]
    by (rule shifts_mono) (rule run_asks_Cons)
  ultimately show ?case by (auto intro: shifts_trans)
qed simp

lemma live_ok_new [simp]: "live_ok E (new_live c)"
  by (simp add: live_ok_def new_live_def reader_calls_def)

lemma components_histories:
  fixes E :: "('i, 'a) relay_env_scheme" and i :: 'i and process info servers
    and evs :: "'i live_event list"
  defines "r \<equiv> live_relay (live_run E (new_live (start i process info servers)) evs)"
  shows "\<exists>ops h stored sent. ids r = bridge_run ops \<and> correlator_of r = observe_all h \<and>
    sessions r = store_run E new_store stored \<and> to_browser_sink r = sink_run new_sink sent"
proof -
  let ?v = "new_live (start i process info servers)"
  have "shifts E (run_asks E ?v evs) (live_relay ?v) r"
    unfolding r_def by (rule moves_run) simp
  moreover have "live_relay ?v = new_relay i info servers"
    by (simp add: live_relay_def new_live_def start_def)
  ultimately show ?thesis
    unfolding shifts_iff bridge_run_def observe_all_def observations_def
    by (simp add: new_relay_def) blast
qed


end
