(* ===== verification/Live_Order.thy ===== *)
theory Live_Order
  imports Live_Props
begin

text \<open>
  The agent is heard in order: whatever the readers of the sockets do meanwhile, the
  correlator and the session store take in the frames of the agent one by one as it
  writes them.
\<close>

section \<open>What a call has left to hear\<close>

primrec does :: "('x list \<Rightarrow> 's \<Rightarrow> 's \<Rightarrow> bool) \<Rightarrow> ('s, 'a) task \<Rightarrow> 'x list \<Rightarrow> bool" where
  "does R (Finished x) = (\<lambda>xs. xs = [])"
| "does R (Section p f) = (\<lambda>xs. \<forall>s. case map_prod id (does R) (f s) of
     (s', rest) \<Rightarrow> \<exists>ys zs. xs = ys @ zs \<and> R ys s s' \<and> rest zs)"

lemma does_Section [simp]:
  "does R (Section p f) xs \<longleftrightarrow>
     (\<forall>s. \<exists>ys zs. xs = ys @ zs \<and> R ys s (fst (f s)) \<and> does R (snd (f s)) zs)"
  by (simp add: case_prod_beta)

declare does.simps(2) [simp del]

lemma does_bind:
  assumes "does R t xs" and "\<And>x. does R (k x) zs"
  shows "does R (bind_task t k) (xs @ zs)"
  using assms(1)
proof (induction t arbitrary: xs rule: task_induct)
  case (Finished x)
  with assms(2) show ?case by simp
next
  case (Section p f)
  show ?case
  proof (simp, intro allI)
    fix s
    obtain us vs where "xs = us @ vs" "R us s (fst (f s))" "does R (snd (f s)) vs"
      using Section.prems by (metis does_Section)
    moreover have "does R (bind_task (snd (f s)) k) (vs @ zs)"
      by (rule Section.IH) fact
    ultimately show "\<exists>ys ws. xs @ zs = ys @ ws \<and> R ys s (fst (f s)) \<and>
        does R (bind_task (snd (f s)) k) ws"
      by (intro exI [of _ us] exI [of _ "vs @ zs"]) simp
  qed
qed

lemma does_every: "every (R []) t \<Longrightarrow> does R t []"
  by (induction t rule: task_induct) simp_all

text \<open>A frame of the agent goes to the correlator, then to the store.\<close>

datatype item = ToCorrelator frame | ToStore frame

definition to_correlator :: "item list \<Rightarrow> frame list" where
  "to_correlator xs = concat (map (\<lambda>x. case x of ToCorrelator f \<Rightarrow> [f] | _ \<Rightarrow> []) xs)"

definition to_store :: "item list \<Rightarrow> frame list" where
  "to_store xs = concat (map (\<lambda>x. case x of ToStore f \<Rightarrow> [f] | _ \<Rightarrow> []) xs)"

definition agent_side :: "(direction \<times> frame) list \<Rightarrow> frame list" where
  "agent_side h = map snd (filter (\<lambda>(d, f). d = AgentToClient) h)"

definition agent_frames :: "store_event list \<Rightarrow> frame list" where
  "agent_frames evs = concat (map (\<lambda>ev. case ev of FromAgent f \<Rightarrow> [f] | _ \<Rightarrow> []) evs)"

lemma sides_append [simp]:
  "to_correlator (xs @ ys) = to_correlator xs @ to_correlator ys" "to_store (xs @ ys) = to_store xs @ to_store ys"
  "agent_side (h @ h') = agent_side h @ agent_side h'" "agent_frames (evs @ evs') = agent_frames evs @ agent_frames evs'"
  by (simp_all add: to_correlator_def to_store_def agent_side_def agent_frames_def)

definition hears :: "('a) acp_scheme \<Rightarrow> item list \<Rightarrow> 'i relay \<Rightarrow> 'i relay \<Rightarrow> bool" where
  "hears E xs r r' \<longleftrightarrow>
     (\<exists>h. correlator_of r' = observations (correlator_of r) h \<and> agent_side h = to_correlator xs) \<and>
     (\<exists>evs. sessions r' = store_run E (sessions r) evs \<and> agent_frames evs = to_store xs)"

lemma hears_trans: "hears E xs a b \<Longrightarrow> hears E ys b c \<Longrightarrow> hears E (xs @ ys) a c"
proof -
  assume "hears E xs a b" "hears E ys b c"
  then obtain h h' evs evs' where
    "correlator_of b = observations (correlator_of a) h" "agent_side h = to_correlator xs"
    "sessions b = store_run E (sessions a) evs" "agent_frames evs = to_store xs"
    "correlator_of c = observations (correlator_of b) h'" "agent_side h' = to_correlator ys"
    "sessions c = store_run E (sessions b) evs'" "agent_frames evs' = to_store ys"
    by (auto simp: hears_def)
  then show ?thesis
    unfolding hears_def
    by (intro conjI exI [of _ "h @ h'"] exI [of _ "evs @ evs'"]) (simp_all add: observations_def store_run_def)
qed

text \<open>Operations that hear nothing of the agent.\<close>

definition quiet :: "('a) acp_scheme \<Rightarrow> 'i relay \<Rightarrow> 'i relay \<Rightarrow> bool" where
  "quiet E = moves E (\<lambda>_. True) (\<lambda>_. False)"

lemma agent_side_none: "(\<And>f. (AgentToClient, f) \<notin> set h) \<Longrightarrow> agent_side h = []"
  by (induction h) (auto simp: agent_side_def)

lemma agent_frames_none: "(\<And>f. FromAgent f \<notin> set evs) \<Longrightarrow> agent_frames evs = []"
  by (induction evs) (auto simp: agent_frames_def split: store_event.split)

lemma quiet_hears: "quiet E r r' \<Longrightarrow> hears E [] r r'"
  unfolding quiet_def moves_def hears_def
  using agent_side_none agent_frames_none by (fastforce simp: to_correlator_def to_store_def)

lemma does_quiet: "every (quiet E) t \<Longrightarrow> does (hears E) t []"
  by (induction t rule: task_induct) (simp_all add: quiet_hears)

lemma does_quiet_bind:
  "every (quiet E) t \<Longrightarrow> (\<And>x. does (hears E) (k x) zs) \<Longrightarrow> does (hears E) (bind_task t k) zs"
  using does_bind [OF does_quiet, of E t k zs] by simp

lemma does_then_quiet:
  "does (hears E) t xs \<Longrightarrow> (\<And>x. every (quiet E) (k x)) \<Longrightarrow> does (hears E) (bind_task t k) xs"
  using does_bind [of "hears E" t xs k "[]"] does_quiet [of E "k _"] by simp

lemma does_one:
  "hears E xs = R \<Longrightarrow> (\<And>r. R r (snd (g r))) \<Longrightarrow> does (hears E) (locked l g) xs"
  by (auto simp: locked_def one_section_def case_prod_beta Let_def intro!: exI [of _ xs])

lemma hears_one:
  "hears E [ToCorrelator f] r (r\<lparr>correlator_of := snd (observe AgentToClient f (correlator_of r))\<rparr>)"
  "hears E [ToStore f] r (r\<lparr>sessions := observe_session E AgentToClient f (sessions r)\<rparr>)"
proof -
  have "hears E [ToCorrelator f] r r'"
    if "correlator_of r' = snd (observe AgentToClient f (correlator_of r))" "sessions r' = sessions r" for r'
    unfolding hears_def
    by (intro conjI exI [of _ "[(AgentToClient, f)]"] exI [of _ "[]"])
       (simp_all add: that observations_def agent_side_def to_correlator_def to_store_def store_run_def agent_frames_def)
  then show "hears E [ToCorrelator f] r (r\<lparr>correlator_of := snd (observe AgentToClient f (correlator_of r))\<rparr>)"
    by simp
  have "hears E [ToStore f] r r'"
    if "correlator_of r' = correlator_of r" "sessions r' = observe_session E AgentToClient f (sessions r)" for r'
    unfolding hears_def
    by (intro conjI exI [of _ "[FromAgent f]"] exI [of _ "[]"])
       (simp_all add: that observations_def agent_side_def to_correlator_def to_store_def store_run_def
          agent_frames_def observe_session_def)
  then show "hears E [ToStore f] r (r\<lparr>sessions := observe_session E AgentToClient f (sessions r)\<rparr>)"
    by simp
qed

lemma every_unit: "every P (case x of None \<Rightarrow> Finished () | Some y \<Rightarrow> t y) \<longleftrightarrow> (\<forall>y. x = Some y \<longrightarrow> every P (t y))"
  by (simp split: option.split)

lemma does_observe:
  "does (hears E) (observe_task E AgentToClient f) [ToCorrelator f, ToStore f]"
proof -
  have c: "does (hears E) (locked CorrelatorLock (\<lambda>r.
      let (answers, c) = observe AgentToClient f (correlator_of r) in (answers, r\<lparr>correlator_of := c\<rparr>)))
      [ToCorrelator f]"
    by (rule does_one [OF refl]) (simp add: case_prod_beta Let_def hears_one)
  have s: "does (hears E) (locked SessionsLock (\<lambda>r.
      ((), r\<lparr>sessions := observe_session E AgentToClient f (sessions r)\<rparr>))) [ToStore f]"
    by (rule does_one [OF refl]) (simp add: hears_one)
  show ?thesis
    unfolding observe_task_def
    by (rule does_bind [of _ _ "[ToCorrelator f]" _ "[ToStore f]", simplified], rule c, rule does_quiet_bind, simp,
        rule does_quiet_bind, simp add: quiet_def, rule does_then_quiet [OF s])
       (simp add: quiet_def every_bind every_unit)
qed

definition items :: "('a) serde_scheme \<Rightarrow> string \<Rightarrow> item list" where
  "items E line = (case parse E line of Inl e \<Rightarrow> [] | Inr f \<Rightarrow> [ToCorrelator f, ToStore f])"

lemma relay_frame_task_agent:
  "relay_frame_task E AgentToClient f = Section Runs (\<lambda>r. (r, bind_task (observe_task E AgentToClient f)
     (\<lambda>(label, ends_turn). bind_task (ask_interceptor_task E AgentToClient f)
     (\<lambda>disposition. dispose_task E AgentToClient f label ends_turn disposition))))"
  by (simp add: relay_frame_task_def rebind_task_def add_servers_task_def sync_def one_section_def)

lemma does_agent_line: "does (hears E) (handle_task E AgentToClient line) (items E line)"
proof (cases "parse E line")
  case (Inl e)
  then show ?thesis by (simp add: handle_task_def items_def does_quiet quiet_def)
next
  case (Inr f)
  have "does (hears E) (relay_frame_task E AgentToClient f) [ToCorrelator f, ToStore f]"
    unfolding relay_frame_task_agent does_Section
    by (intro allI exI [of _ "[]"] exI [of _ "[ToCorrelator f, ToStore f]"])
       (auto intro!: does_then_quiet does_observe every_bind quiet_hears simp: quiet_def)
  then show ?thesis using Inr by (simp add: handle_task_def items_def)
qed

section \<open>Calls in progress\<close>

definition call_quiet :: "('i, 'a) relay_env_scheme \<Rightarrow> 'i call \<Rightarrow> bool" where
  "call_quiet E c \<longleftrightarrow> (case c of None \<Rightarrow> True | Some (line, t) \<Rightarrow> every (quiet E) t)"

definition call_hears :: "('i, 'a) relay_env_scheme \<Rightarrow> 'i call \<Rightarrow> item list \<Rightarrow> bool" where
  "call_hears E c xs \<longleftrightarrow> (case c of None \<Rightarrow> xs = [] | Some (line, t) \<Rightarrow> does (hears E) t xs)"

lemma call_simps [simp]:
  "call_quiet E None" "call_hears E None xs \<longleftrightarrow> xs = []"
  "call_quiet E (Some (line, t)) \<longleftrightarrow> every (quiet E) t"
  "call_hears E (Some (line, t)) xs \<longleftrightarrow> does (hears E) t xs"
  by (simp_all add: call_quiet_def call_hears_def)

lemma in_call_simps [simp]:
  "call_quiet E (in_call line t) \<longleftrightarrow> every (quiet E) t"
  "call_hears E (in_call line t) xs \<longleftrightarrow> does (hears E) t xs"
  by (cases t; simp add: in_call_def del: every_Section does_Section; simp)+

lemma quiet_begin [simp]: "call_quiet E (begin_call E ClientToAgent line)"
  unfolding begin_call_def in_call_simps quiet_def
  by (auto simp: handle_task_def intro!: every_bind every_relay_frame split: sum.split)

lemma hears_begin [simp]: "call_hears E (begin_call E AgentToClient line) (items E line)"
  by (simp add: begin_call_def does_agent_line)

lemma quiet_advance:
  assumes "call_quiet E c"
  shows "call_quiet E (fst (advance c r)) \<and> quiet E r (snd (advance c r))"
proof (cases c)
  case (Some x)
  obtain line t where "x = (line, t)" by (cases x)
  with assms Some show ?thesis
    by (cases t) (simp_all add: case_prod_beta quiet_def)
qed (simp add: quiet_def)

lemma hears_advance:
  assumes "call_hears E c xs"
  shows "\<exists>ys zs. xs = ys @ zs \<and> hears E ys r (snd (advance c r)) \<and> call_hears E (fst (advance c r)) zs"
proof (cases c)
  case None
  with assms show ?thesis by (simp add: quiet_hears quiet_def)
next
  case (Some x)
  obtain line t where x: "x = (line, t)" by (cases x)
  show ?thesis
  proof (cases t)
    case (Finished y)
    with assms Some x show ?thesis by (simp add: quiet_hears quiet_def)
  next
    case (Section p f)
    with assms Some x have "does (hears E) (Section p f) xs" by simp
    then show ?thesis
      unfolding does_Section by (auto simp: Some x Section case_prod_beta)
  qed
qed

section \<open>Runs\<close>

text \<open>The lines of the agent the connection has taken up, in order.\<close>

fun said :: "('i, 'a) relay_env_scheme \<Rightarrow> 'i live \<Rightarrow> 'i live_event list \<Rightarrow> string list" where
  "said E v [] = []"
| "said E v (ev # evs) =
     (case ev of
        AgentSays line \<Rightarrow> if agent_reading v \<and> agent_call v = None then [line] else []
      | _ \<Rightarrow> []) @ said E (live_step E v ev) evs"

definition readers_quiet :: "('i, 'a) relay_env_scheme \<Rightarrow> 'i live \<Rightarrow> bool" where
  "readers_quiet E v \<longleftrightarrow> (\<forall>c \<in> reader_calls v. call_quiet E c)"

lemma readers_quiet_step: "readers_quiet E v \<Longrightarrow> readers_quiet E (live_step E v ev)"
  unfolding readers_quiet_def
proof (intro ballI)
  fix c
  assume "\<forall>c \<in> reader_calls v. call_quiet E c" and c: "c \<in> reader_calls (live_step E v ev)"
  then show "call_quiet E c"
    by - (rule reader_calls_keep_inv [OF _ _ _ _ c], simp_all add: quiet_advance)
qed

interpretation quiet_readers: machine "live_step E" "readers_quiet E" for E
  by unfold_locales (rule readers_quiet_step)

text \<open>
  From one state to a later one what the agent's call had left to hear, and what the agent
  said in between, is heard in order, up to what the agent's call has left to hear now.
\<close>

definition hears_on :: "('i, 'a) relay_env_scheme \<Rightarrow> 'i live \<Rightarrow> item list \<Rightarrow> item list \<Rightarrow> 'i live \<Rightarrow> item list \<Rightarrow> bool" where
  "hears_on E v xs new v' zs \<longleftrightarrow>
     (\<exists>ys. xs @ new = ys @ zs \<and> hears E ys (live_relay v) (live_relay v') \<and> call_hears E (agent_call v') zs)"

lemma hears_on_quiet:
  "quiet E (live_relay v) (live_relay v') \<Longrightarrow> agent_call v' = agent_call v \<Longrightarrow> call_hears E (agent_call v) xs \<Longrightarrow>
   hears_on E v xs [] v' xs"
  unfolding hears_on_def by (intro exI [of _ "[]"]) (simp add: quiet_hears)

lemma quiet_refl [simp]: "quiet E r r"
  by (simp add: quiet_def)

lemma quiet_reader_step:
  assumes "readers_quiet E v" and "ev \<noteq> RunsAgent"
  shows "quiet E (live_relay v) (live_relay (live_step E v ev))"
proof (cases ev)
  case (RunsReader k)
  show ?thesis
  proof (cases "k < length (sockets v)")
    case True
    then have "call_quiet E (so_call (sockets v ! k))"
      using assms(1) by (simp add: readers_quiet_def reader_calls_nth)
    then show ?thesis by (simp add: RunsReader quiet_advance case_prod_beta)
  qed (simp add: RunsReader)
qed (use assms(2) in \<open>simp_all add: quiet_def moves_attach_step moves_wait_ends moves_set_fields
       del: sink_step.simps\<close>)

definition new_items :: "('i, 'a) relay_env_scheme \<Rightarrow> 'i live \<Rightarrow> 'i live_event list \<Rightarrow> item list" where
  "new_items E v evs = concat (map (items E) (said E v evs))"

definition short :: "('a) serde_scheme \<Rightarrow> item list \<Rightarrow> bool" where
  "short E zs \<longleftrightarrow> (\<exists>ys line. items E line = ys @ zs)"

lemma short_items [simp]: "short E (items E line)"
  unfolding short_def by (metis append_Nil)

lemma short_Nil: "short E []"
  unfolding short_def by (metis append_Nil2)

lemma short_suffix: "short E (ys @ zs) \<Longrightarrow> short E zs"
  unfolding short_def by (metis append.assoc)

lemma hears_step:
  assumes "readers_quiet E v" and "call_hears E (agent_call v) xs" and "short E xs"
  shows "\<exists>zs. hears_on E v xs (new_items E v [ev]) (live_step E v ev) zs \<and> short E zs"
proof (cases ev)
  case RunsAgent
  obtain ys zs where z: "xs = ys @ zs" "hears E ys (live_relay v) (snd (advance (agent_call v) (live_relay v)))"
    "call_hears E (fst (advance (agent_call v) (live_relay v))) zs"
    using hears_advance [OF assms(2)] by blast
  show ?thesis
  proof (cases "can_run (agent_call v) v")
    case True
    with z RunsAgent have "hears_on E v xs (new_items E v [ev]) (live_step E v ev) zs"
      by (auto simp: hears_on_def new_items_def case_prod_beta)
    with z(1) assms(3) short_suffix show ?thesis by blast
  next
    case False
    with RunsAgent hears_on_quiet [of E v v xs] assms show ?thesis by (auto simp: new_items_def quiet_def)
  qed
next
  case (AgentSays line)
  show ?thesis
  proof (cases "agent_reading v \<and> agent_call v = None")
    case True
    with AgentSays assms(2) have "hears_on E v xs (new_items E v [ev]) (live_step E v ev) (items E line)"
      by (auto simp: hears_on_def new_items_def quiet_hears quiet_def intro: exI [of _ "[]"])
    then show ?thesis using short_items by blast
  next
    case False
    with AgentSays hears_on_quiet [of E v v xs] assms show ?thesis by (auto simp: new_items_def quiet_def)
  qed
next
  case (WaitEnds k b)
  then show ?thesis
    using hears_on_quiet [OF quiet_reader_step [OF assms(1), of ev] _ assms(2)] assms(3)
    by (auto simp: agent_call_step new_items_def)
qed (insert hears_on_quiet [OF quiet_reader_step [OF assms(1), of ev] _ assms(2)] assms(3),
     auto simp: agent_call_step new_items_def simp del: live_step.simps)

lemma hears_on_trans:
  assumes "hears_on E u xs new v ys" and "hears_on E v ys new' w zs"
  shows "hears_on E u xs (new @ new') w zs"
proof -
  obtain a b where "xs @ new = a @ ys" "hears E a (live_relay u) (live_relay v)"
    "ys @ new' = b @ zs" "hears E b (live_relay v) (live_relay w)" "call_hears E (agent_call w) zs"
    using assms by (auto simp: hears_on_def)
  moreover from this have "xs @ new @ new' = (a @ b) @ zs" by (metis append.assoc)
  ultimately show ?thesis unfolding hears_on_def using hears_trans by blast
qed

lemma new_items_Cons: "new_items E v (ev # evs) = new_items E v [ev] @ new_items E (live_step E v ev) evs"
  by (simp add: new_items_def)

lemma hears_run:
  assumes "readers_quiet E v" and "call_hears E (agent_call v) xs" and "short E xs"
  shows "\<exists>zs. hears_on E v xs (new_items E v evs) (live_run E v evs) zs \<and> short E zs"
  using assms
proof (induction evs arbitrary: v xs)
  case Nil
  then show ?case using hears_on_quiet [of E v v xs] by (auto simp: new_items_def)
next
  case (Cons ev evs)
  obtain ys where ys: "hears_on E v xs (new_items E v [ev]) (live_step E v ev) ys" "short E ys"
    using hears_step [OF Cons.prems] by blast
  have "call_hears E (agent_call (live_step E v ev)) ys"
    using ys(1) unfolding hears_on_def by blast
  then obtain zs where "hears_on E (live_step E v ev) ys (new_items E (live_step E v ev) evs)
      (live_run E (live_step E v ev) evs) zs" "short E zs"
    using Cons.IH [OF readers_quiet_step [OF Cons.prems(1)] _ ys(2)] by blast
  with ys(1) have "hears_on E v xs (new_items E v (ev # evs)) (live_run E v (ev # evs)) zs"
    unfolding new_items_Cons [of E v ev evs] live_run_simps using hears_on_trans by blast
  with \<open>short E zs\<close> show ?case by blast
qed

definition frames_of :: "('a) serde_scheme \<Rightarrow> string list \<Rightarrow> frame list" where
  "frames_of E lines = concat (map (\<lambda>l. case parse E l of Inl e \<Rightarrow> [] | Inr f \<Rightarrow> [f]) lines)"

lemma items_frames:
  "to_correlator (concat (map (items E) lines)) = frames_of E lines"
  "to_store (concat (map (items E) lines)) = frames_of E lines"
  by (induction lines)
     (auto simp: frames_of_def items_def to_correlator_def to_store_def split: sum.split)

lemma short_cases:
  assumes "short E zs"
  obtains "zs = []" | f where "zs = [ToStore f]" | f where "zs = [ToCorrelator f, ToStore f]"
proof -
  obtain ys line where yz: "items E line = ys @ zs" using assms by (auto simp: short_def)
  show ?thesis
  proof (cases "parse E line")
    case (Inl e)
    with yz that(1) show ?thesis by (simp add: items_def)
  next
    case (Inr f)
    with yz have "ys @ zs = [ToCorrelator f, ToStore f]" by (simp add: items_def)
    then show ?thesis using that by (auto simp: append_eq_Cons_conv)
  qed
qed

lemma but_last_cases:
  assumes "short E zs"
  shows "to_correlator ys \<in> {to_correlator (ys @ zs), butlast (to_correlator (ys @ zs))} \<and>
    to_store ys \<in> {to_store (ys @ zs), butlast (to_store (ys @ zs))}"
  using assms by (cases rule: short_cases) (simp_all add: to_correlator_def to_store_def)

lemma agent_heard:
  fixes E :: "('i, 'a) relay_env_scheme" and i :: 'i and process info servers and evs :: "'i live_event list"
  defines "v \<equiv> live_run E (new_live (start i process info servers)) evs"
    and "frames \<equiv> frames_of E (said E (new_live (start i process info servers)) evs)"
  shows "\<exists>h stored. correlator_of (live_relay v) = observe_all h \<and>
    sessions (live_relay v) = store_run E new_store stored \<and>
    agent_side h \<in> {frames, butlast frames} \<and> agent_frames stored \<in> {frames, butlast frames} \<and>
    (agent_call v = None \<longrightarrow> agent_side h = frames \<and> agent_frames stored = frames)"
proof -
  let ?v = "new_live (start i process info servers)"
  have "readers_quiet E ?v" "call_hears E (agent_call ?v) []" "short E []"
    by (simp_all add: readers_quiet_def new_live_def reader_calls_def short_Nil)
  then obtain zs where zs: "hears_on E ?v [] (new_items E ?v evs) v zs" "short E zs"
    unfolding v_def using hears_run by blast
  then obtain ys where ys: "new_items E ?v evs = ys @ zs" "hears E ys (live_relay ?v) (live_relay v)"
    "call_hears E (agent_call v) zs"
    by (auto simp: hears_on_def)
  have frames: "to_correlator (ys @ zs) = frames" "to_store (ys @ zs) = frames"
    using ys(1) items_frames by (metis frames_def new_items_def)+
  have r: "live_relay ?v = new_relay i info servers" by (simp add: live_relay_def new_live_def start_def)
  obtain h stored where "correlator_of (live_relay v) = observe_all h" "agent_side h = to_correlator ys"
    "sessions (live_relay v) = store_run E new_store stored" "agent_frames stored = to_store ys"
    using ys(2) unfolding hears_def r by (auto simp: new_relay_def observations_def observe_all_def)
  moreover have "zs = []" if "agent_call v = None" using that ys(3) by simp
  ultimately show ?thesis using but_last_cases [OF zs(2), of ys] frames by (metis append_Nil2)
qed

text \<open>
  C3: However the tasks of a connection interleave, its components have had their operations
  one after the other: the bridge and the browser's end are where some sequence of them
  leads, and the correlator and the session store have observed the agent's frames in the
  order the agent wrote them, each once; while the agent's reader is in a call they may
  have the last one still to come, between calls they have them all.
\<close>

theorem components_see_histories:
  fixes E :: "('i, 'a) relay_env_scheme" and i :: 'i and process info servers and evs :: "'i live_event list"
  defines "v \<equiv> live_run E (new_live (start i process info servers)) evs"
    and "frames \<equiv> frames_of E (said E (new_live (start i process info servers)) evs)"
  shows "(\<exists>ops. ids (live_relay v) = bridge_run ops) \<and>
    (\<exists>sent. to_browser_sink (live_relay v) = sink_run new_sink sent) \<and>
    (\<exists>h stored. correlator_of (live_relay v) = observe_all h \<and>
      sessions (live_relay v) = store_run E new_store stored \<and>
      agent_side h \<in> (if agent_call v = None then {frames} else {frames, butlast frames}) \<and>
      agent_frames stored \<in> (if agent_call v = None then {frames} else {frames, butlast frames}))"
  unfolding v_def frames_def
  using agent_heard [of E i process info servers evs] components_histories [of E i process info servers evs]
  by (auto split: if_split)

end
