(* ===== verification/Live_Races.thy ===== *)
theory Live_Races
  imports Live_Order
begin

text \<open>
  An \<open>attach\<close> or a call that nothing interrupts is the step of theory \<open>Relay\<close>; and what can
  happen when something does: a question asked twice, two sockets served at once, an answer
  that is cut short.
\<close>

section \<open>Calls that nothing interrupts\<close>

definition readers_hold :: "'i live \<Rightarrow> bool" where
  "readers_hold v \<longleftrightarrow> (\<exists>c \<in> reader_calls v. \<exists>l. at_point c = Some (Holds l))"

lemma live_record [simp]:
  "set_relay (live_relay v) v = v" "set_relay r (set_relay r' v) = set_relay r v"
  "(set_relay r v)\<lparr>agent_call := c\<rparr> = set_relay r (v\<lparr>agent_call := c\<rparr>)"
  "on_socket k f (set_relay r v) = set_relay r (on_socket k f v)"
  by (simp_all add: set_relay_def on_socket_def del: live_relay_fields) (simp_all add: live_relay_def del: live_relay_fields)

lemma agent_can_run:
  assumes "\<not> readers_hold v" and "agent_call v = in_call line (Section p f)"
  shows "can_run (agent_call v) v"
proof -
  have "\<not> list_ex (\<lambda>s. at_point (so_call s) = Some (Holds l)) (sockets v)" for l
    using assms(1) by (auto simp: readers_hold_def reader_calls_def list_ex_iff)
  then show ?thesis
    using assms(2) by (cases p) (simp_all add: can_run_def lock_held_def in_call_def)
qed

lemma agent_finishes:
  assumes "\<not> readers_hold v" and "agent_call v = in_call line t"
  shows "\<exists>n. live_run E v (replicate n RunsAgent) =
    (set_relay (snd (run_task t (live_relay v))) v)\<lparr>agent_call := None\<rparr>"
  using assms
proof (induction t arbitrary: v rule: task_induct)
  case (Finished x)
  then have "v\<lparr>agent_call := None\<rparr> = v" by (simp add: in_call_def)
  then show ?case by (intro exI [of _ 0]) simp
next
  case (Section p f)
  obtain r t where f: "f (live_relay v) = (r, t)" by fastforce
  let ?v = "set_relay r (v\<lparr>agent_call := in_call line t\<rparr>)"
  have step: "live_step E v RunsAgent = ?v"
    using agent_can_run [OF Section.prems] Section.prems(2) f by (simp add: in_call_def)
  have "\<exists>n. live_run E ?v (replicate n RunsAgent) =
      (set_relay (snd (run_task (snd (f (live_relay v))) (live_relay ?v))) ?v)\<lparr>agent_call := None\<rparr>"
    by (rule Section.IH) (use Section.prems(1) f in \<open>simp_all add: readers_hold_def\<close>)
  then obtain n where "live_run E ?v (replicate n RunsAgent) =
      (set_relay (snd (run_task (Section p f) (live_relay v))) v)\<lparr>agent_call := None\<rparr>"
    using f by auto
  then show ?case by (intro exI [of _ "Suc n"]) (simp add: step del: live_step.simps)
qed

lemma agent_line_uninterrupted:
  assumes "\<not> readers_hold v" and "agent_reading v" and "agent_call v = None"
  shows "\<exists>n. live_run E v (AgentSays line # replicate n RunsAgent) =
    set_relay (handle E AgentToClient line (live_relay v)) v"
proof -
  let ?v = "v\<lparr>agent_call := begin_call E AgentToClient line\<rparr>"
  have "\<exists>n. live_run E ?v (replicate n RunsAgent) =
      (set_relay (snd (run_task (handle_task E AgentToClient line) (live_relay ?v))) ?v)\<lparr>agent_call := None\<rparr>"
    by (rule agent_finishes [of _ line])
       (use assms(1) in \<open>simp_all add: begin_call_def readers_hold_def\<close>)
  moreover have "v\<lparr>agent_call := None\<rparr> = v" using assms(3) by simp
  ultimately show ?thesis using assms(2,3) by (simp add: run_handle_task)
qed

definition others_hold :: "nat \<Rightarrow> 'i live \<Rightarrow> bool" where
  "others_hold k v \<longleftrightarrow> (\<exists>l. at_point (agent_call v) = Some (Holds l) \<or>
     (\<exists>j < length (sockets v). j \<noteq> k \<and> at_point (so_call (sockets v ! j)) = Some (Holds l)))"

lemma on_socket_twice [simp]:
  "on_socket k f (on_socket k g v) = on_socket k (\<lambda>s. f (g s)) v"
  by (cases "k < length (sockets v)") (simp_all add: on_socket_def list_update_beyond)

lemma on_socket_same: "f (sockets v ! k) = sockets v ! k \<Longrightarrow> on_socket k f v = v"
  by (simp add: on_socket_def)

lemma reader_can_run:
  assumes "\<not> others_hold k v" and "k < length (sockets v)" and "so_call (sockets v ! k) = in_call line (Section p f)"
  shows "can_run (so_call (sockets v ! k)) v"
proof (cases p)
  case (Awaits l)
  have "at_point (so_call (sockets v ! j)) \<noteq> Some (Holds l)" if "j < length (sockets v)" for j
    using assms that Awaits by (cases "j = k") (auto simp: others_hold_def in_call_def)
  moreover have "at_point (agent_call v) \<noteq> Some (Holds l)" using assms(1) by (auto simp: others_hold_def)
  ultimately have "\<not> lock_held l v" by (auto simp: lock_held_def list_ex_iff in_set_conv_nth)
  then show ?thesis using assms(3) Awaits by (simp add: can_run_def in_call_def)
qed (use assms(3) in \<open>simp_all add: can_run_def in_call_def\<close>)

lemma reader_finishes:
  assumes "\<not> others_hold k v" and "k < length (sockets v)" and "so_call (sockets v ! k) = in_call line t"
  shows "\<exists>n. live_run E v (replicate n (RunsReader k)) =
    set_relay (snd (run_task t (live_relay v))) (on_socket k (\<lambda>s. s\<lparr>so_call := None\<rparr>) v)"
  using assms
proof (induction t arbitrary: v rule: task_induct)
  case (Finished x)
  then have "on_socket k (\<lambda>s. s\<lparr>so_call := None\<rparr>) v = v" by (intro on_socket_same) (simp add: in_call_def)
  then show ?case by (intro exI [of _ 0]) simp
next
  case (Section p f)
  obtain r t where f: "f (live_relay v) = (r, t)" by fastforce
  let ?v = "set_relay r (on_socket k (\<lambda>s. s\<lparr>so_call := in_call line t\<rparr>) v)"
  have step: "live_step E v (RunsReader k) = ?v"
    using reader_can_run [OF Section.prems] Section.prems(2,3) f by (simp add: in_call_def)
  have "\<exists>n. live_run E ?v (replicate n (RunsReader k)) =
      set_relay (snd (run_task (snd (f (live_relay v))) (live_relay ?v))) (on_socket k (\<lambda>s. s\<lparr>so_call := None\<rparr>) ?v)"
  proof (rule Section.IH)
    show "\<not> others_hold k ?v" using Section.prems(1,2) by (auto simp: others_hold_def socket_on_socket)
    show "so_call (sockets ?v ! k) = in_call line (snd (f (live_relay v)))"
      using Section.prems(2) f by (simp add: socket_on_socket)
  qed (use Section.prems(2) in simp)
  then obtain n where "live_run E ?v (replicate n (RunsReader k)) =
      set_relay (snd (run_task (Section p f) (live_relay v))) (on_socket k (\<lambda>s. s\<lparr>so_call := None\<rparr>) v)"
    using f by auto
  then show ?case by (intro exI [of _ "Suc n"]) (simp add: step del: live_step.simps)
qed

lemma browser_line_uninterrupted:
  assumes "\<not> others_hold k v" and "k < length (sockets v)" and "so_reading (sockets v ! k)"
    and "so_call (sockets v ! k) = None"
  shows "\<exists>n. live_run E v (TakesLine k line # replicate n (RunsReader k)) =
    set_relay (handle E ClientToAgent line (live_relay v)) v"
proof -
  let ?v = "on_socket k (\<lambda>s. s\<lparr>so_call := begin_call E ClientToAgent line\<rparr>) v"
  have "\<exists>n. live_run E ?v (replicate n (RunsReader k)) =
      set_relay (snd (run_task (handle_task E ClientToAgent line) (live_relay ?v)))
        (on_socket k (\<lambda>s. s\<lparr>so_call := None\<rparr>) ?v)"
    by (rule reader_finishes [of _ _ line])
       (use assms(1,2) in \<open>auto simp: begin_call_def others_hold_def socket_on_socket\<close>)
  moreover have "on_socket k (\<lambda>s. s\<lparr>so_call := None\<rparr>) v = v"
    using assms(4) by (intro on_socket_same) simp
  ultimately show ?thesis using assms(2-4) by (simp add: run_handle_task)
qed

section \<open>An \<open>attach\<close> that nothing interrupts\<close>

text \<open>The reader of the connection is a number and a handle, both there or neither.\<close>

definition slot_ok :: "'i live \<Rightarrow> bool" where
  "slot_ok v \<longleftrightarrow> (reader (conn v) = None \<longleftrightarrow> reader_handle v = None)"

lemma slot_ok_set_relay [simp]: "slot_ok (set_relay r v) = slot_ok v"
  by (simp add: slot_ok_def set_relay_def)

lemma slot_ok_on_socket [simp]: "slot_ok (on_socket k f v) = slot_ok v" "slot_ok (set_stage k st v) = slot_ok v"
  by (simp_all add: slot_ok_def)

lemma slot_ok_step: "slot_ok v \<Longrightarrow> slot_ok (live_step E v ev)"
proof (cases ev)
  case (Proceed k)
  assume "slot_ok v"
  then have "slot_ok (attach_step E k v)"
    by (cases "so_stage (sockets v ! k)")
       (simp_all add: attach_step_def case_prod_beta Let_def split: option.split, simp_all add: slot_ok_def)
  then show ?thesis using Proceed \<open>slot_ok v\<close> by simp
next
  case (WaitEnds k b)
  assume "slot_ok v"
  then show ?thesis using WaitEnds by (simp add: wait_ends_def split: stage.split)
next
  case AgentEnds
  assume "slot_ok v"
  then show ?thesis using AgentEnds by (simp add: slot_ok_def agent_gone_def)
qed (auto simp: case_prod_beta, auto simp: slot_ok_def)

interpretation live_slot: machine "live_step E" slot_ok for E
  by unfold_locales (rule slot_ok_step)

text \<open>The stages, by what each makes of the connection.\<close>

definition at_stage :: "nat \<Rightarrow> stage \<Rightarrow> 'i connection \<Rightarrow> nat option \<Rightarrow> 'i live \<Rightarrow> bool" where
  "at_stage k st c h v \<longleftrightarrow>
     k < length (sockets v) \<and> so_stage (sockets v ! k) = st \<and> conn v = c \<and> reader_handle v = h"

lemma relay_of_set [simp]: "conn (set_relay r v) = (conn v)\<lparr>relay_of := r\<rparr>"
  by (simp add: set_relay_def)

lemma attach_stages:
  "at_stage k AwaitIds c h v \<Longrightarrow> at_stage k AwaitHandshake
     (c\<lparr>relay_of := (relay_of c)\<lparr>ids := bridge_reattach (ids (relay_of c))\<rparr>\<rparr>) h (live_step E v (Proceed k))"
  "at_stage k AwaitHandshake c h v \<Longrightarrow> at_stage k AtTake
     (c\<lparr>relay_of := (relay_of c)\<lparr>handshake := handshake_reattach (handshake (relay_of c))\<rparr>\<rparr>) h (live_step E v (Proceed k))"
  "at_stage k AtTake c h v \<Longrightarrow> at_stage k (AtNotice h) (c\<lparr>reader := None\<rparr>) None (live_step E v (Proceed k))"
  "at_stage k (AtNotice w) c h v \<Longrightarrow>
     at_stage k (AtSwap w) (c\<lparr>relay_of := notice E w (relay_of c)\<rparr>) h (live_step E v (Proceed k))"
  "at_stage k (AtSwap w) c h v \<Longrightarrow> sink_attach (to_browser_sink (relay_of c)) = (g, n, s) \<Longrightarrow>
     at_stage k (AtEvict w g n) (c\<lparr>relay_of := (relay_of c)\<lparr>to_browser_sink := s\<rparr>\<rparr>) h (live_step E v (Proceed k))"
  "at_stage k (AtEvict w g n) c h v \<Longrightarrow> at_stage k (AtSpawn g n) c h (live_step E v (Proceed k))"
  "at_stage k (AtSpawn g n) c h v \<Longrightarrow> at_stage k (AtStore g n) c h (live_step E v (Proceed k))"
  "at_stage k (AtStore g n) c h v \<Longrightarrow>
     at_stage k (AtSubscribe g n) (c\<lparr>reader := Some g\<rparr>) (Some k) (live_step E v (Proceed k))"
  "at_stage k (AtSubscribe g n) c h v \<Longrightarrow>
     at_stage k (Serving g n) (c\<lparr>watchers := watchers c + 1\<rparr>) h (live_step E v (Proceed k))"
  unfolding at_stage_def
  by (auto simp: attach_step_def socket_set_stage Let_def live_relay_def simp del: live_relay_fields
      split: option.split)

lemma leave_stages:
  "at_stage k (AtAbort g n why) c h v \<Longrightarrow> at_stage k (AtDetach g n why) c h (live_step E v (Proceed k))"
  "at_stage k (AtDetach g n why) c h v \<Longrightarrow> at_stage k (AtWriter g n why)
     (c\<lparr>relay_of := (relay_of c)\<lparr>to_browser_sink := sink_detach g (to_browser_sink (relay_of c))\<rparr>\<rparr>) h
     (live_step E v (Proceed k))"
  "at_stage k (AtWriter g n why) c h v \<Longrightarrow> at_stage k (AtClear g)
     (if why = TakenOver then c else c\<lparr>relay_of := (relay_of c)\<lparr>to_browser_sink :=
        close_channel n (to_browser_sink (relay_of c))\<rparr>\<rparr>) h (live_step E v (Proceed k))"
  "at_stage k (AtClear g) c h v \<Longrightarrow> at_stage k AtReturn
     (if reader c = Some g then c\<lparr>reader := None\<rparr> else c) (if reader c = Some g then None else h)
     (live_step E v (Proceed k))"
  "at_stage k AtReturn c h v \<Longrightarrow>
     at_stage k Returned (c\<lparr>watchers := watchers c - 1\<rparr>) h (live_step E v (Proceed k))"
  unfolding at_stage_def
  by (auto simp: attach_step_def socket_set_stage Let_def live_relay_def simp del: live_relay_fields)

lemma attach_uninterrupted:
  assumes "at_stage k AwaitIds c h v" and "reader c = None \<longleftrightarrow> h = None"
    and "attach_begin E c = (g, n, c')"
  shows "at_stage k (Serving g n) c' (Some k) (live_run E v (replicate 9 (Proceed k)))"
proof -
  define c3 where "c3 = c\<lparr>relay_of := (relay_of c)\<lparr>ids := bridge_reattach (ids (relay_of c)),
    handshake := handshake_reattach (handshake (relay_of c))\<rparr>, reader := None\<rparr>"
  obtain g' n' s where s: "sink_attach (to_browser_sink (notice E h (relay_of c3))) = (g', n', s)"
    by (metis prod_cases3)
  let ?c5 = "c3\<lparr>relay_of := (notice E h (relay_of c3))\<lparr>to_browser_sink := s\<rparr>\<rparr>"
  let ?s = "\<lambda>v. live_step E v (Proceed k)"
  have "at_stage k (AtNotice h) c3 None (?s (?s (?s v)))"
    using attach_stages(3) [OF attach_stages(2) [OF attach_stages(1) [OF assms(1)]], of E E E]
    by (simp add: c3_def del: live_step.simps)
  from attach_stages(4) [OF this, of E]
  have "at_stage k (AtEvict h g' n') ?c5 None (?s (?s (?s (?s (?s v)))))"
    using attach_stages(5) [of k h _ None _ g' n' s E] s by (fastforce simp del: live_step.simps)
  from attach_stages(9) [OF attach_stages(8) [OF attach_stages(7) [OF attach_stages(6) [OF this]]], of E E E E]
  have "at_stage k (Serving g' n') (?c5\<lparr>reader := Some g', watchers := watchers c + 1\<rparr>) (Some k)
      (live_run E v (replicate 9 (Proceed k)))"
    by (simp add: numeral_eq_Suc c3_def del: live_step.simps)
  moreover have "attach_begin E c = (g', n', ?c5\<lparr>reader := Some g', watchers := watchers c + 1\<rparr>)"
    using assms(2) s
    by (simp add: attach_begin_def attach_swap_def attach_reset_def notice_def c3_def Let_def split: if_splits)
  ultimately show ?thesis using assms(3) by simp
qed

lemma leave_uninterrupted:
  assumes "at_stage k (AtAbort g n why) c h v"
  shows "at_stage k Returned (attach_end g n why c) (if reader c = Some g then None else h)
    (live_run E v (replicate 5 (Proceed k)))"
proof -
  have "at_stage k Returned (attach_end g n why c) (if reader c = Some g then None else h)
      (live_step E (live_step E (live_step E (live_step E (live_step E v (Proceed k)) (Proceed k)) (Proceed k))
         (Proceed k)) (Proceed k))"
    using leave_stages(5) [OF leave_stages(4) [OF leave_stages(3) [OF leave_stages(2) [OF leave_stages(1) [OF assms]]]], of E E E E E]
    by (cases "why = TakenOver"; cases "reader c = Some g") (simp_all add: attach_end_def Let_def del: live_step.simps)
  then show ?thesis by (simp add: numeral_eq_Suc del: live_step.simps)
qed

text \<open>
  C13: Theory \<open>Relay\<close> takes a call of \<open>handle\<close>, and each half of an \<open>attach\<close>, as one step, and that is
  what they are where nothing runs in between: the task's own steps alone take the
  connection to where the step does.
\<close>

theorem uninterrupted_is_atomic:
  "(\<not> readers_hold v \<and> agent_reading v \<and> agent_call v = None \<longrightarrow>
      (\<exists>n. live_run E v (AgentSays line # replicate n RunsAgent) =
         set_relay (handle E AgentToClient line (live_relay v)) v)) \<and>
   (\<not> others_hold k v \<and> k < length (sockets v) \<and> so_reading (sockets v ! k) \<and> so_call (sockets v ! k) = None \<longrightarrow>
      (\<exists>n. live_run E v (TakesLine k line # replicate n (RunsReader k)) =
         set_relay (handle E ClientToAgent line (live_relay v)) v)) \<and>
   (at_stage k AwaitIds c h v \<and> slot_ok v \<and> attach_begin E c = (g, n, c') \<longrightarrow>
      at_stage k (Serving g n) c' (Some k) (live_run E v (replicate 9 (Proceed k)))) \<and>
   (at_stage k (AtAbort g n why) c h v \<longrightarrow>
      conn (live_run E v (replicate 5 (Proceed k))) = attach_end g n why c)"
proof (intro conjI impI, elim conjE)
  assume "\<not> readers_hold v" "agent_reading v" "agent_call v = None"
  then show "\<exists>n. live_run E v (AgentSays line # replicate n RunsAgent) =
      set_relay (handle E AgentToClient line (live_relay v)) v"
    by (rule agent_line_uninterrupted)
next
  assume "\<not> others_hold k v \<and> k < length (sockets v) \<and> so_reading (sockets v ! k) \<and> so_call (sockets v ! k) = None"
  then show "\<exists>n. live_run E v (TakesLine k line # replicate n (RunsReader k)) =
      set_relay (handle E ClientToAgent line (live_relay v)) v"
    by (intro browser_line_uninterrupted) simp_all
next
  assume a: "at_stage k AwaitIds c h v \<and> slot_ok v \<and> attach_begin E c = (g, n, c')"
  then have "reader c = None \<longleftrightarrow> h = None" by (auto simp: at_stage_def slot_ok_def)
  with a show "at_stage k (Serving g n) c' (Some k) (live_run E v (replicate 9 (Proceed k)))"
  proof -
    from a have 1: "at_stage k AwaitIds c h v" and 2: "attach_begin E c = (g, n, c')" by auto
    show ?thesis by (rule attach_uninterrupted [OF 1 \<open>reader c = None \<longleftrightarrow> h = None\<close> 2])
  qed
next
  assume "at_stage k (AtAbort g n why) c h v"
  from leave_uninterrupted [OF this, of E] show "conn (live_run E v (replicate 5 (Proceed k))) = attach_end g n why c"
    by (simp add: at_stage_def)
qed

section \<open>Two sockets at once\<close>

text \<open>
  The handle of the reader is taken at the beginning of an \<open>attach\<close> and put back at its end.
  Two sockets that attach at the same time can both find it gone.
\<close>

definition attach_both :: "nat \<Rightarrow> nat \<Rightarrow> 'i live_event list" where
  "attach_both j k = Proceed j # Proceed k # replicate 6 (Proceed j) @ replicate 6 (Proceed k)"

text \<open>A state after steps of one \<open>attach\<close>: its socket, the connection and the handle have changed.\<close>

definition moved :: "nat \<Rightarrow> ('i socket \<Rightarrow> 'i socket) \<Rightarrow> 'i connection \<Rightarrow> nat option \<Rightarrow> 'i live \<Rightarrow> 'i live" where
  "moved k f c h v = v\<lparr>conn := c, reader_handle := h, sockets := (sockets v)[k := f (sockets v ! k)]\<rparr>"

lemma moved_start: "v = moved k (\<lambda>s. s) (conn v) (reader_handle v) v"
  by (simp add: moved_def)

lemma moved_step:
  assumes "k < length (sockets v)"
  shows
  "so_stage (f (sockets v ! k)) = AtTake \<Longrightarrow> live_step E (moved k f c h v) (Proceed k) =
     moved k (\<lambda>s. (f s)\<lparr>so_stage := AtNotice h\<rparr>) (c\<lparr>reader := None\<rparr>) None v"
  "so_stage (f (sockets v ! k)) = AtNotice None \<Longrightarrow> live_step E (moved k f c h v) (Proceed k) =
     moved k (\<lambda>s. (f s)\<lparr>so_stage := AtSwap None\<rparr>) c h v"
  "so_stage (f (sockets v ! k)) = AtSwap None \<Longrightarrow> live_step E (moved k f c h v) (Proceed k) =
     (let (g, n, s) = sink_attach (to_browser_sink (relay_of c))
      in moved k (\<lambda>s. (f s)\<lparr>so_stage := AtEvict None g n\<rparr>)
           (c\<lparr>relay_of := (relay_of c)\<lparr>to_browser_sink := s\<rparr>\<rparr>) h v)"
  "so_stage (f (sockets v ! k)) = AtEvict None g n \<Longrightarrow> live_step E (moved k f c h v) (Proceed k) =
     moved k (\<lambda>s. (f s)\<lparr>so_stage := AtSpawn g n\<rparr>) c h v"
  "so_stage (f (sockets v ! k)) = AtSpawn g n \<Longrightarrow> live_step E (moved k f c h v) (Proceed k) =
     moved k (\<lambda>s. (f s)\<lparr>so_reading := True, so_stage := AtStore g n\<rparr>) c h v"
  "so_stage (f (sockets v ! k)) = AtStore g n \<Longrightarrow> live_step E (moved k f c h v) (Proceed k) =
     moved k (\<lambda>s. (f s)\<lparr>so_stage := AtSubscribe g n\<rparr>) (c\<lparr>reader := Some g\<rparr>) (Some k) v"
  "so_stage (f (sockets v ! k)) = AtSubscribe g n \<Longrightarrow> live_step E (moved k f c h v) (Proceed k) =
     moved k (\<lambda>s. (f s)\<lparr>so_stage := Serving g n\<rparr>) (c\<lparr>watchers := watchers c + 1\<rparr>) h v"
  using assms
  by (simp_all add: moved_def attach_step_def Let_def set_stage_def on_socket_def set_relay_def notice_def
      live_relay_def case_prod_beta del: live_relay_fields)

lemma take_step:
  assumes "at_stage k AtTake c h v"
  shows "live_step E v (Proceed k) = moved k (\<lambda>s. s\<lparr>so_stage := AtNotice h\<rparr>) (c\<lparr>reader := None\<rparr>) None v"
  using moved_step(1) [of k v "\<lambda>s. s" E c h] assms
  by (auto simp: at_stage_def moved_def simp del: live_step.simps)

lemma attach_rest:
  assumes "at_stage k (AtNotice None) c h v" and "sink_attach (to_browser_sink (relay_of c)) = (g, n, s)"
  shows "live_run E v (replicate 6 (Proceed k)) =
    moved k (\<lambda>s. s\<lparr>so_reading := True, so_stage := Serving g n\<rparr>)
      (c\<lparr>relay_of := (relay_of c)\<lparr>to_browser_sink := s\<rparr>, reader := Some g, watchers := watchers c + 1\<rparr>) (Some k) v"
proof -
  from assms(1) have k: "k < length (sockets v)" and st: "so_stage (sockets v ! k) = AtNotice None"
    and v: "v = moved k (\<lambda>s. s) c h v"
    using moved_start [of v k] by (auto simp: at_stage_def)
  have "live_run E (moved k (\<lambda>s. s) c h v) (replicate 6 (Proceed k)) =
    moved k (\<lambda>s. s\<lparr>so_reading := True, so_stage := Serving g n\<rparr>)
      (c\<lparr>relay_of := (relay_of c)\<lparr>to_browser_sink := s\<rparr>, reader := Some g, watchers := watchers c + 1\<rparr>) (Some k) v"
    using k st assms(2) by (simp add: numeral_eq_Suc moved_step del: live_step.simps)
  with v show ?thesis by simp
qed

lemma at_stage_moved:
  "j \<noteq> k \<Longrightarrow> at_stage j (so_stage (sockets v ! j)) c h (moved k f c h v) \<longleftrightarrow> j < length (sockets v)"
  "at_stage k (so_stage (f (sockets v ! k))) c h (moved k f c h v) \<longleftrightarrow> k < length (sockets v)"
  by (auto simp: at_stage_def moved_def)

lemma socket_moved:
  "k < length (sockets v) \<Longrightarrow> sockets (moved k f c h v) ! j = (if j = k then f (sockets v ! k) else sockets v ! j)"
  "conn (moved k f c h v) = c" "reader_handle (moved k f c h v) = h"
  "length (sockets (moved k f c h v)) = length (sockets v)"
  by (simp_all add: moved_def nth_list_update)

text \<open>
  C14: Two sockets that arrive together are both served: neither reader is told to abort, the
  first is not told that it was replaced although every line goes to the second, and the
  connection knows only the second's reader, so that no later socket ends the first's.
\<close>

theorem two_sockets_at_once:
  fixes E :: "('i, 'a) relay_env_scheme" and v :: "'i live"
  assumes "j \<noteq> k" and "at_stage j AtTake c None v" and "at_stage k AtTake c None v"
    and "\<not> so_aborted (sockets v ! j)" and "\<not> so_aborted (sockets v ! k)"
  defines "v' \<equiv> live_run E v (attach_both j k)" and "n \<equiv> length (channels (to_browser_sink (relay_of c)))"
  defines "sink' \<equiv> to_browser_sink (live_relay v')"
  shows "(\<exists>g. so_stage (sockets v' ! j) = Serving g n \<and> so_stage (sockets v' ! k) = Serving (g + 1) (Suc n)) \<and>
    so_reading (sockets v' ! j) \<and> \<not> so_aborted (sockets v' ! j) \<and>
    so_reading (sockets v' ! k) \<and> \<not> so_aborted (sockets v' ! k) \<and>
    sender sink' = Some (Suc n) \<and> ch_lines (channels sink' ! n) = [] \<and> reader_handle v' = Some k"
proof -
  let ?s = "to_browser_sink (relay_of c)" and ?c = "c\<lparr>reader := None\<rparr>"
  have jk: "j < length (sockets v)" "k < length (sockets v)" using assms(2,3) by (auto simp: at_stage_def)
  define v1 where "v1 = moved j (\<lambda>s. s\<lparr>so_stage := AtNotice None\<rparr>) ?c None v"
  have 1: "live_step E v (Proceed j) = v1" unfolding v1_def by (rule take_step [OF assms(2)])
  have k1: "at_stage k AtTake ?c None v1"
    using assms(1,3) jk by (simp add: v1_def at_stage_def socket_moved)
  define v2 where "v2 = moved k (\<lambda>s. s\<lparr>so_stage := AtNotice None\<rparr>) ?c None v1"
  have 2: "live_step E v1 (Proceed k) = v2" unfolding v2_def using take_step [OF k1, of E] by (simp del: live_step.simps)
  have j2: "at_stage j (AtNotice None) ?c None v2"
    using assms(1) jk by (simp add: v2_def v1_def at_stage_def socket_moved)
  obtain g1 n1 s1 where s1: "sink_attach ?s = (g1, n1, s1)" by (metis prod_cases3)
  let ?c3 = "?c\<lparr>relay_of := (relay_of c)\<lparr>to_browser_sink := s1\<rparr>, reader := Some g1, watchers := watchers c + 1\<rparr>"
  define v3 where "v3 = moved j (\<lambda>s. s\<lparr>so_reading := True, so_stage := Serving g1 n1\<rparr>) ?c3 (Some j) v2"
  have 3: "live_run E v2 (replicate 6 (Proceed j)) = v3"
    using attach_rest [OF j2, of g1 n1 s1 E] s1 by (simp add: v3_def del: live_step.simps)
  have k3: "at_stage k (AtNotice None) ?c3 (Some j) v3"
    using assms(1) jk by (simp add: v3_def v2_def v1_def at_stage_def socket_moved)
  obtain g2 n2 s2 where s2: "sink_attach s1 = (g2, n2, s2)" by (metis prod_cases3)
  have 4: "live_run E v3 (replicate 6 (Proceed k)) = moved k (\<lambda>s. s\<lparr>so_reading := True, so_stage := Serving g2 n2\<rparr>)
      (?c3\<lparr>relay_of := (relay_of ?c3)\<lparr>to_browser_sink := s2\<rparr>, reader := Some g2, watchers := watchers ?c3 + 1\<rparr>)
      (Some k) v3"
    using attach_rest [OF k3, of g2 n2 s2 E] s2 by (simp del: live_step.simps)
  have v': "v' = moved k (\<lambda>s. s\<lparr>so_reading := True, so_stage := Serving g2 n2\<rparr>)
      (?c3\<lparr>relay_of := (relay_of ?c3)\<lparr>to_browser_sink := s2\<rparr>, reader := Some g2, watchers := watchers ?c3 + 1\<rparr>)
      (Some k) v3"
    unfolding 4 [symmetric] by (simp add: v'_def attach_both_def 1 2 3 del: live_step.simps)
  have "n1 = n" "g2 = g1 + 1" "n2 = Suc n" "sender s2 = Some (Suc n)" "ch_lines (channels s2 ! n) = []"
    using s1 s2 by (auto simp: sink_attach_def n_def Let_def nth_append)
  moreover have "sink' = s2" by (simp add: sink'_def v' live_relay_def socket_moved del: live_relay_fields)
  ultimately show ?thesis
    using assms(1,4,5) jk by (simp add: v' v3_def v2_def v1_def socket_moved)
qed

section \<open>A question between its recording and its sending\<close>

text \<open>The agent's reader is run by itself, its call kept in sight.\<close>

definition calling :: "'i live \<Rightarrow> 'i relay \<Rightarrow> 'i call \<Rightarrow> 'i live" where
  "calling v r c = set_relay r (v\<lparr>agent_call := c\<rparr>)"

lemma calling_fields [simp]:
  "live_relay (calling v r c) = r" "agent_call (calling v r c) = c" "sockets (calling v r c) = sockets v"
  "readers_hold (calling v r c) = readers_hold v"
  by (simp_all add: calling_def readers_hold_def)

lemma agent_says:
  assumes "agent_reading v" and "agent_call v = None"
  shows "live_step E v (AgentSays line) = calling v (live_relay v) (in_call line (handle_task E AgentToClient line))"
proof -
  have "set_relay (live_relay v) (v\<lparr>agent_call := c\<rparr>) = v\<lparr>agent_call := c\<rparr>" for c
    using live_record(1) [of "v\<lparr>agent_call := c\<rparr>"] by simp
  then show ?thesis using assms by (simp add: calling_def begin_call_def)
qed

lemma agent_section:
  assumes "\<not> readers_hold v"
  shows "live_step E (calling v r (Some (line, Section p f))) RunsAgent =
    calling v (fst (f r)) (in_call line (snd (f r)))"
proof -
  have "can_run (agent_call (calling v r (Some (line, Section p f)))) (calling v r (Some (line, Section p f)))"
    by (rule agent_can_run [of _ line p f]) (use assms in \<open>simp_all add: in_call_def\<close>)
  then show ?thesis by (simp add: case_prod_beta) (simp add: calling_def set_relay_def)
qed

lemma question_pushed:
  assumes "parse E asked = Inr (Request i m p)" and "\<not> readers_hold v"
    and "agent_reading v" and "agent_call v = None"
    and "passes E (live_relay v) AgentToClient (Request i m p)"
  shows "\<exists>r. live_run E v (AgentSays asked # replicate 5 RunsAgent) = calling v r (Some (asked,
      Section Runs (\<lambda>r. (send_line AgentToClient (to_line E (Request i m p)) r, Finished ())))) \<and>
    unanswered r = unanswered (live_relay v) @ [Request i m p] \<and>
    sessions r = observe_session E AgentToClient (Request i m p) (sessions (live_relay v)) \<and>
    to_browser_sink r = to_browser_sink (live_relay v)"
proof -
  have on: "on_agent_frame E (interceptor (live_relay v)) (Request i m p) = (Forward, [], interceptor (live_relay v))"
    using assms(5) by (simp add: passes_def)
  show ?thesis
    using assms(1,2)
    by (simp add: agent_says [OF assms(3,4)] numeral_eq_Suc handle_task_def relay_frame_task_def rebind_task_def
        add_servers_task_def sync_def locked_def one_section_def agent_section in_call_def observe_task_def
        ended_turn_task_def settle_task_def keep_task_def ask_interceptor_task_def on dispose_task_def
        forward_task_def send_task_def announce_after_task_def del: live_step.simps)
       (intro exI conjI, rule refl, simp_all)
qed

text \<open>
  C15: A question is on the list before it is sent. A browser that asks for a replay in between
  is asked it twice: by the replay, and by the sending that follows.
\<close>

theorem question_can_be_asked_twice:
  fixes E :: "('i, 'a) relay_env_scheme" and v :: "'i live"
  assumes "parse E asked = Inr (Request i m p)" and "passes E (live_relay v) AgentToClient (Request i m p)"
    and "parse E line = Inr (Request j SESSION_REPLAY q)"
    and "agent_reading v" and "agent_call v = None" and "\<not> readers_hold v"
    and "k < length (sockets v)" and "so_reading (sockets v ! k)" and "so_call (sockets v ! k) = None"
  defines "asked_line \<equiv> to_line E (Request i m p)"
  shows "\<exists>n answer. to_browser_sink (live_relay (live_run E v
      (AgentSays asked # replicate 5 RunsAgent @ TakesLine k line # replicate n (RunsReader k) @ [RunsAgent]))) =
    sink_send asked_line (send_all (answer # map (to_line E) (unanswered (live_relay v)) @ [asked_line])
      (to_browser_sink (live_relay v)))"
proof -
  obtain r where r: "live_run E v (AgentSays asked # replicate 5 RunsAgent) = calling v r (Some (asked,
      Section Runs (\<lambda>r. (send_line AgentToClient asked_line r, Finished ()))))"
    and q: "unanswered r = unanswered (live_relay v) @ [Request i m p]"
    "to_browser_sink r = to_browser_sink (live_relay v)"
    using question_pushed [OF assms(1,6,4,5,2)] unfolding asked_line_def by blast
  let ?c = "Some (asked, Section Runs (\<lambda>r. (send_line AgentToClient asked_line r, Finished ())))"
  let ?v = "calling v r ?c"
  have "\<not> others_hold k ?v"
    using assms(6) reader_calls_nth [of _ v] by (auto simp: others_hold_def readers_hold_def)
  then obtain n where n: "live_run E ?v (TakesLine k line # replicate n (RunsReader k)) =
      set_relay (handle E ClientToAgent line (live_relay ?v)) ?v"
    using browser_line_uninterrupted [of k ?v E line] assms(7-9) by auto
  have "extension_call (Request j SESSION_REPLAY q)"
    by (simp add: extension_call_def is_extension_def starts_with_def)
  then obtain answer where h: "handle E ClientToAgent line r = r\<lparr>to_browser_sink :=
      send_all (answer # map (to_line E) (unanswered r)) (to_browser_sink r)\<rparr>"
    using handle_extension_eq [OF assms(3)] by auto
  let ?r = "handle E ClientToAgent line r"
  have "set_relay ?r ?v = calling v ?r ?c" by (simp add: calling_def)
  then have "live_run E v (AgentSays asked # replicate 5 RunsAgent @ TakesLine k line # replicate n (RunsReader k) @ [RunsAgent]) =
      live_step E (calling v ?r ?c) RunsAgent"
    using r n by (simp del: live_step.simps add: live_run_simps(3) [of E v "_ # _", simplified])
  also have "\<dots> = calling v (send_line AgentToClient asked_line ?r) None"
    by (simp add: agent_section [OF assms(6)] in_call_def del: live_step.simps)
  finally show ?thesis
    by (intro exI [of _ n] exI [of _ answer]) (simp add: send_line_simps h q asked_line_def)
qed

section \<open>An answer cut short\<close>

text \<open>A reader's call, section by section.\<close>

lemma reader_section:
  assumes "\<not> others_hold k v" and "k < length (sockets v)"
  shows "live_step E (set_relay r (on_socket k (\<lambda>s. s\<lparr>so_call := Some (line, Section p f)\<rparr>) v)) (RunsReader k) =
    set_relay (fst (f r)) (on_socket k (\<lambda>s. s\<lparr>so_call := in_call line (snd (f r))\<rparr>) v)"
proof -
  let ?v = "set_relay r (on_socket k (\<lambda>s. s\<lparr>so_call := Some (line, Section p f)\<rparr>) v)"
  have "can_run (so_call (sockets ?v ! k)) ?v"
    by (rule reader_can_run [of _ _ line p f])
       (use assms in \<open>auto simp: others_hold_def socket_on_socket in_call_def\<close>)
  then show ?thesis using assms(2) by (simp add: socket_on_socket case_prod_beta)
qed

lemmas response_sections =
  begin_call_def handle_task_def extension_call_def answer_from_recording_task_def relay_frame_task_def
  rebind_task_def add_servers_task_def observe_task_def ended_turn_task_def settle_task_def locked_def sync_def
  one_section_def in_call_def reader_section numeral_eq_Suc Let_def case_prod_beta

lemma answer_settled:
  assumes "parse E line = Inr (Response i p)" and "\<not> others_hold k v" and "k < length (sockets v)"
    and "so_reading (sockets v ! k)" and "so_call (sockets v ! k) = None"
  defines "n \<equiv> if mcp_servers_of (live_relay v) = [] then 3 else 4 :: nat"
  shows "\<exists>r f. live_run E v (TakesLine k line # replicate n (RunsReader k)) =
      set_relay r (on_socket k (\<lambda>s. s\<lparr>so_call := Some (line, Section (Awaits UnansweredLock) f)\<rparr>) v) \<and>
    sessions r = observe_session E ClientToAgent (Response i p) (sessions (live_relay v)) \<and>
    unanswered r = unanswered (live_relay v) \<and> to_agent_lines r = to_agent_lines (live_relay v)"
proof -
  have "live_step E v (TakesLine k line) =
      set_relay (live_relay v) (on_socket k (\<lambda>s. s\<lparr>so_call := begin_call E ClientToAgent line\<rparr>) v)"
    using assms(3-5) live_record(1) [of "on_socket k (\<lambda>s. s\<lparr>so_call := begin_call E ClientToAgent line\<rparr>) v"] by simp
  moreover have "merge_mcp_servers E w (Response i p) servers tr = None" for w servers tr
    by simp
  ultimately show ?thesis
    using assms(1-3)
    by (cases "mcp_servers_of (live_relay v) = []")
      (simp add: n_def response_sections del: live_step.simps observe.simps, intro exI conjI, rule refl, simp_all)+
qed

text \<open>
  The reader has passed an answer to the store, where its question now counts as answered, when a
  new socket takes over and the reader is ended at the next lock: the agent gets no answer, and
  the question stays on the list that the new browser is asked from.
\<close>

theorem answer_can_be_cut:
  assumes "parse E line = Inr (Response i p)" and "\<not> others_hold k v" and "k < length (sockets v)"
    and "so_reading (sockets v ! k)" and "so_call (sockets v ! k) = None"
    and "at_stage j (AtEvict (Some k) g m) c h v" and "j \<noteq> k"
  defines "n \<equiv> if mcp_servers_of (live_relay v) = [] then 3 else 4 :: nat"
  defines "v' \<equiv> live_run E v (TakesLine k line # replicate n (RunsReader k) @ [Proceed j, CutReader k])"
  shows "sessions (live_relay v') = observe_session E ClientToAgent (Response i p) (sessions (live_relay v)) \<and>
    unanswered (live_relay v') = unanswered (live_relay v) \<and>
    to_agent_lines (live_relay v') = to_agent_lines (live_relay v) \<and>
    \<not> so_reading (sockets v' ! k) \<and> so_call (sockets v' ! k) = None"
proof -
  obtain r f where r: "live_run E v (TakesLine k line # replicate n (RunsReader k)) =
      set_relay r (on_socket k (\<lambda>s. s\<lparr>so_call := Some (line, Section (Awaits UnansweredLock) f)\<rparr>) v)"
    "sessions r = observe_session E ClientToAgent (Response i p) (sessions (live_relay v))"
    "unanswered r = unanswered (live_relay v)" "to_agent_lines r = to_agent_lines (live_relay v)"
    using answer_settled [OF assms(1-5)] unfolding n_def by blast
  let ?v = "set_relay r (on_socket k (\<lambda>s. s\<lparr>so_call := Some (line, Section (Awaits UnansweredLock) f)\<rparr>) v)"
  have "v' = live_run E ?v [Proceed j, CutReader k]"
    using r(1) live_run_simps(3) [of E v "TakesLine k line # replicate n (RunsReader k)"]
    by (simp add: v'_def del: live_step.simps)
  moreover have "live_step E ?v (Proceed j) =
      set_stage j (AtSpawn g m) (on_socket k (\<lambda>s. s\<lparr>so_aborted := True\<rparr>) ?v)"
    using assms(3,6,7) by (simp add: attach_step_def at_stage_def socket_on_socket)
  ultimately show ?thesis
    using r(2-4) assms(3,6,7)
    by (simp add: at_await_def set_stage_def socket_on_socket at_stage_def)
qed

end
