(* ===== verification/Relay_Demo.thy ===== *)
theory Relay_Demo
  imports Connection
begin

text \<open>
  Concrete runs of the relay: a JSON library that knows a handful of lines, an
  interceptor that lets everything pass or takes everything, and the instances of the
  theorems of \<open>Relay_Props\<close> and \<open>Connection\<close> on them.
\<close>

definition demo_env :: "disposition \<Rightarrow> (string \<times> wire) list \<Rightarrow> (raw \<times> json) list \<Rightarrow> unit relay_env" where
  "demo_env disp known values = \<lparr>
     de_wire = de_wire (toy_serde known), ser_string = ser_string (toy_serde known),
     ser_error = ser_error (toy_serde known),
     de_value = (\<lambda>r. case map_of values r of None \<Rightarrow> Inl ''expected value'' | Some v \<Rightarrow> Inr v),
     ser_value = (\<lambda>v. Inr ''{}''), tool_dflt = demo_defaults,
     de_load = Inr, de_resume = Inr, de_delete = Inr, de_close = Inr, de_set_config = Inr,
     de_prompt = (\<lambda>r. Inr (r, [])), de_elicit = de_elicit demo_acp, de_elicit_done = Inr,
     de_session_note = de_session_note demo_acp, de_prompt_resp = de_prompt_resp demo_acp,
     de_new_resp = (\<lambda>r. Inr (r, None, None)), de_load_resp = (\<lambda>r. Inr (None, None)),
     de_config_resp = (\<lambda>r. Inr []), de_elicit_resp = (\<lambda>r. Inr DeclineAction),
     ser_thread = (\<lambda>t. Inr ''{}''),
     wire_json = demo_wire, de_replay = Inr,
     on_client_frame = (\<lambda>i f. (disp, [], i)), on_agent_frame = (\<lambda>i f. (disp, [], i))\<rparr>"

definition call :: "request_id \<Rightarrow> string \<Rightarrow> raw option \<Rightarrow> wire" where
  "call i m p = no_fields\<lparr>w_id := Some i, w_method := Some m, w_params := p\<rparr>"

definition answer_wire :: "request_id \<Rightarrow> raw \<Rightarrow> wire" where
  "answer_wire i r = no_fields\<lparr>w_id := Some i, w_result := Some (Some r)\<rparr>"

definition demo_info :: agent_info where
  "demo_info = \<lparr>ai_agent_id = ''mock'', ai_name = ''Mock'', ai_command = [''mock''], ai_cwd = ''/w'',
     ai_connection_id = ''c1'', ai_resumed = False, ai_mcp_servers = []\<rparr>"

definition demo_relay :: "unit relay" where
  "demo_relay = new_relay () demo_info []"

lemmas demo_simps = demo_env_def toy_serde_def call_def answer_wire_def no_fields_def parse_def
  parse_wire_def

lemma parse_demo:
  "map_of known l = Some w \<Longrightarrow> parse (demo_env disp known values) l = parse_wire w"
  by (simp add: demo_env_def toy_serde_def parse_def)

lemma parse_call [simp]:
  "i \<noteq> IdNull \<Longrightarrow> parse_wire (call i m p) = Inr (Request i m p)"
  by (cases i) (simp_all add: call_def parse_wire_def no_fields_def)

lemma parse_answer [simp]: "parse_wire (answer_wire i r) = Inr (Response i (Result r))"
  by (simp add: answer_wire_def parse_wire_def no_fields_def)

lemma passes_demo: "passes (demo_env Forward known values) r d f"
  by (simp add: passes_def demo_env_def split: direction.split)

lemma ser_value_demo [simp]: "ser_value (demo_env disp known values) v = Inr ''{}''"
  by (simp add: demo_env_def)

theorem extensions_stay_with_the_server_witness:
  "let E = demo_env Forward [(''x'', call (IdNumber 5) ''_mjx/unknown'' None)] [] in
     handle E ClientToAgent ''x'' demo_relay =
     demo_relay\<lparr>to_browser_sink := sink_send
       (to_line E (Response (IdNumber 5) (Error (method_not_found ''_mjx/unknown'')))) new_sink\<rparr>"
proof -
  let ?E = "demo_env Forward [(''x'', call (IdNumber 5) ''_mjx/unknown'' None)] []"
  have line: "parse ?E ''x'' = Inr (Request (IdNumber 5) ''_mjx/unknown'' None)"
    by (simp add: parse_demo)
  have "extension_call (Request (IdNumber 5) ''_mjx/unknown'' None)"
    by (simp add: extension_call_def is_extension_def starts_with_def)
  from extensions_stay_with_the_server [OF line this, of demo_relay] show ?thesis
    by (simp add: Let_def) (simp add: demo_relay_def new_relay_def)
qed

theorem initialize_asked_once_witness:
  "let E = demo_env Forward [(''ask'', call (IdNumber 1) INITIALIZE None),
             (''answer'', answer_wire (IdNumber 1) ''{}'')] [];
       r1 = relay_run E (relay_step E demo_relay (FromBrowser ''ask'')) [FromAgentLine ''answer'', NewBrowser]
   in to_agent_lines (handle E ClientToAgent ''ask'' r1) = to_agent_lines r1"
proof -
  let ?E = "demo_env Forward [(''ask'', call (IdNumber 1) INITIALIZE None),
             (''answer'', answer_wire (IdNumber 1) ''{}'')] []"
  let ?r = "relay_step ?E demo_relay (FromBrowser ''ask'')"
  have ask: "parse ?E ''ask'' = Inr (Request (IdNumber 1) INITIALIZE None)"
    and answer: "parse ?E ''answer'' = Inr (Response (IdNumber 1) (Result ''{}''))"
    by (simp_all add: parse_demo)
  have step: "?r = relay_frame ?E ClientToAgent (Request (IdNumber 1) INITIALIZE None) demo_relay"
    using ask initialize_not_extension(1) [of "IdNumber 1" None]
    by (simp add: handle_def answer_from_recording_def recorded_def demo_relay_def new_relay_def
        new_handshake_def)
  have "peek (correlator_of ?r) ClientToAgent (IdNumber 1) = Some INITIALIZE"
    unfolding step
    using relay_request [of demo_relay ?E INITIALIZE None "IdNumber 1"] passes_demo
    by (simp add: demo_relay_def new_relay_def new_bridge_def)
  moreover have "hs_initialize (handshake ?r) = None"
    unfolding step
    by (simp add: relay_frame_def rebind_def add_servers_def observe_frame_def ask_interceptor_def
        dispose_def forward_client send_line_simps write_out_eq keep_answer_def ended_turn_def
        announce_after_handshake_def demo_relay_def new_relay_def new_handshake_def demo_env_def
        case_prod_beta Let_def)
  ultimately show ?thesis
    unfolding Let_def
    using initialize_asked_once [OF answer _ _ ask, of ?r "[NewBrowser]"] by simp
qed

definition with_session :: "raw \<Rightarrow> unit relay" where
  "with_session v = demo_relay\<lparr>handshake := new_handshake\<lparr>hs_new_session := Some v\<rparr>\<rparr>"

theorem first_new_session_is_resumed_witness:
  "let E = demo_env Forward [(''new'', call (IdNumber 2) SESSION_NEW None)] [];
       r1 = relay_run E (with_session ''{}'') [NewBrowser];
       r2 = handle E ClientToAgent ''new'' r1
   in to_agent_lines r2 = to_agent_lines r1 \<and>
      handle E ClientToAgent ''new'' r2 =
        relay_frame E ClientToAgent (Request (IdNumber 2) SESSION_NEW None) r2"
proof -
  let ?E = "demo_env Forward [(''new'', call (IdNumber 2) SESSION_NEW None)] []"
  have line: "parse ?E ''new'' = Inr (Request (IdNumber 2) SESSION_NEW None)"
    by (simp add: parse_demo)
  have "hs_new_session (handshake (with_session ''{}'')) = Some ''{}''"
    by (simp add: with_session_def)
  from first_new_session_is_resumed [OF this line line, of "[]"] show ?thesis
    by (auto simp: Let_def to_browser_eq)
qed

theorem answers_go_to_the_asker_witness:
  "let E = demo_env Forward [(''list'', call (IdNumber 3) ''session/list'' None)] [] in
     fst (for_browser (IdNumber 2) (ids (relay_run E (new_relay () demo_info [])
       ([FromBrowser ''list''] @ NewBrowser # [FromBrowser ''list''])))) = Some (IdNumber 3) \<and>
     (\<exists>line m p. FromBrowser line \<in> set [FromBrowser ''list''] \<and> parse E line = Inr (Request (IdNumber 3) m p))"
proof -
  let ?E = "demo_env Forward [(''list'', call (IdNumber 3) ''session/list'' None)] []"
  have line: "parse ?E ''list'' = Inr (Request (IdNumber 3) ''session/list'' None)"
    by (simp add: parse_demo)
  have h: "relay_step ?E r (FromBrowser ''list'') =
      relay_frame ?E ClientToAgent (Request (IdNumber 3) ''session/list'' None) r" for r
    using line by (simp add: handle_def answer_from_recording_def recorded_def extension_call_def
        is_extension_def starts_with_def)
  have frame: "ids (relay_frame ?E ClientToAgent (Request (IdNumber 3) ''session/list'' None) r) =
      snd (for_agent (IdNumber 3) (ids r)) \<and>
      mcp_servers_of (relay_frame ?E ClientToAgent (Request (IdNumber 3) ''session/list'' None) r) = []"
    if "mcp_servers_of r = []" for r
    using that
    by (simp add: relay_frame_def rebind_def add_servers_def observe_frame_def ask_interceptor_def
        dispose_def forward_client send_line_simps write_out_eq ended_turn_def
        announce_after_handshake_def demo_env_def for_agent_def case_prod_beta Let_def)
  have "fst (for_browser (IdNumber 2) (ids (relay_run ?E (new_relay () demo_info [])
      ([FromBrowser ''list''] @ NewBrowser # [FromBrowser ''list''])))) = Some (IdNumber 3)"
    using frame
    by (simp only: relay_run_def foldl_Cons foldl_Nil append_Cons append_Nil h relay_step.simps(3))
       (simp add: new_relay_def new_bridge_def bridge_reattach_def for_agent_def for_browser_def Let_def)
  with answers_go_to_the_asker [OF this] show ?thesis unfolding Let_def by blast
qed

definition in_a_turn :: "unit relay" where
  "in_a_turn = demo_relay\<lparr>
     correlator_of := snd (observe ClientToAgent (Request (IdNumber 1) SESSION_PROMPT (Some ''s'')) new_correlator),
     sessions := new_store\<lparr>pending_prompts := [(IdNumber 1, ''s'')]\<rparr>,
     unanswered := [Request (IdNumber 9) ''session/request_permission'' (Some ''q'')]\<rparr>"

theorem inherited_turn_is_reported_over_witness:
  "let E = demo_env Forward [(''done'', answer_wire (IdNumber 1) ''r'')]
             [(''q'', JObject [(''sessionId'', JString ''s'')])];
       r' = handle E AgentToClient ''done'' in_a_turn
   in to_browser_sink r' =
        sink_send (to_line E (Notification SESSION_TURN_ENDED (Some ''{}''))) (to_browser_sink in_a_turn)
      \<and> unanswered r' = []"
proof -
  let ?E = "demo_env Forward [(''done'', answer_wire (IdNumber 1) ''r'')]
      [(''q'', JObject [(''sessionId'', JString ''s'')])]"
  have line: "parse ?E ''done'' = Inr (Response (IdNumber 1) (Result ''r''))"
    by (simp add: parse_demo)
  have peek: "peek (correlator_of in_a_turn) ClientToAgent (IdNumber 1) = Some SESSION_PROMPT"
    by (simp add: in_a_turn_def peek_def)
  have prompt: "session_of_prompt (sessions in_a_turn) (IdNumber 1) = Some ''s''"
    by (simp add: in_a_turn_def session_of_prompt_def)
  have gone: "hm_get (outstanding (ids in_a_turn)) (IdNumber 1) = None"
    by (simp add: in_a_turn_def demo_relay_def new_relay_def new_bridge_def)
  have json: "ser_value ?E (session_turn_ended_json
      \<lparr>te_session_id = ''s'', te_stop_reason = stop_reason_of ?E (Result ''r'')\<rparr>) = Inr ''{}''"
    by (simp add: demo_env_def)
  have "session_of ?E (Request (IdNumber 9) ''session/request_permission'' (Some ''q'')) = Some ''s''"
    by (simp add: session_of_def demo_env_def)
  with inherited_turn_is_reported_over [OF line peek prompt gone passes_demo json] show ?thesis
    by (simp add: Let_def in_a_turn_def)
qed


theorem intercepted_frames_are_mirrored_witness:
  "let E = demo_env Intercept [(''read'', call (IdNumber 4) ''fs/read_text_file'' None)] [];
       r' = handle E AgentToClient ''read'' demo_relay
   in to_agent_lines r' = [] \<and> unanswered r' = []"
proof -
  let ?E = "demo_env Intercept [(''read'', call (IdNumber 4) ''fs/read_text_file'' None)] []"
  let ?f = "Request (IdNumber 4) ''fs/read_text_file'' None"
  have line: "parse ?E ''read'' = Inr ?f" by (simp add: parse_demo)
  obtain l e r1 where o: "observe_frame ?E AgentToClient ?f demo_relay = (l, e, r1)"
    by (metis prod_cases3)
  have "to_agent_lines r1 = []" and "unanswered r1 = []"
    using o by (auto simp: observe_frame_def ended_turn_def settle_unanswered_def demo_relay_def
        new_relay_def case_prod_beta Let_def)
  moreover have "on_agent_frame ?E (interceptor r1) ?f = (Intercept, [], interceptor r1)"
    by (simp add: demo_env_def)
  note intercepted_frames_are_mirrored [OF line o this]
  ultimately show ?thesis by (simp add: Let_def lines_to_def)
qed

definition opted_out :: json where
  "opted_out = JObject [(''clientCapabilities'', JObject [(''fs'', JObject [(''readTextFile'', JBool False)])])]"

theorem capabilities_are_added_witness:
  "\<exists>raw caps. merge_client_capabilities (demo_env Forward [] [(''p'', opted_out)])
     (Request (IdNumber 1) INITIALIZE (Some ''p'')) True True = Some (Request (IdNumber 1) INITIALIZE (Some raw)) \<and>
     map_of caps ''terminal'' = Some (JBool True)"
proof -
  let ?E = "demo_env Forward [] [(''p'', opted_out)]"
  have members: "params_value ?E (Some ''p'') = JObject [(''clientCapabilities'',
      JObject [(''fs'', JObject [(''readTextFile'', JBool False)])])]"
    by (simp add: params_value_def demo_env_def opted_out_def)
  have caps: "object_at [(''clientCapabilities'', JObject [(''fs'', JObject [(''readTextFile'', JBool False)])])]
      ''clientCapabilities'' = Some [(''fs'', JObject [(''readTextFile'', JBool False)])]"
    and flags: "object_at [(''fs'', JObject [(''readTextFile'', JBool False)])] ''fs'' =
      Some [(''readTextFile'', JBool False)]"
    by (simp_all add: object_at_def)
  have some: "merge_client_capabilities ?E (Request (IdNumber 1) INITIALIZE (Some ''p'')) True True =
      Some (Request (IdNumber 1) INITIALIZE (Some ''{}''))"
    by (rule merge_opted_out [OF members]) simp
  from capabilities_are_added [OF members caps flags some] obtain raw caps' where
    "Request (IdNumber 1) INITIALIZE (Some ''{}'') = Request (IdNumber 1) INITIALIZE (Some raw)"
    "map_of caps' ''terminal'' = Some (JBool True)"
    by (elim exE conjE) (rule that)
  with some show ?thesis by (intro exI [of _ raw] exI [of _ caps']) simp
qed

theorem opt_out_is_overridden_witness:
  "merge_client_capabilities (demo_env Forward [] [(''p'', opted_out)])
     (Request (IdNumber 1) INITIALIZE (Some ''p'')) True True = Some (Request (IdNumber 1) INITIALIZE (Some ''{}''))"
  by (rule opt_out_is_overridden) (simp_all add: params_value_def demo_env_def opted_out_def)

definition demo_process :: agent_process where
  "demo_process = \<lparr>ap_pid = 7, ap_ended = None\<rparr>"

theorem takeover_is_clean_witness:
  "let E = demo_env Forward [] []; c = start () demo_process demo_info [];
       c1 = snd (snd (attach_begin E c)); c2 = snd (snd (attach_begin E c1))
   in ch_lines (channels (to_browser_sink (relay_of c2)) ! 0) =
        [to_line E (Notification CONNECTION_TAKEN_OVER (Some ''{}''))] \<and>
      attach_end 1 0 TakenOver c2 = c2\<lparr>watchers := watchers c2 - 1\<rparr>"
proof -
  let ?E = "demo_env Forward [] []" and ?c = "start () demo_process demo_info []"
  let ?c1 = "snd (snd (attach_begin ?E ?c))"
  let ?c2 = "snd (snd (attach_begin ?E ?c1))"
  have first: "attach_begin ?E ?c = (1, 0, ?c1)"
    by (simp add: attach_begin_eq start_def new_relay_def new_sink_def Let_def)
  have second: "attach_begin ?E ?c1 = (fst (attach_begin ?E ?c1), fst (snd (attach_begin ?E ?c1)), ?c2)"
    by simp
  have "ser_value ?E (JObject []) = Inr ''{}''" by (simp add: demo_env_def)
  from takeover_is_clean [OF first second this] show ?thesis by (simp add: Let_def)
qed

theorem late_request_is_answered_to_successor_witness:
  "let E = demo_env Forward [(''list'', call (IdNumber 3) ''session/list'' None),
             (''answer'', answer_wire (IdNumber 1) ''{}'')] [];
       c0 = attach_reset (start () demo_process demo_info []);
       c1 = c0\<lparr>relay_of := handle E ClientToAgent ''list'' (relay_of c0)\<rparr>;
       n = fst (snd (attach_swap E c1)); c2 = snd (snd (attach_swap E c1))
   in ch_lines (channels (to_browser_sink (handle E AgentToClient ''answer'' (relay_of c2))) ! n) =
        [to_line E (Response (IdNumber 3) (Result ''{}''))]"
proof -
  let ?E = "demo_env Forward [(''list'', call (IdNumber 3) ''session/list'' None),
             (''answer'', answer_wire (IdNumber 1) ''{}'')] []"
  let ?c = "start () demo_process demo_info []"
  have none: "mcp_servers_of (relay_of ?c) = []" by (simp add: start_def new_relay_def)
  have line: "parse ?E ''list'' = Inr (Request (IdNumber 3) ''session/list'' None)"
    by (simp add: parse_demo)
  have plain: "\<not> is_extension ''session/list''" "''session/list'' \<noteq> INITIALIZE" "''session/list'' \<noteq> SESSION_NEW"
    by (simp_all add: is_extension_def starts_with_def)
  have answer: "parse ?E ''answer'' = Inr (Response (IdNumber (next_id (ids (relay_of ?c)) + 1)) (Result ''{}''))"
    by (simp add: parse_demo start_def new_relay_def new_bridge_def)
  show ?thesis
    unfolding Let_def
    by (rule late_request_is_answered_to_successor [OF none line plain passes_demo answer])
qed

end
