(* ===== verification/Live_Demo.thy ===== *)
theory Live_Demo
  imports Live_Races Live_Progress Relay_Demo
begin

text \<open>
  The connection of \<open>Relay_Demo\<close> with its tasks: the instances of the theorems of \<open>Live_Props\<close> and
  \<open>Live_Races\<close> on it.
\<close>

definition fresh :: "unit live" where
  "fresh = new_live (start () demo_process demo_info [])"

definition with_sockets :: "unit socket list \<Rightarrow> unit live" where
  "with_sockets ss = fresh\<lparr>sockets := ss\<rparr>"

lemma fresh_fields [simp]:
  "sockets fresh = []" "agent_call fresh = None" "agent_reading fresh" "reader_handle fresh = None"
  "reader (conn fresh) = None" "live_relay fresh = demo_relay" "watchers (conn fresh) = 0"
  by (simp_all add: fresh_def new_live_def start_def live_relay_def demo_relay_def del: live_relay_fields)

lemma with_sockets_fields [simp]:
  "sockets (with_sockets ss) = ss" "agent_call (with_sockets ss) = None" "agent_reading (with_sockets ss)"
  "reader_handle (with_sockets ss) = None" "conn (with_sockets ss) = conn fresh"
  "live_relay (with_sockets ss) = demo_relay" "reader_calls (with_sockets ss) = so_call ` set ss"
  by (simp_all add: with_sockets_def reader_calls_def)


theorem uninterrupted_is_atomic_witness:
  "let E = demo_env Forward [(''ask'', call (IdNumber 9) ''session/request_permission'' None)] [];
       v = with_sockets [new_socket]
   in (\<exists>n. live_run E v (AgentSays ''ask'' # replicate n RunsAgent) =
         set_relay (handle E AgentToClient ''ask'' demo_relay) v) \<and>
      conn (live_run E v (replicate 9 (Proceed 0))) = snd (snd (attach_begin E (conn v)))"
proof -
  let ?E = "demo_env Forward [(''ask'', call (IdNumber 9) ''session/request_permission'' None)] []"
  let ?v = "with_sockets [new_socket]"
  have "\<not> readers_hold ?v" by (simp add: readers_hold_def new_socket_def)
  moreover have "at_stage 0 AwaitIds (conn ?v) None ?v" "slot_ok ?v"
    by (simp_all add: at_stage_def slot_ok_def new_socket_def)
  moreover obtain g n c' where "attach_begin ?E (conn ?v) = (g, n, c')" by (metis prod_cases3)
  ultimately show ?thesis
    using uninterrupted_is_atomic [of ?v ?E "''ask''" 0 "conn ?v" None g n c' TakenOver]
    by (simp add: at_stage_def Let_def del: live_step.simps live_run_simps)
qed

theorem two_sockets_at_once_witness:
  "let v = with_sockets [new_socket\<lparr>so_stage := AtTake\<rparr>, new_socket\<lparr>so_stage := AtTake\<rparr>];
       v' = live_run (demo_env Forward [] []) v (attach_both 0 1)
   in so_reading (sockets v' ! 0) \<and> \<not> so_aborted (sockets v' ! 0) \<and>
      sender (to_browser_sink (live_relay v')) = Some 1 \<and>
      ch_lines (channels (to_browser_sink (live_relay v')) ! 0) = [] \<and> reader_handle v' = Some 1"
proof -
  let ?v = "with_sockets [new_socket\<lparr>so_stage := AtTake\<rparr>, new_socket\<lparr>so_stage := AtTake\<rparr>]"
  have "at_stage 0 AtTake (conn fresh) None ?v" "at_stage 1 AtTake (conn fresh) None ?v"
    by (simp_all add: at_stage_def)
  moreover have "\<not> so_aborted (sockets ?v ! 0)" "\<not> so_aborted (sockets ?v ! 1)"
    by (simp_all add: new_socket_def)
  moreover have "length (channels (to_browser_sink (relay_of (conn fresh)))) = 0"
    by (simp add: demo_relay_def new_relay_def new_sink_def)
  ultimately show ?thesis
    using two_sockets_at_once [of 0 1 "conn fresh" ?v "demo_env Forward [] []"]
    by (simp add: Let_def)
qed

theorem question_can_be_asked_twice_witness:
  "let E = demo_env Forward [(''ask'', call (IdNumber 9) ''session/request_permission'' None),
             (''replay'', call (IdNumber 2) SESSION_REPLAY None)] [];
       line = to_line E (Request (IdNumber 9) ''session/request_permission'' None)
   in \<exists>evs answer. to_browser_sink (live_relay (live_run E (with_sockets [new_socket\<lparr>so_reading := True\<rparr>]) evs)) =
        sink_send line (sink_send line (sink_send answer new_sink))"
proof -
  let ?E = "demo_env Forward [(''ask'', call (IdNumber 9) ''session/request_permission'' None),
             (''replay'', call (IdNumber 2) SESSION_REPLAY None)] []"
  let ?v = "with_sockets [new_socket\<lparr>so_reading := True\<rparr>]"
  have "parse ?E ''ask'' = Inr (Request (IdNumber 9) ''session/request_permission'' None)"
    "parse ?E ''replay'' = Inr (Request (IdNumber 2) SESSION_REPLAY None)"
    by (simp_all add: parse_demo)
  moreover have "\<not> readers_hold ?v" by (simp add: readers_hold_def new_socket_def)
  moreover have "so_call (sockets ?v ! 0) = None" "so_reading (sockets ?v ! 0)" by (simp_all add: new_socket_def)
  ultimately obtain n answer where "to_browser_sink (live_relay (live_run ?E ?v
      (AgentSays ''ask'' # replicate 5 RunsAgent @ TakesLine 0 ''replay'' # replicate n (RunsReader 0) @ [RunsAgent]))) =
    sink_send (to_line ?E (Request (IdNumber 9) ''session/request_permission'' None))
      (send_all (answer # map (to_line ?E) (unanswered (live_relay ?v)) @
         [to_line ?E (Request (IdNumber 9) ''session/request_permission'' None)]) (to_browser_sink (live_relay ?v)))"
    using question_can_be_asked_twice [of ?E "''ask''" "IdNumber 9" "''session/request_permission''" None ?v
      "''replay''" "IdNumber 2" None 0] passes_demo by (auto simp del: live_run_simps live_step.simps)
  moreover have "unanswered demo_relay = []" "to_browser_sink demo_relay = new_sink"
    by (simp_all add: demo_relay_def new_relay_def)
  ultimately show ?thesis unfolding Let_def by (auto simp del: live_run_simps live_step.simps)
qed



text \<open>The answer to a question of the agent, on a socket whose place another takes.\<close>

theorem answer_can_be_cut_witness:
  "let v = with_sockets [new_socket\<lparr>so_reading := True\<rparr>, new_socket\<lparr>so_stage := AtEvict (Some 0) 2 1\<rparr>];
       E = demo_env Forward [(''yes'', answer_wire (IdNumber 9) ''{}'')] [];
       v' = live_run E v (TakesLine 0 ''yes'' # replicate 3 (RunsReader 0) @ [Proceed 1, CutReader 0])
   in sessions (live_relay v') = observe_session E ClientToAgent (Response (IdNumber 9) (Result ''{}'')) (sessions demo_relay) \<and>
      to_agent_lines (live_relay v') = [] \<and> so_call (sockets v' ! 0) = None"
proof -
  let ?v = "with_sockets [new_socket\<lparr>so_reading := True\<rparr>, new_socket\<lparr>so_stage := AtEvict (Some 0) 2 1\<rparr>]"
  let ?E = "demo_env Forward [(''yes'', answer_wire (IdNumber 9) ''{}'')] []"
  have line: "parse ?E ''yes'' = Inr (Response (IdNumber 9) (Result ''{}''))" by (simp add: parse_demo)
  have "\<not> others_hold 0 ?v" by (auto simp: others_hold_def new_socket_def less_Suc_eq)
  moreover have "at_stage 1 (AtEvict (Some 0) 2 1) (conn fresh) None ?v" by (simp add: at_stage_def)
  moreover have "so_reading (sockets ?v ! 0)" "so_call (sockets ?v ! 0) = None" by (simp_all add: new_socket_def)
  moreover have "mcp_servers_of demo_relay = []" "to_agent_lines demo_relay = []"
    by (simp_all add: demo_relay_def new_relay_def)
  ultimately show ?thesis
    using answer_can_be_cut [OF line, of 0 ?v 1 2 1 "conn fresh" None]
    by (simp add: Let_def del: live_step.simps live_run_simps)
qed

end
