(* ===== verification/Disk.thy ===== *)
theory Disk
  imports Prelude
begin

text \<open>
  The part of \<open>std::fs\<close> and \<open>std::path\<close> the workspace uses, on a Unix file system: names
  below a root directory, each a file with its bytes, a directory, or a symbolic link with
  its target. A physical path is the list of names from the root; resolving a textual
  path follows links, and \<open>..\<close> is the physical parent, as the kernel does it.
\<close>

section \<open>Textual paths\<close>

type_synonym names = "string list"

fun split_on :: "char \<Rightarrow> string \<Rightarrow> string list" where
  "split_on c [] = [[]]"
| "split_on c (x # xs) =
     (if x = c then [] # split_on c xs
      else case split_on c xs of [] \<Rightarrow> [[x]] | w # ws \<Rightarrow> (x # w) # ws)"

text \<open>\<open>Path::components\<close> of an absolute path, without the root: empty and \<open>.\<close> parts are skipped.\<close>

definition components :: "string \<Rightarrow> names" where
  "components p = filter (\<lambda>c. c \<noteq> [] \<and> c \<noteq> ''.'') (split_on (CHR ''/'') p)"

definition absolute_path :: "string \<Rightarrow> bool" where
  "absolute_path p \<longleftrightarrow> starts_with p ''/''"

definition render :: "names \<Rightarrow> string" where
  "render ns = (if ns = [] then ''/'' else concat (map (\<lambda>n. ''/'' @ n) ns))"

definition parent_of :: "names \<Rightarrow> names option" where
  "parent_of ns = (if ns = [] then None else Some (butlast ns))"

definition file_name :: "names \<Rightarrow> string option" where
  "file_name ns = (if ns = [] \<or> last ns = ''..'' then None else Some (last ns))"

section \<open>The disk\<close>

datatype node = File string | Dir | Link bool names

text \<open>
  \<open>Link absolute target\<close>. \<open>denies\<close> are the paths the operating system refuses to open,
  whatever the reason; a relative path starts at the process's working directory.
\<close>

record disk =
  nodes :: "(names, node) hmap"
  denies :: "names list"
  process_cwd :: names

definition node_at :: "disk \<Rightarrow> names \<Rightarrow> node option" where
  "node_at d ns = (if ns = [] then Some Dir else hm_get (nodes d) ns)"

text \<open>The kernel follows at most 40 links; the last name may be missing where \<open>create\<close> is set.\<close>

function walk :: "disk \<Rightarrow> bool \<Rightarrow> nat \<Rightarrow> names \<Rightarrow> names \<Rightarrow> names option" where
  "walk d create n cur [] = Some cur"
| "walk d create n cur (c # cs) =
     (if c = ''..'' then walk d create n (butlast cur) cs
      else case node_at d (cur @ [c]) of
             None \<Rightarrow> if create \<and> cs = [] then Some (cur @ [c]) else None
           | Some (File _) \<Rightarrow> if cs = [] then Some (cur @ [c]) else None
           | Some Dir \<Rightarrow> walk d create n (cur @ [c]) cs
           | Some (Link absolute target) \<Rightarrow>
               if n = 0 then None
               else walk d create (n - 1) (if absolute then [] else cur) (target @ cs))"
  by pat_completeness auto

termination by (relation "measures [\<lambda>(d, create, n, cur, cs). n, \<lambda>(d, create, n, cur, cs). length cs]") auto

definition MAX_LINKS :: nat where
  "MAX_LINKS = 40"

text \<open>\<open>Path::canonicalize\<close>.\<close>

definition canonical :: "disk \<Rightarrow> names \<Rightarrow> names option" where
  "canonical d ns = walk d False MAX_LINKS [] ns"

definition canonical_path :: "disk \<Rightarrow> string \<Rightarrow> names option" where
  "canonical_path d p =
     (if p = [] then None
      else if absolute_path p then canonical d (components p)
      else walk d False MAX_LINKS (process_cwd d) (components p))"

text \<open>\<open>fs::read_to_string\<close>: \<open>None\<close> for what is not there, not a file, refused or not UTF-8.\<close>

fun utf8 :: "nat list \<Rightarrow> bool" where
  "utf8 [] = True"
| "utf8 (a # s) =
     (if a < 128 then utf8 s
      else case s of
        b # t \<Rightarrow>
          if 194 \<le> a \<and> a < 224 then 128 \<le> b \<and> b < 192 \<and> utf8 t
          else (case t of
            c # u \<Rightarrow>
              if 224 \<le> a \<and> a < 240
              then (if a = 224 then 160 else 128) \<le> b \<and> b < (if a = 237 then 160 else 192) \<and>
                   128 \<le> c \<and> c < 192 \<and> utf8 u
              else (case u of
                e # v \<Rightarrow>
                  240 \<le> a \<and> a < 245 \<and> (if a = 240 then 144 else 128) \<le> b \<and>
                  b < (if a = 244 then 144 else 192) \<and> 128 \<le> c \<and> c < 192 \<and>
                  128 \<le> e \<and> e < 192 \<and> utf8 v
              | [] \<Rightarrow> False)
          | [] \<Rightarrow> False)
      | [] \<Rightarrow> False)"

definition is_utf8 :: "string \<Rightarrow> bool" where
  "is_utf8 s \<longleftrightarrow> utf8 (map of_char s)"

definition read_to_string :: "disk \<Rightarrow> names \<Rightarrow> string option" where
  "read_to_string d ns =
     (case canonical d ns of
        None \<Rightarrow> None
      | Some p \<Rightarrow>
          (case node_at d p of
             Some (File s) \<Rightarrow> if p \<notin> set (denies d) \<and> is_utf8 s then Some s else None
           | _ \<Rightarrow> None))"

text \<open>
  \<open>fs::write\<close>: opens with truncation and creation, following links, the last one even
  when it dangles.
\<close>

definition write_file :: "disk \<Rightarrow> names \<Rightarrow> string \<Rightarrow> disk option" where
  "write_file d ns contents =
     (case walk d True MAX_LINKS [] ns of
        None \<Rightarrow> None
      | Some p \<Rightarrow>
          if p \<in> set (denies d) \<or> node_at d p = Some Dir then None
          else Some (d\<lparr>nodes := hm_insert p (File contents) (nodes d)\<rparr>))"

text \<open>\<open>fs::create_dir_all\<close> on a canonical path: the missing ancestors become directories.\<close>

definition create_dir_all :: "disk \<Rightarrow> names \<Rightarrow> disk option" where
  "create_dir_all d ns =
     (let ancestors = map (\<lambda>k. take k ns) [1..<Suc (length ns)]
      in if \<exists>p \<in> set ancestors. p \<in> set (denies d) \<and> node_at d p = None \<or>
             node_at d p \<noteq> None \<and> node_at d p \<noteq> Some Dir
         then None
         else Some (d\<lparr>nodes := foldl (\<lambda>m p. if hm_get m p = None then hm_insert p Dir m else m)
                                  (nodes d) ancestors\<rparr>))"

section \<open>What resolving a path gives\<close>

text \<open>Everything a canonical path goes through is a directory, and no name on it is a link.\<close>

definition real_dir :: "disk \<Rightarrow> names \<Rightarrow> bool" where
  "real_dir d p \<longleftrightarrow> (\<forall>k \<le> length p. node_at d (take k p) = Some Dir)"

definition real_path :: "disk \<Rightarrow> names \<Rightarrow> bool" where
  "real_path d p \<longleftrightarrow> p = [] \<or> real_dir d (butlast p)"

lemma real_dir_Nil [simp]: "real_dir d []"
  by (simp add: real_dir_def node_at_def)

lemma real_dir_butlast: "real_dir d p \<Longrightarrow> real_dir d (butlast p)"
  by (auto simp: real_dir_def butlast_conv_take min_def)

lemma real_dir_snoc: "real_dir d p \<Longrightarrow> node_at d (p @ [c]) = Some Dir \<Longrightarrow> real_dir d (p @ [c])"
  by (auto simp: real_dir_def le_Suc_eq)

lemma walk_real:
  "walk d create n cur cs = Some p \<Longrightarrow> real_dir d cur \<Longrightarrow>
     real_dir d p \<or>
     p \<noteq> [] \<and> real_dir d (butlast p) \<and>
       (case node_at d p of None \<Rightarrow> create | Some (File _) \<Rightarrow> True | _ \<Rightarrow> False)"
proof (induction d create n cur cs rule: walk.induct)
  case (1 d create n cur)
  then show ?case by simp
next
  case (2 d create n cur c cs)
  show ?case
  proof (cases "c = ''..''")
    case True
    with 2 show ?thesis by (simp add: real_dir_butlast)
  next
    case False
    then show ?thesis
      using 2 by (auto simp: real_dir_snoc split: option.splits node.splits if_splits)
  qed
qed

text \<open>A path all of whose names are real resolves to itself.\<close>

lemma walk_append_dir:
  "real_dir d (cur @ cs) \<Longrightarrow> ''..'' \<notin> set cs \<Longrightarrow>
     walk d create n cur (cs @ rest) = walk d create n (cur @ cs) rest"
proof (induction cs arbitrary: cur)
  case (Cons c cs)
  have "node_at d (cur @ [c]) = Some Dir"
    using Cons.prems(1) by (auto simp: real_dir_def dest: spec [of _ "Suc (length cur)"])
  with Cons.prems Cons.IH [of "cur @ [c]"] show ?case by auto
qed simp

end
