(* ===== verification/Workspace.thy ===== *)
theory Workspace
  imports Disk
begin

text \<open>
  \<open>crates/mjx-workspace/src/fs.rs\<close> and the errors and file operations of its \<open>lib.rs\<close>:
  the jail that keeps an agent's reads, writes and listings inside the workspace roots.
  The operating system's own error texts are left out of \<open>Io\<close>.
\<close>

section \<open>Errors\<close>

datatype workspace_error =
    OutsideWorkspace string
  | NotAbsolute string
  | NotFound string
  | Io string
  | TerminalFailed string
  | NoSuchTerminal string

fun error_code :: "workspace_error \<Rightarrow> int" where
  "error_code (NotFound _) = -32002"
| "error_code (NoSuchTerminal _) = -32002"
| "error_code (OutsideWorkspace _) = -32602"
| "error_code (NotAbsolute _) = -32602"
| "error_code (Io _) = -32603"
| "error_code (TerminalFailed _) = -32603"

section \<open>The jail\<close>

definition inside :: "disk \<Rightarrow> string list \<Rightarrow> names \<Rightarrow> bool" where
  "inside d roots p \<longleftrightarrow> (\<exists>root \<in> set roots.
     case canonical_path d root of None \<Rightarrow> False | Some r \<Rightarrow> prefix r p)"

definition resolve_within :: "disk \<Rightarrow> string list \<Rightarrow> string \<Rightarrow> bool \<Rightarrow> workspace_error + names" where
  "resolve_within d roots path must_exist =
     (if \<not> absolute_path path then Inl (NotAbsolute path)
      else
        let ns = components path;
            resolved =
              (if must_exist
               then (case canonical d ns of None \<Rightarrow> Inl (NotFound path) | Some p \<Rightarrow> Inr p)
               else (case parent_of ns of
                       None \<Rightarrow> Inl (NotAbsolute path)
                     | Some parent \<Rightarrow>
                         (case canonical d parent of
                            None \<Rightarrow> Inl (NotFound (render parent))
                          | Some q \<Rightarrow> Inr (case file_name ns of Some n \<Rightarrow> q @ [n] | None \<Rightarrow> q))))
        in (case resolved of
              Inl e \<Rightarrow> Inl e
            | Inr p \<Rightarrow> if inside d roots p then Inr p else Inl (OutsideWorkspace (render p))))"

section \<open>Reading\<close>

definition newline :: string where
  "newline = [CHR 0x0A]"

definition strip_cr :: "string \<Rightarrow> string" where
  "strip_cr l = (if l \<noteq> [] \<and> last l = CHR 0x0D then butlast l else l)"

text \<open>\<open>str::lines\<close>.\<close>

definition text_lines :: "string \<Rightarrow> string list" where
  "text_lines s =
     (let parts = split_on (CHR 0x0A) s
      in map strip_cr (butlast parts) @ (if last parts = [] then [] else [last parts]))"

fun join_lines :: "string list \<Rightarrow> string" where
  "join_lines [] = []"
| "join_lines [l] = l"
| "join_lines (l # m # ls) = l @ newline @ join_lines (m # ls)"

definition slice_text :: "string \<Rightarrow> 32 word option \<Rightarrow> 32 word option \<Rightarrow> string" where
  "slice_text contents line limit =
     (if line = None \<and> limit = None then contents
      else
        let skip = (case line of None \<Rightarrow> 1 | Some l \<Rightarrow> unat l) - 1;
            rest = drop skip (text_lines contents);
            selected = (case limit of None \<Rightarrow> rest | Some l \<Rightarrow> take (unat l) rest);
            out = join_lines selected
        in if ends_with contents newline \<and> out \<noteq> [] \<and>
              (case limit of None \<Rightarrow> True | Some l \<Rightarrow> length selected < unat l)
           then out @ newline else out)"

definition read_text_file ::
  "disk \<Rightarrow> string list \<Rightarrow> string \<Rightarrow> 32 word option \<Rightarrow> 32 word option \<Rightarrow> workspace_error + string" where
  "read_text_file d roots path line limit =
     (case resolve_within d roots path True of
        Inl e \<Rightarrow> Inl e
      | Inr p \<Rightarrow>
          (case read_to_string d p of
             None \<Rightarrow> Inl (Io (render p))
           | Some contents \<Rightarrow> Inr (slice_text contents line limit)))"

section \<open>Writing\<close>

definition write_text_file ::
  "disk \<Rightarrow> string list \<Rightarrow> string \<Rightarrow> string \<Rightarrow> (workspace_error + string option) \<times> disk" where
  "write_text_file d roots path contents =
     (case resolve_within d roots path False of
        Inl e \<Rightarrow> (Inl e, d)
      | Inr p \<Rightarrow>
          let previous = read_to_string d p
          in (case (case parent_of p of None \<Rightarrow> Some d | Some parent \<Rightarrow> create_dir_all d parent) of
                None \<Rightarrow> (Inl (Io (render (butlast p))), d)
              | Some d1 \<Rightarrow>
                  (case write_file d1 p contents of
                     None \<Rightarrow> (Inl (Io (render p)), d1)
                   | Some d2 \<Rightarrow> (Inr previous, d2))))"

section \<open>Listing\<close>

record found_entry =
  fe_root :: names
  fe_path :: names
  fe_is_dir :: bool

record listing =
  found :: "found_entry list"
  cut_short :: bool

definition SKIPPED :: "string list" where
  "SKIPPED = [''.git'', ''node_modules'', ''target'', ''dist'', ''build'', ''.venv'', ''venv'',
     ''__pycache__'', ''.next'', ''.cache'', ''.mjx-cache'']"

definition MAX_VISITS :: nat where
  "MAX_VISITS = 20000"

definition MAX_DEPTH :: nat where
  "MAX_DEPTH = 12"

text \<open>\<open>fs::read_dir\<close>: the names in a directory, in the order the disk has them.\<close>

definition read_dir :: "disk \<Rightarrow> names \<Rightarrow> (string \<times> node) list" where
  "read_dir d dir =
     (if dir \<in> set (denies d) then []
      else map (\<lambda>(p, node). (last p, node)) (filter (\<lambda>(p, node). p \<noteq> [] \<and> butlast p = dir) (nodes d)))"

definition is_dir :: "disk \<Rightarrow> names \<Rightarrow> bool" where
  "is_dir d p \<longleftrightarrow> (case canonical d p of None \<Rightarrow> False | Some q \<Rightarrow> node_at d q = Some Dir)"

fun is_link :: "node \<Rightarrow> bool" where
  "is_link (Link _ _) = True"
| "is_link _ = False"

text \<open>\<open>str::to_lowercase\<close> is a parameter.\<close>

definition matches :: "(string \<Rightarrow> string) \<Rightarrow> string \<Rightarrow> names \<Rightarrow> names \<Rightarrow> bool" where
  "matches lower needle start path \<longleftrightarrow>
     needle = [] \<or> contains (lower (drop 1 (render (drop (length start) path)))) needle"

text \<open>What the walk carries: how many entries it has looked at, the result, the queue.\<close>

record search =
  visits :: nat
  result :: listing
  queue :: "(names \<times> nat) list"

text \<open>One entry of a directory: whether the whole listing stops here, and the search after it.\<close>

definition visit ::
  "disk \<Rightarrow> (string \<Rightarrow> string) \<Rightarrow> string \<Rightarrow> nat \<Rightarrow> names \<Rightarrow> names \<times> nat \<Rightarrow> string \<times> node \<Rightarrow> search \<Rightarrow>
   bool \<times> search" where
  "visit d lower needle limit start at child s =
     (let (dir, depth) = at; (name, node) = child;
          s1 = s\<lparr>visits := Suc (visits s)\<rparr>; path = dir @ [name]; l = result s
      in if visits s1 > MAX_VISITS then (True, s1\<lparr>result := l\<lparr>cut_short := True\<rparr>\<rparr>)
         else if is_link node \<and> is_dir d path then (False, s1)
         else if node = Dir \<and> name \<in> set SKIPPED then (False, s1)
         else if matches lower needle start path \<and> limit \<le> length (found l)
         then (True, s1\<lparr>result := l\<lparr>cut_short := True\<rparr>\<rparr>)
         else
           let l1 = (if matches lower needle start path
                     then l\<lparr>found := found l @ [\<lparr>fe_root = start, fe_path = path, fe_is_dir = (node = Dir)\<rparr>]\<rparr>
                     else l)
           in (False,
               if node \<noteq> Dir then s1\<lparr>result := l1\<rparr>
               else if depth + 1 > MAX_DEPTH then s1\<lparr>result := l1\<lparr>cut_short := True\<rparr>\<rparr>
               else s1\<lparr>result := l1, queue := queue s @ [(path, depth + 1)]\<rparr>))"

fun visit_all ::
  "disk \<Rightarrow> (string \<Rightarrow> string) \<Rightarrow> string \<Rightarrow> nat \<Rightarrow> names \<Rightarrow> names \<times> nat \<Rightarrow> (string \<times> node) list \<Rightarrow> search \<Rightarrow>
   bool \<times> search" where
  "visit_all d lower needle limit start at [] s = (False, s)"
| "visit_all d lower needle limit start at (child # rest) s =
     (let (stop, s') = visit d lower needle limit start at child s
      in if stop then (True, s') else visit_all d lower needle limit start at rest s')"

definition fuel_left :: "search \<Rightarrow> nat" where
  "fuel_left s = length (queue s) + 2 * (MAX_VISITS - visits s)"

lemma visit_fuel:
  "visit d lower needle limit start at child s = (False, s') \<Longrightarrow> fuel_left s' \<le> fuel_left s"
  by (auto simp: visit_def fuel_left_def Let_def case_prod_beta split: if_splits)

lemma visit_all_fuel:
  "visit_all d lower needle limit start at children s = (False, s') \<Longrightarrow> fuel_left s' \<le> fuel_left s"
proof (induction d lower needle limit start at children s rule: visit_all.induct)
  case (2 d lower needle limit start at child rest s)
  obtain stop s1 where v: "visit d lower needle limit start at child s = (stop, s1)" by fastforce
  with 2 have "\<not> stop" and "fuel_left s' \<le> fuel_left s1" by (auto split: if_splits)
  with v visit_fuel show ?case by fastforce
qed simp

function search_tree ::
  "disk \<Rightarrow> (string \<Rightarrow> string) \<Rightarrow> string \<Rightarrow> nat \<Rightarrow> names \<Rightarrow> search \<Rightarrow> bool \<times> search" where
  "search_tree d lower needle limit start s =
     (case queue s of
        [] \<Rightarrow> (False, s)
      | at # rest \<Rightarrow>
          let (stop, s') = visit_all d lower needle limit start at (read_dir d (fst at)) (s\<lparr>queue := rest\<rparr>)
          in if stop then (True, s') else search_tree d lower needle limit start s')"
  by pat_completeness auto

termination
proof (relation "measure (\<lambda>(d, lower, needle, limit, start, s). fuel_left s)")
  fix d lower needle limit start s at rest x stop s'
  assume q: "queue s = at # rest"
    and x: "x = visit_all d lower needle limit start at (read_dir d (fst at)) (s\<lparr>queue := rest\<rparr>)"
    and "(stop, s') = x" and "\<not> stop"
  then have "fuel_left s' \<le> fuel_left (s\<lparr>queue := rest\<rparr>)"
    using visit_all_fuel by (metis (full_types))
  also have "\<dots> < fuel_left s" using q by (simp add: fuel_left_def)
  finally show "((d, lower, needle, limit, start, s'), d, lower, needle, limit, start, s)
      \<in> measure (\<lambda>(d, lower, needle, limit, start, s). fuel_left s)" by simp
qed simp

declare search_tree.simps [simp del]

fun search_starts ::
  "disk \<Rightarrow> (string \<Rightarrow> string) \<Rightarrow> string \<Rightarrow> nat \<Rightarrow> names list \<Rightarrow> search \<Rightarrow> search" where
  "search_starts d lower needle limit [] s = s"
| "search_starts d lower needle limit (start # rest) s =
     (let (stop, s') = search_tree d lower needle limit start (s\<lparr>queue := [(start, 0)]\<rparr>)
      in if stop then s' else search_starts d lower needle limit rest s')"

definition list_within ::
  "disk \<Rightarrow> (string \<Rightarrow> string) \<Rightarrow> string list \<Rightarrow> string option \<Rightarrow> string \<Rightarrow> nat \<Rightarrow>
   workspace_error + listing" where
  "list_within d lower roots root query limit =
     (case (case root of
              Some r \<Rightarrow> (case resolve_within d roots r True of Inl e \<Rightarrow> Inl e | Inr p \<Rightarrow> Inr [p])
            | None \<Rightarrow> Inr (List.map_filter (canonical_path d) roots)) of
        Inl e \<Rightarrow> Inl e
      | Inr starts \<Rightarrow>
          Inr (result (search_starts d lower (lower query) limit starts
                 \<lparr>visits = 0, result = \<lparr>found = [], cut_short = False\<rparr>, queue = []\<rparr>)))"

end
