(* ===== verification/Workspace_Props.thy ===== *)
theory Workspace_Props
  imports Workspace
begin

text \<open>
  What the jail promises: a read, a write and a listing stay inside the roots, whatever
  \<open>..\<close> or links the path goes through, with the one exception of a write to a name that is
  itself a link; what a slice of lines returns; and that a listing is bounded.
\<close>

section \<open>Canonical paths\<close>

lemma walk_no_dotdot:
  "walk d create n cur cs = Some p \<Longrightarrow> ''..'' \<notin> set cur \<Longrightarrow> ''..'' \<notin> set p"
proof (induction d create n cur cs rule: walk.induct)
  case (2 d create n cur c cs)
  then show ?case
    by (auto split: option.splits node.splits if_splits dest: in_set_butlastD)
qed simp

lemma canonical_real:
  assumes "canonical d ns = Some p"
  shows "''..'' \<notin> set p"
    "real_dir d p \<or> p \<noteq> [] \<and> real_dir d (butlast p) \<and> (\<exists>s. node_at d p = Some (File s))"
proof -
  show "''..'' \<notin> set p"
    using assms walk_no_dotdot unfolding canonical_def by fastforce
  show "real_dir d p \<or> p \<noteq> [] \<and> real_dir d (butlast p) \<and> (\<exists>s. node_at d p = Some (File s))"
    using walk_real [of d False MAX_LINKS "[]" ns p] assms
    by (auto simp: canonical_def split: option.splits node.splits)
qed

lemma walk_real_dir:
  "real_dir d p \<Longrightarrow> ''..'' \<notin> set p \<Longrightarrow> walk d create n [] p = Some p"
  using walk_append_dir [of d "[]" p create n "[]"] by simp

lemma walk_last:
  assumes "real_dir d q" and "''..'' \<notin> set (q @ [c])"
  shows "walk d create n [] (q @ [c]) = walk d create n q [c]"
  using walk_append_dir [of d "[]" q create n "[c]"] assms by simp

lemma walk_file:
  assumes "p \<noteq> []" and "real_dir d (butlast p)" and "''..'' \<notin> set p" and "node_at d p = Some (File s)"
  shows "walk d create n [] p = Some p"
proof -
  have p: "p = butlast p @ [last p]" using assms(1) by simp
  then have "walk d create n [] p = walk d create n (butlast p) [last p]"
    using walk_last [of d "butlast p" "last p" create n] assms(2,3) by simp
  also have "last p \<noteq> ''..''" using assms(1,3) last_in_set by metis
  then have "walk d create n (butlast p) [last p] = Some p"
    using assms(1,4) p by simp
  finally show ?thesis .
qed

lemma canonical_idem: "canonical d ns = Some p \<Longrightarrow> canonical d p = Some p"
  using canonical_real [of d ns p] walk_real_dir walk_file by (auto simp: canonical_def)

section \<open>Reads\<close>

lemma read_within:
  assumes "read_text_file d roots path line limit = Inr text"
  shows "\<exists>p contents. absolute_path path \<and> canonical d (components path) = Some p \<and> inside d roots p \<and>
    node_at d p = Some (File contents) \<and> text = slice_text contents line limit"
proof -
  from assms obtain p contents where
    r: "resolve_within d roots path True = Inr p" and c: "read_to_string d p = Some contents"
    and t: "text = slice_text contents line limit"
    by (auto simp: read_text_file_def split: sum.splits option.splits)
  from r have p: "absolute_path path" "canonical d (components path) = Some p" "inside d roots p"
    by (auto simp: resolve_within_def Let_def split: if_splits option.splits)
  from c canonical_idem [OF p(2)] have "node_at d p = Some (File contents)"
    by (auto simp: read_to_string_def split: option.splits node.splits if_splits)
  with p t show ?thesis by blast
qed

text \<open>
  A read that succeeds returns the asked-for slice of a file whose physical location,
  after every link and every \<open>..\<close> of the path has been followed, is inside one of the roots.
\<close>

theorem reads_stay_inside:
  assumes "read_text_file d roots path line limit = Inr text"
  shows "\<exists>p contents. absolute_path path \<and> canonical d (components path) = Some p \<and> inside d roots p \<and>
    node_at d p = Some (File contents) \<and> text = slice_text contents line limit"
  using assms by (rule read_within)

text \<open>A disk: a root \<open>/w\<close> with a file and a link in it, and a file outside.\<close>

definition demo_disk :: disk where
  "demo_disk = \<lparr>nodes =
     [([''w''], Dir), ([''w'', ''a''], File ''hi''), ([''w'', ''l''], Link True [''etc'', ''p'']),
      ([''etc''], Dir), ([''etc'', ''p''], File ''old'')],
     denies = [], process_cwd = []\<rparr>"

lemma demo_read:
  "read_text_file demo_disk [''/w''] ''/w/a'' None None = Inr ''hi''"
  by (simp add: read_text_file_def resolve_within_def absolute_path_def starts_with_def components_def
      canonical_def canonical_path_def MAX_LINKS_def demo_disk_def node_at_def inside_def
      read_to_string_def is_utf8_def slice_text_def)

theorem reads_stay_inside_witness:
  "\<exists>p contents. canonical demo_disk (components ''/w/a'') = Some p \<and> inside demo_disk [''/w''] p \<and>
     node_at demo_disk p = Some (File contents)"
  using reads_stay_inside [OF demo_read] by blast

section \<open>Writes\<close>

lemma resolve_for_write:
  assumes "resolve_within d roots path False = Inr p"
  shows "inside d roots p \<and> (\<exists>q. canonical d (butlast (components path)) = Some q \<and>
    (p = q \<or> (\<exists>c. p = q @ [c] \<and> c \<noteq> ''..'')))"
  using assms
  by (auto simp: resolve_within_def Let_def parent_of_def file_name_def
      split: if_splits option.splits)

lemma butlast_real:
  assumes "resolve_within d roots path False = Inr p"
  shows "''..'' \<notin> set p"
proof -
  from resolve_for_write [OF assms] obtain q where q: "canonical d (butlast (components path)) = Some q"
    and p: "p = q \<or> (\<exists>c. p = q @ [c] \<and> c \<noteq> ''..'')" by blast
  with canonical_real(1) [OF q] show ?thesis by auto
qed

lemma write_file_real:
  assumes "p \<noteq> []" and "real_dir d (butlast p)" and "''..'' \<notin> set p"
    and "\<not> (\<exists>a t. node_at d p = Some (Link a t))"
  shows "write_file d p contents =
    (if p \<in> set (denies d) \<or> node_at d p = Some Dir then None
     else Some (d\<lparr>nodes := hm_insert p (File contents) (nodes d)\<rparr>))"
proof -
  have p: "p = butlast p @ [last p]" using assms(1) by simp
  have l: "last p \<noteq> ''..''" using assms(1,3) last_in_set by metis
  have "walk d True MAX_LINKS [] p = walk d True MAX_LINKS (butlast p) [last p]"
    using walk_last [of d "butlast p" "last p" True MAX_LINKS] assms(2,3) p by simp
  also have "\<dots> = Some p"
  proof (cases "node_at d p")
    case None
    with l p show ?thesis by simp
  next
    case (Some nd)
    with l p assms(4) show ?thesis by (cases nd) simp_all
  qed
  finally show ?thesis by (simp add: write_file_def)
qed

lemma create_dir_all_real:
  assumes "real_dir d q"
  shows "create_dir_all d q = Some d"
proof -
  let ?as = "map (\<lambda>k. take k q) [1..<Suc (length q)]"
  have dirs: "node_at d a = Some Dir" if "a \<in> set ?as" for a
    using that assms by (auto simp: real_dir_def)
  moreover have "a \<noteq> []" if "a \<in> set ?as" for a
    using that by auto
  ultimately have get: "hm_get (nodes d) a = Some Dir" if "a \<in> set ?as" for a
    using that by (force simp: node_at_def)
  have "foldl (\<lambda>m p. if hm_get m p = None then hm_insert p Dir m else m) (nodes d) as = nodes d"
    if "\<forall>a \<in> set as. hm_get (nodes d) a = Some Dir" for as
    using that by (induction as) simp_all
  with get have "foldl (\<lambda>m p. if hm_get m p = None then hm_insert p Dir m else m) (nodes d) ?as = nodes d"
    by blast
  moreover have "\<not> (\<exists>p \<in> set ?as. p \<in> set (denies d) \<and> node_at d p = None \<or>
      node_at d p \<noteq> None \<and> node_at d p \<noteq> Some Dir)"
    using dirs by auto
  ultimately show ?thesis unfolding create_dir_all_def Let_def by (simp del: upt_Suc)
qed

lemma create_dir_all_file:
  assumes "q \<noteq> []" and "node_at d q = Some (File s)"
  shows "create_dir_all d q = None"
proof -
  have "take (length q) q \<in> (\<lambda>k. take k q) ` set [1..<Suc (length q)]"
    using assms(1) by (intro imageI) (cases q, simp_all)
  then have mem: "q \<in> set (map (\<lambda>k. take k q) [1..<Suc (length q)])" by simp
  have "\<exists>p \<in> set (map (\<lambda>k. take k q) [1..<Suc (length q)]). p \<in> set (denies d) \<and> node_at d p = None \<or>
      node_at d p \<noteq> None \<and> node_at d p \<noteq> Some Dir"
    by (rule bexI [OF _ mem]) (simp add: assms(2))
  then show ?thesis unfolding create_dir_all_def Let_def by (simp only: if_True)
qed

lemma write_text_file_Inr:
  assumes "write_text_file d roots path contents = (Inr previous, d')"
  obtains p where "resolve_within d roots path False = Inr p" "inside d roots p" "p \<noteq> []"
    "real_dir d (butlast p)" "''..'' \<notin> set p" "previous = read_to_string d p"
    "write_file d p contents = Some d'"
proof -
  from assms obtain p d1 where r: "resolve_within d roots path False = Inr p"
    and d1: "(case parent_of p of None \<Rightarrow> Some d | Some parent \<Rightarrow> create_dir_all d parent) = Some d1"
    and w: "write_file d1 p contents = Some d'" and prev: "previous = read_to_string d p"
    by (auto simp: write_text_file_def Let_def split: sum.splits option.splits)
  from resolve_for_write [OF r] obtain q where q: "canonical d (butlast (components path)) = Some q"
    and pq: "p = q \<or> (\<exists>c. p = q @ [c] \<and> c \<noteq> ''..'')" and ins: "inside d roots p" by blast
  have ne: "p \<noteq> []"
    using w by (auto simp: write_file_def node_at_def split: if_splits)
  then have c: "create_dir_all d (butlast p) = Some d1"
    using d1 by (simp add: parent_of_def)
  have rd: "real_dir d (butlast p)"
  proof (cases "p = q")
    case True
    then show ?thesis using canonical_real(2) [OF q] real_dir_butlast by blast
  next
    case False
    with pq have b: "butlast p = q" by auto
    with canonical_real(2) [OF q] c create_dir_all_file show ?thesis by fastforce
  qed
  with c have "d1 = d" by (simp add: create_dir_all_real)
  with w have w': "write_file d p contents = Some d'" by simp
  show thesis by (rule that [OF r ins ne rd butlast_real [OF r] prev w'])
qed

lemma write_within:
  assumes "write_text_file d roots path contents = (Inr previous, d')"
  shows "\<exists>p. resolve_within d roots path False = Inr p \<and> inside d roots p \<and>
    previous = read_to_string d p \<and>
    ((\<forall>a t. node_at d p \<noteq> Some (Link a t)) \<longrightarrow>
       (\<forall>q. node_at d' q = (if q = p then Some (File contents) else node_at d q)))"
proof -
  from assms obtain p where p: "resolve_within d roots path False = Inr p" "inside d roots p" "p \<noteq> []"
    "real_dir d (butlast p)" "''..'' \<notin> set p" "previous = read_to_string d p"
    "write_file d p contents = Some d'" by (rule write_text_file_Inr)
  have "\<forall>q. node_at d' q = (if q = p then Some (File contents) else node_at d q)"
    if "\<forall>a t. node_at d p \<noteq> Some (Link a t)"
    using that p write_file_real [OF p(3,4,5), of contents]
    by (auto simp: node_at_def split: if_splits)
  with p show ?thesis by blast
qed

text \<open>
  A write that succeeds is resolved inside the roots, and unless the name it ends in
  is itself a link it changes that one file, to the new contents, and nothing else on the
  disk; it returns what the file held before, if it could be read.
\<close>

theorem writes_change_one_file_inside:
  assumes "write_text_file d roots path contents = (Inr previous, d')"
  shows "\<exists>p. resolve_within d roots path False = Inr p \<and> inside d roots p \<and>
    previous = read_to_string d p \<and>
    ((\<forall>a t. node_at d p \<noteq> Some (Link a t)) \<longrightarrow>
       (\<forall>q. node_at d' q = (if q = p then Some (File contents) else node_at d q)))"
  using assms by (rule write_within)

text \<open>
  A name inside a root that is a link to a file is written through: the file that
  changes is the link's target, wherever it is, although only the directory of the link
  was checked against the roots.
\<close>

theorem write_follows_link_anywhere:
  assumes "resolve_within d roots path False = Inr p" and "p \<noteq> []" and "real_dir d (butlast p)"
    and "node_at d p = Some (Link True target)"
    and "target \<noteq> []" and "real_dir d (butlast target)" and "''..'' \<notin> set target"
    and "node_at d target = Some (File old)" and "target \<notin> set (denies d)"
  shows "snd (write_text_file d roots path contents) =
      d\<lparr>nodes := hm_insert target (File contents) (nodes d)\<rparr> \<and>
    (\<exists>previous. fst (write_text_file d roots path contents) = Inr previous)"
proof -
  have p: "p = butlast p @ [last p]" using assms(2) by simp
  have dots: "''..'' \<notin> set p" by (rule butlast_real [OF assms(1)])
  then have l: "last p \<noteq> ''..''" using assms(2) last_in_set by metis
  have "walk d True MAX_LINKS [] p = walk d True MAX_LINKS (butlast p) [last p]"
    using walk_last [of d "butlast p" "last p" True MAX_LINKS] assms(3) dots p by simp
  also have "\<dots> = walk d True (MAX_LINKS - 1) [] target"
    using l p assms(4) by (simp add: MAX_LINKS_def)
  also have "\<dots> = Some target" by (rule walk_file) (use assms in auto)
  finally have "write_file d p contents = Some (d\<lparr>nodes := hm_insert target (File contents) (nodes d)\<rparr>)"
    using assms(8,9) by (simp add: write_file_def)
  moreover have "create_dir_all d (butlast p) = Some d" by (rule create_dir_all_real [OF assms(3)])
  ultimately show ?thesis
    using assms(1,2) by (simp add: write_text_file_def parent_of_def Let_def)
qed

lemma demo_resolve:
  "resolve_within demo_disk [''/w''] ''/w/l'' False = Inr [''w'', ''l'']"
  by (simp add: resolve_within_def absolute_path_def starts_with_def components_def parent_of_def
      file_name_def canonical_def canonical_path_def MAX_LINKS_def demo_disk_def node_at_def inside_def)

theorem write_follows_link_anywhere_witness:
  "hm_get (nodes (snd (write_text_file demo_disk [''/w''] ''/w/l'' ''owned''))) [''etc'', ''p''] =
     Some (File ''owned'')"
proof -
  have real: "real_dir demo_disk (butlast [''w'', ''l''])" "real_dir demo_disk (butlast [''etc'', ''p''])"
    by (auto simp: real_dir_def node_at_def demo_disk_def le_Suc_eq)
  have link: "node_at demo_disk [''w'', ''l''] = Some (Link True [''etc'', ''p''])"
    and target: "node_at demo_disk [''etc'', ''p''] = Some (File ''old'')"
    by (simp_all add: node_at_def demo_disk_def)
  have free: "[''etc'', ''p''] \<notin> set (denies demo_disk)" by (simp add: demo_disk_def)
  from write_follows_link_anywhere [OF demo_resolve _ real(1) link _ real(2) _ target free, of "''owned''"]
  show ?thesis by simp
qed

lemma demo_write:
  "write_text_file demo_disk [''/w''] ''/w/new'' ''text'' =
     (Inr None, demo_disk\<lparr>nodes := hm_insert [''w'', ''new''] (File ''text'') (nodes demo_disk)\<rparr>)"
  by (simp add: write_text_file_def resolve_within_def absolute_path_def starts_with_def components_def
      parent_of_def file_name_def canonical_def canonical_path_def MAX_LINKS_def demo_disk_def node_at_def
      inside_def read_to_string_def create_dir_all_def write_file_def)

theorem writes_change_one_file_inside_witness:
  "\<exists>p. resolve_within demo_disk [''/w''] ''/w/new'' False = Inr p \<and> inside demo_disk [''/w''] p"
  using writes_change_one_file_inside [OF demo_write] by blast

text \<open>
  The documentation says that missing parent directories are created; a write whose directory
  does not exist is refused as not found, and the disk is left as it was.
\<close>

theorem missing_parent_is_refused:
  assumes "absolute_path path" and "components path \<noteq> []"
    and "canonical d (butlast (components path)) = None"
  shows "write_text_file d roots path contents = (Inl (NotFound (render (butlast (components path)))), d)"
  using assms by (simp add: write_text_file_def resolve_within_def parent_of_def Let_def)

theorem missing_parent_is_refused_witness:
  "write_text_file demo_disk [''/w''] ''/w/sub/x'' ''t'' = (Inl (NotFound ''/w/sub''), demo_disk)"
proof -
  have a: "absolute_path ''/w/sub/x''" by (simp add: absolute_path_def starts_with_def)
  have b: "components ''/w/sub/x'' = [''w'', ''sub'', ''x'']" by (simp add: components_def)
  have c: "canonical demo_disk (butlast (components ''/w/sub/x'')) = None"
    by (simp add: b canonical_def MAX_LINKS_def demo_disk_def node_at_def)
  from missing_parent_is_refused [OF a _ c, of "[''/w'']" "''t''"] b show ?thesis
    by (simp add: render_def)
qed

section \<open>Slices\<close>

text \<open>Lines as the protocol means them: no line feed inside, no carriage return at the end.\<close>

definition plain_line :: "string \<Rightarrow> bool" where
  "plain_line l \<longleftrightarrow> CHR 0x0A \<notin> set l \<and> (l = [] \<or> last l \<noteq> CHR 0x0D)"

definition unlines :: "string list \<Rightarrow> string" where
  "unlines ls = concat (map (\<lambda>l. l @ newline) ls)"

lemma split_on_append:
  "c \<notin> set l \<Longrightarrow> split_on c (l @ c # s) = l # split_on c s"
  by (induction l) auto

lemma split_on_not_Nil [simp]: "split_on c s \<noteq> []"
  by (cases s) (auto split: list.split)

lemma split_unlines:
  "\<forall>l \<in> set ls. CHR 0x0A \<notin> set l \<Longrightarrow> split_on (CHR 0x0A) (unlines ls) = ls @ [[]]"
  by (induction ls) (simp_all add: unlines_def newline_def split_on_append)

lemma text_lines_unlines:
  assumes "\<forall>l \<in> set ls. plain_line l"
  shows "text_lines (unlines ls) = ls"
proof -
  have "split_on (CHR 0x0A) (unlines ls) = ls @ [[]]"
    using assms by (intro split_unlines) (simp add: plain_line_def)
  moreover have "map strip_cr ls = ls"
    using assms by (intro map_idI) (auto simp: strip_cr_def plain_line_def)
  ultimately show ?thesis by (simp add: text_lines_def)
qed

lemma join_lines_unlines: "ls \<noteq> [] \<Longrightarrow> join_lines ls @ newline = unlines ls"
  by (induction ls rule: join_lines.induct) (simp_all add: unlines_def)

lemma ends_with_unlines: "ls \<noteq> [] \<Longrightarrow> ends_with (unlines ls) newline"
  by (cases ls rule: rev_cases) (simp_all add: unlines_def ends_with_def newline_def starts_with_def)

lemma ends_with_Nil: "\<not> ends_with (unlines []) newline"
  by (simp add: unlines_def ends_with_def newline_def starts_with_def)

text \<open>
  What a slice of a text file is: the lines asked for, each with its line feed, except
  that the last one loses it when the limit is exhausted, even if those are the file's
  last lines, or when the slice is a single empty line.
\<close>

theorem slice_of_lines:
  assumes "\<forall>l \<in> set ls. plain_line l" and "line \<noteq> None \<or> limit \<noteq> None"
  defines "rest \<equiv> drop ((case line of None \<Rightarrow> 1 | Some l \<Rightarrow> unat l) - 1) ls"
  defines "selected \<equiv> (case limit of None \<Rightarrow> rest | Some l \<Rightarrow> take (unat l) rest)"
  shows "slice_text (unlines ls) line limit =
    (if (case limit of None \<Rightarrow> False | Some l \<Rightarrow> unat l \<le> length rest) \<or> selected = [[]] \<or> selected = []
     then join_lines selected else unlines selected)"
proof -
  have "slice_text (unlines ls) line limit =
    (let out = join_lines selected in
     if ends_with (unlines ls) newline \<and> out \<noteq> [] \<and>
        (case limit of None \<Rightarrow> True | Some l \<Rightarrow> length selected < unat l)
     then out @ newline else out)"
  proof -
    have some: "\<not> (line = None \<and> limit = None)" using assms(2) by blast
    show ?thesis
      unfolding slice_text_def if_not_P [OF some] text_lines_unlines [OF assms(1)] Let_def
        rest_def selected_def ..
  qed
  moreover have "ls \<noteq> []" if "selected \<noteq> []"
    using that by (auto simp: selected_def rest_def split: option.splits)
  moreover have "(case limit of None \<Rightarrow> True | Some l \<Rightarrow> length selected < unat l) \<longleftrightarrow>
      \<not> (case limit of None \<Rightarrow> False | Some l \<Rightarrow> unat l \<le> length rest)"
    by (auto simp: selected_def split: option.split)
  moreover have "join_lines selected = [] \<longleftrightarrow> selected = [[]] \<or> selected = []"
    by (cases selected rule: join_lines.cases) (auto simp: newline_def)
  ultimately show ?thesis
    using ends_with_unlines [of ls] join_lines_unlines [of selected] by (auto simp: Let_def)
qed

theorem slice_of_lines_witness:
  "slice_text (unlines [''a'', ''b'']) None (Some 2) = ''a'' @ newline @ ''b'' \<and>
   slice_text (unlines [''a'', ''b'']) (Some 1) None = unlines [''a'', ''b'']"
proof -
  have "\<forall>l \<in> set [''a'', ''b'']. plain_line l" by (simp add: plain_line_def)
  from slice_of_lines [OF this, of None "Some 2"] slice_of_lines [OF this, of "Some 1" None]
  show ?thesis by simp
qed

section \<open>Listings\<close>

text \<open>
  A disk is well formed when a name stands in a directory, once, and the process is in a
  directory.
\<close>

definition disk_ok :: "disk \<Rightarrow> bool" where
  "disk_ok d \<longleftrightarrow> hm_ok (nodes d) \<and> real_dir d (process_cwd d) \<and>
     ''..'' \<notin> set (process_cwd d) \<and> (\<forall>(p, nd) \<in> set (nodes d). p \<noteq> [] \<and> node_at d (butlast p) = Some Dir)"

text \<open>A directory the walk may go into, and an entry it may offer.\<close>

definition open_dir :: "disk \<Rightarrow> names \<Rightarrow> names \<times> nat \<Rightarrow> bool" where
  "open_dir d start at \<longleftrightarrow>
     (\<exists>rel. fst at = start @ rel \<and> length rel = snd at \<and> snd at \<le> MAX_DEPTH \<and>
        set rel \<inter> set SKIPPED = {} \<and> (node_at d (fst at) = Some Dir \<longrightarrow> real_dir d (fst at)))"

definition good_entry :: "disk \<Rightarrow> names set \<Rightarrow> found_entry \<Rightarrow> bool" where
  "good_entry d starts e \<longleftrightarrow>
     fe_root e \<in> starts \<and> prefix (fe_root e) (fe_path e) \<and> real_dir d (butlast (fe_path e)) \<and>
     (\<exists>nd. node_at d (fe_path e) = Some nd \<and> (fe_is_dir e \<longleftrightarrow> nd = Dir)) \<and>
     set (butlast (drop (length (fe_root e)) (fe_path e))) \<inter> set SKIPPED = {}"

definition search_ok :: "disk \<Rightarrow> names set \<Rightarrow> nat \<Rightarrow> names \<Rightarrow> search \<Rightarrow> bool" where
  "search_ok d starts limit start s \<longleftrightarrow>
     length (found (result s)) \<le> limit \<and> (\<forall>e \<in> set (found (result s)). good_entry d starts e) \<and>
     (\<forall>at \<in> set (queue s). open_dir d start at)"

lemma read_dir_child:
  assumes "disk_ok d" and "(name, nd) \<in> set (read_dir d dir)"
  shows "node_at d (dir @ [name]) = Some nd \<and> node_at d dir = Some Dir"
proof -
  from assms(2) obtain p where p: "(p, nd) \<in> set (nodes d)" "p \<noteq> []" "butlast p = dir" "last p = name"
    by (auto simp: read_dir_def split: if_splits)
  then have pq: "p = dir @ [name]" by auto
  with p assms(1) have "hm_get (nodes d) p = Some nd" and "node_at d (butlast p) = Some Dir"
    by (auto simp: disk_ok_def hm_ok_def)
  with pq p(2) show ?thesis by (simp add: node_at_def)
qed

lemma visit_ok:
  assumes d: "disk_ok d" and s: "search_ok d starts limit start s" and st: "start \<in> starts"
    and at: "open_dir d start at" and child: "child \<in> set (read_dir d (fst at))"
    and v: "visit d lower needle limit start at child s = (stop, s')"
  shows "search_ok d starts limit start s'"
proof -
  obtain dir depth where at': "at = (dir, depth)" by (cases at)
  obtain name nd where c: "child = (name, nd)" by (cases child)
  let ?path = "dir @ [name]"
  from read_dir_child [OF d child [unfolded c at' fst_conv]]
  have nd: "node_at d ?path = Some nd" and dir: "node_at d dir = Some Dir" by simp_all
  from at obtain rel where rel: "dir = start @ rel" "length rel = depth" "depth \<le> MAX_DEPTH"
    "set rel \<inter> set SKIPPED = {}" and real: "real_dir d dir"
    using dir by (auto simp: open_dir_def at')
  have entry: "good_entry d starts \<lparr>fe_root = start, fe_path = ?path, fe_is_dir = (nd = Dir)\<rparr>"
    using st real nd rel by (simp add: good_entry_def butlast_append)
  have deeper: "open_dir d start (?path, depth + 1)" if "nd = Dir" "name \<notin> set SKIPPED" "depth + 1 \<le> MAX_DEPTH"
    using that rel real nd real_dir_snoc [OF real, of name] by (simp add: open_dir_def)
  show ?thesis
    using v s entry deeper
    unfolding visit_def at' c Let_def prod.case
    by (auto simp: search_ok_def split: if_splits)
qed

lemma visit_all_ok:
  assumes "disk_ok d" and "start \<in> starts" and "open_dir d start at"
  shows "visit_all d lower needle limit start at children s = (stop, s') \<Longrightarrow>
    set children \<subseteq> set (read_dir d (fst at)) \<Longrightarrow> search_ok d starts limit start s \<Longrightarrow>
    search_ok d starts limit start s'"
proof (induction children arbitrary: s)
  case (Cons child rest)
  obtain stop1 s1 where v: "visit d lower needle limit start at child s = (stop1, s1)" by fastforce
  with Cons.prems visit_ok [OF assms(1) Cons.prems(3) assms(2,3) _ v]
  have "search_ok d starts limit start s1" by simp
  with v Cons show ?case by (auto split: if_splits)
qed simp

lemma search_tree_ok:
  "search_tree d lower needle limit start s = (stop, s') \<Longrightarrow> disk_ok d \<Longrightarrow> start \<in> starts \<Longrightarrow>
    search_ok d starts limit start s \<Longrightarrow> search_ok d starts limit start s'"
proof (induction d lower needle limit start s rule: search_tree.induct)
  case (1 d lower needle limit start s)
  show ?case
  proof (cases "queue s")
    case Nil
    with "1.prems" show ?thesis by (subst (asm) search_tree.simps) simp
  next
    case (Cons at rest)
    obtain stop1 s1 where v: "visit_all d lower needle limit start at (read_dir d (fst at)) (s\<lparr>queue := rest\<rparr>)
      = (stop1, s1)" by fastforce
    have "open_dir d start at" and "search_ok d starts limit start (s\<lparr>queue := rest\<rparr>)"
      using "1.prems"(4) Cons by (simp_all add: search_ok_def)
    then have ok: "search_ok d starts limit start s1"
      using visit_all_ok [OF "1.prems"(2,3) _ v] by blast
    show ?thesis
    proof (cases stop1)
      case True
      then have "s' = s1"
        using "1.prems"(1) Cons v by (subst (asm) search_tree.simps) simp
      with ok show ?thesis by simp
    next
      case False
      then have "search_tree d lower needle limit start s = search_tree d lower needle limit start s1"
        using Cons v by (subst search_tree.simps) simp
      with "1.IH" [OF Cons v [symmetric] refl False _ "1.prems"(2,3) ok] "1.prems"(1)
      show ?thesis by simp
    qed
  qed
qed

lemma search_ok_restart:
  "search_ok d starts limit start s \<Longrightarrow> search_ok d starts limit start' (s\<lparr>queue := []\<rparr>)"
  by (simp add: search_ok_def)

lemma search_starts_ok:
  assumes "disk_ok d" and "\<forall>start \<in> set todo. start \<in> starts \<and> canonical d start = Some start"
    and "search_ok d starts limit any (s\<lparr>queue := []\<rparr>)"
  shows "length (found (result (search_starts d lower needle limit todo s))) \<le> limit \<and>
    (\<forall>e \<in> set (found (result (search_starts d lower needle limit todo s))). good_entry d starts e)"
  using assms(2,3)
proof (induction todo arbitrary: s)
  case Nil
  then show ?case by (simp add: search_ok_def)
next
  case (Cons start todo)
  obtain stop s1 where t: "search_tree d lower needle limit start (s\<lparr>queue := [(start, 0)]\<rparr>) = (stop, s1)"
    by fastforce
  have "node_at d start = Some Dir \<longrightarrow> real_dir d start"
    using canonical_real(2) [of d start start] Cons.prems(1) by auto
  then have "open_dir d start (start, 0)" by (simp add: open_dir_def)
  then have "search_ok d starts limit start (s\<lparr>queue := [(start, 0)]\<rparr>)"
    using Cons.prems(2) by (simp add: search_ok_def)
  with search_tree_ok [OF t assms(1)] Cons.prems(1) have ok: "search_ok d starts limit start s1" by simp
  show ?case
  proof (cases stop)
    case True
    with t ok show ?thesis by (simp add: search_ok_def)
  next
    case False
    with t Cons.IH [of s1] Cons.prems(1) search_ok_restart [OF ok, of any] show ?thesis by simp
  qed
qed

lemma canonical_path_idem:
  assumes "disk_ok d" and "canonical_path d p = Some r"
  shows "canonical d r = Some r"
proof (cases "absolute_path p")
  case True
  with assms(2) have "canonical d (components p) = Some r"
    by (simp add: canonical_path_def split: if_splits)
  then show ?thesis by (rule canonical_idem)
next
  case False
  with assms have "walk d False MAX_LINKS (process_cwd d) (components p) = Some r"
    and "real_dir d (process_cwd d)" and "''..'' \<notin> set (process_cwd d)"
    by (simp_all add: canonical_path_def disk_ok_def split: if_splits)
  note walk = this
  have dots: "''..'' \<notin> set r" by (rule walk_no_dotdot [OF walk(1,3)])
  have "real_dir d r \<or> r \<noteq> [] \<and> real_dir d (butlast r) \<and> (\<exists>s. node_at d r = Some (File s))"
    using walk_real [OF walk(1,2)] by (auto split: option.splits node.splits)
  with dots show ?thesis using walk_real_dir walk_file by (auto simp: canonical_def)
qed

lemma set_filter_map: "y \<in> set (List.map_filter f xs) \<longleftrightarrow> (\<exists>x \<in> set xs. f x = Some y)"
  by (induction xs) (auto simp: List.map_filter_simps split: option.split)

lemma listing_jailed:
  assumes "disk_ok d" and "list_within d lower roots root query limit = Inr l"
  shows "length (found l) \<le> limit \<and>
    (\<forall>e \<in> set (found l). inside d roots (fe_path e) \<and> real_dir d (butlast (fe_path e)) \<and>
      set (butlast (drop (length (fe_root e)) (fe_path e))) \<inter> set SKIPPED = {})"
proof -
  from assms(2) obtain todo where
    todo: "(case root of Some r \<Rightarrow> (case resolve_within d roots r True of Inl e \<Rightarrow> Inl e | Inr p \<Rightarrow> Inr [p])
            | None \<Rightarrow> Inr (List.map_filter (canonical_path d) roots)) = Inr todo"
    and l: "l = result (search_starts d lower (lower query) limit todo
                 \<lparr>visits = 0, result = \<lparr>found = [], cut_short = False\<rparr>, queue = []\<rparr>)"
    by (auto simp: list_within_def split: sum.splits)
  have starts: "\<forall>start \<in> set todo. inside d roots start \<and> canonical d start = Some start"
  proof (cases root)
    case None
    with todo have mem: "\<exists>r \<in> set roots. canonical_path d r = Some start" if "start \<in> set todo" for start
      using that by (auto simp: set_filter_map)
    show ?thesis
    proof
      fix start assume "start \<in> set todo"
      with mem obtain r where r: "r \<in> set roots" "canonical_path d r = Some start" by blast
      then have "inside d roots start" by (auto simp: inside_def intro!: bexI [of _ r])
      with canonical_path_idem [OF assms(1) r(2)] show "inside d roots start \<and> canonical d start = Some start" by simp
    qed
  next
    case (Some r)
    with todo obtain p where "resolve_within d roots r True = Inr p" "todo = [p]"
      by (auto split: sum.splits)
    then show ?thesis
      by (auto simp: resolve_within_def Let_def intro: canonical_idem split: if_splits option.splits)
  qed
  have "search_ok d (set todo) limit [] (\<lparr>visits = 0, result = \<lparr>found = [], cut_short = False\<rparr>, queue = []\<rparr>\<lparr>queue := []\<rparr>)"
    by (simp add: search_ok_def)
  note fresh = this
  have "\<forall>start \<in> set todo. start \<in> set todo \<and> canonical d start = Some start"
    using starts by simp
  from search_starts_ok [OF assms(1) this fresh, of lower "lower query"]
  have "length (found l) \<le> limit" and good: "\<forall>e \<in> set (found l). good_entry d (set todo) e"
    unfolding l by blast+
  moreover have "inside d roots (fe_path e)" if "e \<in> set (found l)" for e
  proof -
    from good that have "fe_root e \<in> set todo" and pre: "prefix (fe_root e) (fe_path e)"
      by (auto simp: good_entry_def)
    with starts have "inside d roots (fe_root e)" by blast
    then show ?thesis
      unfolding inside_def using prefix_order.trans [OF _ pre] by (fastforce split: option.splits)
  qed
  ultimately show ?thesis by (simp add: good_entry_def)
qed

text \<open>
  A listing is at most as long as was asked for, and stays in the jail: every entry
  lies inside a root, was reached through real directories only, never through a link,
  and is not below a directory that is skipped.
\<close>

theorem listing_is_bounded_and_jailed:
  assumes "disk_ok d" and "list_within d lower roots root query limit = Inr l"
  shows "length (found l) \<le> limit \<and>
    (\<forall>e \<in> set (found l). inside d roots (fe_path e) \<and> real_dir d (butlast (fe_path e)) \<and>
      set (butlast (drop (length (fe_root e)) (fe_path e))) \<inter> set SKIPPED = {})"
  using assms by (rule listing_jailed)

lemma demo_disk_ok: "disk_ok demo_disk"
  by (simp add: disk_ok_def hm_ok_def demo_disk_def node_at_def)

theorem listing_is_bounded_and_jailed_witness:
  "\<exists>l. list_within demo_disk id [''/w''] None [] 1 = Inr l \<and> length (found l) \<le> 1 \<and>
     (\<forall>e \<in> set (found l). inside demo_disk [''/w''] (fe_path e))"
proof -
  obtain l where l: "list_within demo_disk id [''/w''] None [] 1 = Inr l"
    by (simp add: list_within_def)
  from listing_is_bounded_and_jailed [OF demo_disk_ok l] l show ?thesis by blast
qed

end
