(* ===== verification/Utf8.thy ===== *)
theory Utf8
  imports Prelude
begin

text \<open>
  \<open>String::from_utf8_lossy\<close> of the standard library, as it is written there: a byte says
  how long its character is, the bytes after it must be continuations (the first of them
  within a range the lead byte sets), and the longest prefix of a character that can no
  longer be completed is replaced as a whole by U+FFFD. \<open>valid_utf8\<close> is the invariant of
  \<open>str\<close>.
\<close>

section \<open>One character\<close>

definition continuation :: "8 word \<Rightarrow> bool" where
  "continuation b \<longleftrightarrow> 0x80 \<le> b \<and> b \<le> 0xBF"

definition char_width :: "8 word \<Rightarrow> nat" where
  "char_width b =
     (if b < 0x80 then 1 else if 0xC2 \<le> b \<and> b \<le> 0xDF then 2
      else if 0xE0 \<le> b \<and> b \<le> 0xEF then 3 else if 0xF0 \<le> b \<and> b \<le> 0xF4 then 4 else 0)"

definition second_byte :: "8 word \<Rightarrow> 8 word \<Rightarrow> bool" where
  "second_byte lead b \<longleftrightarrow> continuation b \<and>
     (lead = 0xE0 \<longrightarrow> 0xA0 \<le> b) \<and> (lead = 0xED \<longrightarrow> b \<le> 0x9F) \<and>
     (lead = 0xF0 \<longrightarrow> 0x90 \<le> b) \<and> (lead = 0xF4 \<longrightarrow> b \<le> 0x8F)"

text \<open>How many of the bytes after the lead continue its character.\<close>

definition follow :: "8 word \<Rightarrow> 8 word list \<Rightarrow> nat" where
  "follow lead bs =
     (case bs of
        [] \<Rightarrow> 0
      | b # rest \<Rightarrow>
          if second_byte lead b
          then Suc (length (takeWhile continuation (take (char_width lead - 2) rest))) else 0)"

text \<open>Whether the bytes begin with a character, and how many bytes it or its stump has.\<close>

fun next_char :: "8 word list \<Rightarrow> bool \<times> nat" where
  "next_char [] = (False, 0)"
| "next_char (b # bs) =
     (if char_width b \<le> 1 then (char_width b = 1, 1)
      else (Suc (follow b bs) = char_width b, Suc (follow b bs)))"

declare next_char.simps(2) [simp del]

definition REPLACEMENT :: "8 word list" where
  "REPLACEMENT = [0xEF, 0xBF, 0xBD]"

section \<open>Decoding\<close>

function utf8_lossy :: "8 word list \<Rightarrow> 8 word list" where
  "utf8_lossy [] = []"
| "utf8_lossy (b # bs) =
     (let (ok, n) = next_char (b # bs)
      in (if ok then take n (b # bs) else REPLACEMENT) @ utf8_lossy (drop n (b # bs)))"
  by pat_completeness auto

termination by (relation "measure length") (auto simp: next_char.simps split: if_splits)

function valid_utf8 :: "8 word list \<Rightarrow> bool" where
  "valid_utf8 [] = True"
| "valid_utf8 (b # bs) =
     (let (ok, n) = next_char (b # bs) in ok \<and> valid_utf8 (drop n (b # bs)))"
  by pat_completeness auto

termination by (relation "measure length") (auto simp: next_char.simps split: if_splits)

section \<open>What comes out is text\<close>

lemma length_takeWhile_cut:
  "length (takeWhile P (take k xs)) = k \<Longrightarrow>
     takeWhile P (take k (take k xs @ ys)) = take k xs \<and> k \<le> length xs"
proof -
  assume "length (takeWhile P (take k xs)) = k"
  moreover have "length (takeWhile P (take k xs)) \<le> length (take k xs)" by (rule length_takeWhile_le)
  ultimately have k: "k \<le> length xs" and "length (takeWhile P (take k xs)) = length (take k xs)" by auto
  then have "takeWhile P (take k xs) = take k xs"
    by (metis takeWhile_eq_take take_all order_refl)
  with k show ?thesis by simp
qed

lemma follow_full:
  assumes "Suc (follow b bs) = char_width b" and "2 \<le> char_width b"
  shows "follow b (take (follow b bs) bs @ ys) = follow b bs \<and> follow b bs \<le> length bs"
proof (cases bs)
  case Nil
  then show ?thesis using assms by (simp add: follow_def)
next
  case (Cons c rest)
  let ?k = "char_width b - 2"
  have c: "second_byte b c" and len: "length (takeWhile continuation (take ?k rest)) = ?k"
    using assms Cons by (auto simp: follow_def split: if_splits)
  have "follow b bs = Suc ?k" using c len Cons by (simp add: follow_def)
  then show ?thesis using c length_takeWhile_cut [OF len, of ys] Cons by (simp add: follow_def)
qed

lemma next_char_True:
  assumes "next_char xs = (True, n)"
  shows "0 < n \<and> n \<le> length xs \<and> next_char (take n xs @ ys) = (True, n)"
proof (cases xs)
  case Nil
  then show ?thesis using assms by simp
next
  case (Cons b bs)
  show ?thesis
  proof (cases "char_width b \<le> 1")
    case True
    then show ?thesis using assms Cons by (auto simp: next_char.simps)
  next
    case False
    then have full: "Suc (follow b bs) = char_width b" and n: "n = Suc (follow b bs)"
      using assms Cons by (auto simp: next_char.simps)
    have "take n xs @ ys = b # (take (follow b bs) bs @ ys)" by (simp only: n Cons take_Suc_Cons append_Cons)
    then show ?thesis
      using follow_full [OF full, of ys] False full n Cons by (simp only: next_char.simps) simp
  qed
qed

lemma valid_step:
  assumes "next_char xs = (True, n)"
  shows "valid_utf8 (take n xs @ ys) \<longleftrightarrow> valid_utf8 ys"
proof -
  from next_char_True [OF assms, of ys] have n: "0 < n" "n \<le> length xs"
    and nc: "next_char (take n xs @ ys) = (True, n)" by auto
  then obtain b bs where b: "take n xs @ ys = b # bs" by (cases "take n xs") auto
  have "valid_utf8 (take n xs @ ys) \<longleftrightarrow> valid_utf8 (drop n (take n xs @ ys))"
    using nc unfolding b by simp
  then show ?thesis using n by simp
qed

lemma valid_append: "valid_utf8 xs \<Longrightarrow> valid_utf8 (xs @ ys) = valid_utf8 ys"
proof (induction xs rule: valid_utf8.induct)
  case 1
  then show ?case by simp
next
  case (2 b bs)
  obtain n where n: "next_char (b # bs) = (True, n)" and rest: "valid_utf8 (drop n (b # bs))"
    using "2.prems" by (auto split: prod.splits)
  have "(b # bs) @ ys = take n (b # bs) @ (drop n (b # bs) @ ys)" by simp
  then show ?case using valid_step [OF n] "2.IH" [OF n [symmetric] refl] rest by metis
qed

lemma valid_REPLACEMENT: "valid_utf8 REPLACEMENT"
  by (simp add: REPLACEMENT_def next_char.simps char_width_def follow_def second_byte_def continuation_def)

lemma lossy_valid: "valid_utf8 (utf8_lossy bs)"
proof (induction bs rule: utf8_lossy.induct)
  case (2 b bs)
  obtain ok n where n: "next_char (b # bs) = (ok, n)" by fastforce
  then show ?case
    using "2.IH" [OF n [symmetric] refl] valid_step [of "b # bs" n] valid_append [OF valid_REPLACEMENT]
    by (cases ok) auto
qed simp

lemma lossy_id: "valid_utf8 bs \<Longrightarrow> utf8_lossy bs = bs"
proof (induction bs rule: utf8_lossy.induct)
  case (2 b bs)
  obtain ok n where n: "next_char (b # bs) = (ok, n)" by fastforce
  with "2.prems" have "ok" "valid_utf8 (drop n (b # bs))" by auto
  with "2.IH" [OF n [symmetric] refl] n show ?case by simp
qed simp

text \<open>Text as the bytes it is made of, and back.\<close>

definition text_of :: "8 word list \<Rightarrow> string" where
  "text_of bs = map (\<lambda>b. char_of (unat b)) bs"

definition bytes_of :: "string \<Rightarrow> 8 word list" where
  "bytes_of s = map (\<lambda>c. of_nat (of_char c)) s"

lemma bytes_of_text_of [simp]: "bytes_of (text_of bs) = bs"
proof -
  have "of_nat (unat b mod 256) = b" for b :: "8 word"
    using unsigned_less [of b, where ?'a = nat] by simp
  then show ?thesis by (simp add: bytes_of_def text_of_def o_def)
qed

end
