(* ===== verification/Terminal.thy ===== *)
theory Terminal
  imports Workspace_Props Utf8
begin

text \<open>
  \<open>crates/mjx-workspace/src/terminal.rs\<close> and the rest of its \<open>lib.rs\<close>: the byte budget of
  a terminal's output, the terminals of a connection, and the workspace that puts them
  beside the file operations. Starting a process is the PTY library's: whether it
  worked is an argument. A terminal is shared between the map, its reader thread and its
  waiter thread, so terminals are cells, numbered as they are created, and the map holds
  numbers; the two threads' iterations are operations of their own.
\<close>

section \<open>Output within a budget\<close>

record pty_output =
  buffer :: "8 word list"
  budget :: nat
  truncated :: bool

definition new_output :: "nat \<Rightarrow> pty_output" where
  "new_output limit = \<lparr>buffer = [], budget = limit, truncated = False\<rparr>"

text \<open>The loop that pops from the front.\<close>

function trim :: "pty_output \<Rightarrow> pty_output" where
  "trim out =
     (if length (buffer out) > budget out
      then trim (out\<lparr>buffer := tl (buffer out), truncated := True\<rparr>) else out)"
  by auto

termination by (relation "measure (\<lambda>out. length (buffer out))") auto

declare trim.simps [simp del]

definition output_push :: "8 word list \<Rightarrow> pty_output \<Rightarrow> pty_output" where
  "output_push chunk out = trim (out\<lparr>buffer := buffer out @ chunk\<rparr>)"

definition output_text :: "pty_output \<Rightarrow> string" where
  "output_text out = text_of (utf8_lossy (buffer out))"

lemma trim_eq:
  "trim out = out\<lparr>buffer := drop (length (buffer out) - budget out) (buffer out),
                 truncated := (truncated out \<or> budget out < length (buffer out))\<rparr>"
proof (induction out rule: trim.induct)
  case (1 out)
  show ?case
  proof (cases "budget out < length (buffer out)")
    case True
    have "drop (length (tl (buffer out)) - budget out) (tl (buffer out)) =
        drop (length (buffer out) - budget out) (buffer out)"
      using True by (cases "buffer out") (auto simp: Suc_diff_le)
    then show ?thesis using True 1 by (subst trim.simps) simp
  next
    case False
    then show ?thesis by (subst trim.simps) simp
  qed
qed

lemma push_eq:
  "output_push chunk out =
     out\<lparr>buffer := drop (length (buffer out) + length chunk - budget out) (buffer out @ chunk),
         truncated := (truncated out \<or> budget out < length (buffer out) + length chunk)\<rparr>"
  by (simp add: output_push_def trim_eq)

lemma push_all:
  assumes "buffer out = drop (length all - budget out) all" and "truncated out \<longleftrightarrow> budget out < length all"
  shows "foldl (\<lambda>out c. output_push c out) out chunks =
    out\<lparr>buffer := drop (length (all @ concat chunks) - budget out) (all @ concat chunks),
        truncated := (budget out < length (all @ concat chunks))\<rparr>"
  using assms
proof (induction chunks arbitrary: out all)
  case Nil
  then show ?case by simp
next
  case (Cons c chunks)
  let ?out = "output_push c out"
  have "buffer ?out = drop (length (all @ c) - budget ?out) (all @ c)"
    and "truncated ?out \<longleftrightarrow> budget ?out < length (all @ c)"
    using Cons.prems by (auto simp: push_eq add.commute)
  from Cons.IH [OF this] show ?case by (simp add: push_eq)
qed

text \<open>
  However the output arrives in chunks, what a terminal retains is the end of it, as
  many bytes as the budget allows, and the flag says exactly whether anything was lost.
\<close>

theorem output_keeps_the_end:
  "let out = foldl (\<lambda>out c. output_push c out) (new_output limit) chunks; all = concat chunks
   in buffer out = drop (length all - limit) all \<and> length (buffer out) = min limit (length all) \<and>
      (truncated out \<longleftrightarrow> limit < length all)"
  using push_all [of "new_output limit" "[]" chunks] by (simp add: new_output_def Let_def)

section \<open>Terminals\<close>

record exit_status =
  exit_code :: "32 word option"
  exit_signal :: "string option"

definition default_exit :: exit_status where
  "default_exit = \<lparr>exit_code = None, exit_signal = None\<rparr>"

text \<open>\<open>i32::try_from\<close> of an unsigned code.\<close>

definition exit_status_of :: "32 word \<Rightarrow> exit_status" where
  "exit_status_of code =
     \<lparr>exit_code = (if unat code < 2 ^ 31 then Some code else None), exit_signal = None\<rparr>"

datatype workspace_event =
    TerminalCreated string string "string list" string
  | TerminalOutput string "8 word list" bool
  | TerminalExit string exit_status
  | FileWritten string "string option" string

record terminal =
  term_id :: string
  term_output :: pty_output
  term_exit :: "exit_status option"
  term_killer :: bool
  term_signalled :: bool

record terminals =
  registry :: "(string, nat) hmap"
  cells :: "terminal list"
  next_terminal :: "64 word"
  events :: "workspace_event list"

definition new_terminals :: terminals where
  "new_terminals = \<lparr>registry = [], cells = [], next_terminal = 0, events = []\<rparr>"

definition DEFAULT_OUTPUT_LIMIT :: nat where
  "DEFAULT_OUTPUT_LIMIT = 1024 * 1024"

definition terminal_name :: "64 word \<Rightarrow> string" where
  "terminal_name n = ''term-'' @ dec (unat n)"

definition create_terminal ::
  "string + unit \<Rightarrow> string \<Rightarrow> string list \<Rightarrow> string \<Rightarrow> nat option \<Rightarrow> terminals \<Rightarrow>
   (workspace_error + string) \<times> terminals" where
  "create_terminal spawned command args cwd limit ts =
     (let i = terminal_name (next_terminal ts);
          ts1 = ts\<lparr>next_terminal := next_terminal ts + 1\<rparr>
      in case spawned of
           Inl e \<Rightarrow> (Inl (TerminalFailed e), ts1)
         | Inr _ \<Rightarrow>
             let out = new_output (max (case limit of None \<Rightarrow> DEFAULT_OUTPUT_LIMIT | Some l \<Rightarrow> l) 1)
             in (Inr i, ts1\<lparr>events := events ts @ [TerminalCreated i command args cwd],
                            cells := cells ts @ [\<lparr>term_id = i, term_output = out, term_exit = None,
                                                  term_killer = True, term_signalled = False\<rparr>],
                            registry := hm_insert i (length (cells ts)) (registry ts)\<rparr>))"

text \<open>An iteration of the reader thread, and the waiter thread.\<close>

definition reader_step :: "nat \<Rightarrow> 8 word list \<Rightarrow> terminals \<Rightarrow> terminals" where
  "reader_step n chunk ts =
     (let t = cells ts ! n; out = output_push chunk (term_output t)
      in ts\<lparr>cells := (cells ts)[n := t\<lparr>term_output := out\<rparr>],
            events := events ts @ [TerminalOutput (term_id t) chunk (truncated out)]\<rparr>)"

definition waiter_step :: "nat \<Rightarrow> exit_status \<Rightarrow> terminals \<Rightarrow> terminals" where
  "waiter_step n st ts =
     (let t = cells ts ! n
      in ts\<lparr>cells := (cells ts)[n := t\<lparr>term_exit := Some st\<rparr>],
            events := events ts @ [TerminalExit (term_id t) st]\<rparr>)"

definition get_terminal :: "string \<Rightarrow> terminals \<Rightarrow> workspace_error + nat" where
  "get_terminal i ts =
     (case hm_get (registry ts) i of None \<Rightarrow> Inl (NoSuchTerminal i) | Some n \<Rightarrow> Inr n)"

definition terminal_output ::
  "string \<Rightarrow> terminals \<Rightarrow> workspace_error + string \<times> bool \<times> exit_status option" where
  "terminal_output i ts =
     (case get_terminal i ts of
        Inl e \<Rightarrow> Inl e
      | Inr n \<Rightarrow>
          let t = cells ts ! n
          in Inr (output_text (term_output t), truncated (term_output t), term_exit t))"

text \<open>
  \<open>wait_for_exit\<close> looks the terminal up once and then watches its exit. At one look there
  is the status, or nothing yet, or, where the waiter thread is gone without having
  reported, an unknown exit.
\<close>

definition poll_exit :: "bool \<Rightarrow> nat \<Rightarrow> terminals \<Rightarrow> exit_status option" where
  "poll_exit waiter_gone n ts =
     (case term_exit (cells ts ! n) of
        Some st \<Rightarrow> Some st
      | None \<Rightarrow> if waiter_gone then Some default_exit else None)"

definition kill_terminal :: "string \<Rightarrow> terminals \<Rightarrow> (workspace_error + unit) \<times> terminals" where
  "kill_terminal i ts =
     (case get_terminal i ts of
        Inl e \<Rightarrow> (Inl e, ts)
      | Inr n \<Rightarrow>
          let t = cells ts ! n
          in (Inr (), if term_killer t
                      then ts\<lparr>cells := (cells ts)[n := t\<lparr>term_killer := False, term_signalled := True\<rparr>]\<rparr>
                      else ts))"

definition release_terminal :: "string \<Rightarrow> terminals \<Rightarrow> (workspace_error + unit) \<times> terminals" where
  "release_terminal i ts =
     (let ts1 = snd (kill_terminal i ts)
      in (Inr (), ts1\<lparr>registry := hm_remove i (registry ts1)\<rparr>))"

definition release_all :: "terminals \<Rightarrow> terminals" where
  "release_all ts = foldl (\<lambda>ts i. snd (release_terminal i ts)) ts (map fst (registry ts))"

section \<open>Runs\<close>

datatype terminal_op =
    CreateT "string + unit" string "string list" string "nat option"
  | ReadT nat "8 word list"
  | ExitT nat exit_status
  | KillT string
  | ReleaseT string
  | ReleaseAllT

fun terminal_step :: "terminals \<Rightarrow> terminal_op \<Rightarrow> terminals" where
  "terminal_step ts (CreateT sp c a d l) = snd (create_terminal sp c a d l ts)"
| "terminal_step ts (ReadT n chunk) = (if n < length (cells ts) then reader_step n chunk ts else ts)"
| "terminal_step ts (ExitT n st) = (if n < length (cells ts) then waiter_step n st ts else ts)"
| "terminal_step ts (KillT i) = snd (kill_terminal i ts)"
| "terminal_step ts (ReleaseT i) = snd (release_terminal i ts)"
| "terminal_step ts ReleaseAllT = release_all ts"

text \<open>
  The map points at live cells of that name; a cell no longer in the map has been signalled;
  every cell was announced.
\<close>

fun created_id :: "workspace_event \<Rightarrow> string option" where
  "created_id (TerminalCreated i c a d) = Some i"
| "created_id _ = None"

fun mentions :: "workspace_event \<Rightarrow> string option" where
  "mentions (TerminalOutput i c b) = Some i"
| "mentions (TerminalExit i s) = Some i"
| "mentions _ = None"

definition announced :: "workspace_event list \<Rightarrow> bool" where
  "announced evs \<longleftrightarrow> (\<forall>before ev after i. evs = before @ ev # after \<longrightarrow> mentions ev = Some i \<longrightarrow>
     (\<exists>e \<in> set before. created_id e = Some i))"

definition terminals_ok :: "terminals \<Rightarrow> bool" where
  "terminals_ok ts \<longleftrightarrow>
     (\<forall>i n. hm_get (registry ts) i = Some n \<longrightarrow> n < length (cells ts) \<and> term_id (cells ts ! n) = i) \<and>
     (\<forall>t \<in> set (cells ts). term_killer t \<or> term_signalled t) \<and>
     (\<forall>t \<in> set (cells ts). \<exists>e \<in> set (events ts). created_id e = Some (term_id t)) \<and>
     announced (events ts)"

lemma announced_snoc:
  assumes "announced evs" and "\<And>i. mentions ev = Some i \<Longrightarrow> \<exists>e \<in> set evs. created_id e = Some i"
  shows "announced (evs @ [ev])"
  unfolding announced_def
proof (intro allI impI)
  fix before e after i
  assume eq: "evs @ [ev] = before @ e # after" and m: "mentions e = Some i"
  show "\<exists>x \<in> set before. created_id x = Some i"
  proof (cases after rule: rev_cases)
    case Nil
    with eq assms(2) m show ?thesis by simp
  next
    case (snoc xs x)
    with eq have "evs = before @ e # xs" by simp
    with assms(1) m show ?thesis by (auto simp: announced_def)
  qed
qed

lemma set_update_cases: "x \<in> set (xs[n := y]) \<Longrightarrow> x = y \<or> x \<in> set xs"
  using set_update_subset_insert by fastforce

lemma terminals_ok_create:
  "terminals_ok ts \<Longrightarrow> terminals_ok (snd (create_terminal sp c a d l ts))"
  by (auto simp: create_terminal_def terminals_ok_def Let_def nth_append less_Suc_eq
      intro!: announced_snoc split: sum.split if_splits)

lemma terminals_ok_update:
  assumes "terminals_ok ts" and "n < length (cells ts)" and "term_id t = term_id (cells ts ! n)"
    and "term_killer t \<or> term_signalled t"
    and "ev = [] \<or> (\<exists>e. ev = [e] \<and> (mentions e = None \<or> mentions e = Some (term_id t)))"
  shows "terminals_ok (ts\<lparr>cells := (cells ts)[n := t], events := events ts @ ev\<rparr>)"
proof -
  have known: "\<exists>e \<in> set (events ts). created_id e = Some (term_id t)"
    using assms(1,2,3) by (simp add: terminals_ok_def)
  have ev: "announced (events ts @ ev)"
    using assms(5)
  proof
    assume "ev = []"
    with assms(1) show ?thesis by (simp add: terminals_ok_def)
  next
    assume "\<exists>e. ev = [e] \<and> (mentions e = None \<or> mentions e = Some (term_id t))"
    then obtain e where e: "ev = [e]" "mentions e = None \<or> mentions e = Some (term_id t)" by blast
    have "announced (events ts @ [e])"
      by (rule announced_snoc) (use assms(1) e known in \<open>auto simp: terminals_ok_def\<close>)
    with e show ?thesis by simp
  qed
  have "\<forall>i m. hm_get (registry ts) i = Some m \<longrightarrow> m < length ((cells ts)[n := t]) \<and> term_id ((cells ts)[n := t] ! m) = i"
    using assms(1,2,3) by (simp add: terminals_ok_def nth_list_update)
  moreover have "\<forall>u \<in> set ((cells ts)[n := t]). term_killer u \<or> term_signalled u"
    using assms(1,4) set_update_cases [of _ "cells ts" n t] by (auto simp: terminals_ok_def)
  moreover have "\<forall>u \<in> set ((cells ts)[n := t]). \<exists>e \<in> set (events ts @ ev). created_id e = Some (term_id u)"
  proof
    fix u assume "u \<in> set ((cells ts)[n := t])"
    then consider "u = t" | "u \<in> set (cells ts)" by (blast dest: set_update_cases)
    then show "\<exists>e \<in> set (events ts @ ev). created_id e = Some (term_id u)"
      by cases (use known assms(1) in \<open>auto simp: terminals_ok_def\<close>)
  qed
  ultimately show ?thesis using ev by (simp add: terminals_ok_def)
qed

lemma kill_eq:
  "snd (kill_terminal i ts) =
     (case hm_get (registry ts) i of
        None \<Rightarrow> ts
      | Some n \<Rightarrow>
          if term_killer (cells ts ! n)
          then ts\<lparr>cells := (cells ts)[n := (cells ts ! n)\<lparr>term_killer := False, term_signalled := True\<rparr>],
                  events := events ts @ []\<rparr>
          else ts)"
  by (simp add: kill_terminal_def get_terminal_def Let_def split: option.split)

lemma terminals_ok_kill:
  assumes "terminals_ok ts"
  shows "terminals_ok (snd (kill_terminal i ts))"
proof (cases "hm_get (registry ts) i")
  case (Some n)
  with assms have "n < length (cells ts)" by (simp add: terminals_ok_def)
  with terminals_ok_update [OF assms this, of "(cells ts ! n)\<lparr>term_killer := False, term_signalled := True\<rparr>" "[]"]
    Some assms show ?thesis by (simp only: kill_eq) simp
qed (simp add: kill_eq assms)

lemma terminals_ok_release: "terminals_ok ts \<Longrightarrow> terminals_ok (snd (release_terminal i ts))"
  using terminals_ok_kill [of ts i] by (auto simp: release_terminal_def terminals_ok_def Let_def split: if_splits)

lemma terminals_ok_release_all: "terminals_ok ts \<Longrightarrow> terminals_ok (release_all ts)"
proof -
  have "terminals_ok ts \<Longrightarrow> terminals_ok (foldl (\<lambda>ts i. snd (release_terminal i ts)) ts is)" for "is" ts
    by (induction "is" arbitrary: ts) (simp_all add: terminals_ok_release)
  then show "terminals_ok ts \<Longrightarrow> terminals_ok (release_all ts)" by (simp add: release_all_def)
qed

lemma terminals_ok_step: "terminals_ok ts \<Longrightarrow> terminals_ok (terminal_step ts op)"
proof (cases op)
  case (ReadT n chunk)
  moreover assume ok: "terminals_ok ts"
  ultimately show ?thesis
    using terminals_ok_update [OF ok, of n
        "(cells ts ! n)\<lparr>term_output := output_push chunk (term_output (cells ts ! n))\<rparr>"
        "[TerminalOutput (term_id (cells ts ! n)) chunk (truncated (output_push chunk (term_output (cells ts ! n))))]"]
    by (simp add: reader_step_def Let_def) (simp add: terminals_ok_def)
next
  case (ExitT n st)
  moreover assume ok: "terminals_ok ts"
  ultimately show ?thesis
    using terminals_ok_update [OF ok, of n "(cells ts ! n)\<lparr>term_exit := Some st\<rparr>"
        "[TerminalExit (term_id (cells ts ! n)) st]"]
    by (simp add: waiter_step_def Let_def) (simp add: terminals_ok_def)
qed (simp_all add: terminals_ok_create terminals_ok_kill terminals_ok_release terminals_ok_release_all)

interpretation terminal_machine: machine terminal_step terminals_ok
  by unfold_locales (rule terminals_ok_step)

definition terminal_run :: "terminal_op list \<Rightarrow> terminals" where
  "terminal_run ops = foldl terminal_step new_terminals ops"

lemma terminal_run_ok: "terminals_ok (terminal_run ops)"
  unfolding terminal_run_def
  by (rule terminal_machine.run_inv) (simp add: terminals_ok_def new_terminals_def announced_def)

text \<open>
  The browser is told of a terminal before it is told anything about it: however the
  threads interleave, an output or exit event is preceded by the creation of its terminal.
\<close>

theorem creation_is_announced_first:
  "announced (events (terminal_run ops))"
  using terminal_run_ok [of ops] by (simp add: terminals_ok_def)

section \<open>No process is lost\<close>














section \<open>What is read of a terminal\<close>

text \<open>
  C29: What the agent is given of a terminal's output is always valid UTF-8, whatever bytes
  the program wrote and wherever the budget cut them; and where the bytes retained are
  valid UTF-8 already, it is those bytes exactly. A terminal that is not in the map is an
  error, never empty output.
\<close>

theorem output_is_text:
  "case terminal_output i ts of
     Inl e \<Rightarrow> e = NoSuchTerminal i \<and> hm_get (registry ts) i = None
   | Inr (s, lost, st) \<Rightarrow>
       valid_utf8 (bytes_of s) \<and>
       (\<exists>n. hm_get (registry ts) i = Some n \<and> lost = truncated (term_output (cells ts ! n)) \<and>
            st = term_exit (cells ts ! n) \<and>
            (bytes_of s = buffer (term_output (cells ts ! n)) \<longleftrightarrow>
             valid_utf8 (buffer (term_output (cells ts ! n)))))"
  using lossy_valid lossy_id
  by (auto simp: terminal_output_def get_terminal_def output_text_def Let_def split: option.split)
    (metis lossy_valid)+

section \<open>The workspace of a connection\<close>

record workspace =
  ws_roots :: "string list"
  ws_cwd :: string
  ws_terminals :: terminals

definition new_workspace :: "string list \<Rightarrow> string \<Rightarrow> workspace" where
  "new_workspace roots cwd = \<lparr>ws_roots = roots, ws_cwd = cwd, ws_terminals = new_terminals\<rparr>"

definition workspace_read ::
  "disk \<Rightarrow> workspace \<Rightarrow> string \<Rightarrow> 32 word option \<Rightarrow> 32 word option \<Rightarrow> workspace_error + string" where
  "workspace_read d w path line limit = read_text_file d (ws_roots w) path line limit"

definition workspace_write ::
  "disk \<Rightarrow> workspace \<Rightarrow> string \<Rightarrow> string \<Rightarrow> (workspace_error + unit) \<times> disk \<times> workspace" where
  "workspace_write d w path contents =
     (case write_text_file d (ws_roots w) path contents of
        (Inl e, d1) \<Rightarrow> (Inl e, d1, w)
      | (Inr old, d1) \<Rightarrow>
          (Inr (), d1, w\<lparr>ws_terminals := (ws_terminals w)
             \<lparr>events := events (ws_terminals w) @ [FileWritten path old contents]\<rparr>\<rparr>))"

definition workspace_create_terminal ::
  "disk \<Rightarrow> string + unit \<Rightarrow> workspace \<Rightarrow> string \<Rightarrow> string list \<Rightarrow> string option \<Rightarrow> nat option \<Rightarrow>
   (workspace_error + string) \<times> workspace" where
  "workspace_create_terminal d spawned w command args cwd limit =
     (case (case cwd of
              None \<Rightarrow> Inr (ws_cwd w)
            | Some c \<Rightarrow>
                (case resolve_within d (ws_roots w) c True of Inl e \<Rightarrow> Inl e | Inr p \<Rightarrow> Inr (render p))) of
        Inl e \<Rightarrow> (Inl e, w)
      | Inr dir \<Rightarrow>
          let (r, ts) = create_terminal spawned command args dir limit (ws_terminals w)
          in (r, w\<lparr>ws_terminals := ts\<rparr>))"

definition release_all_terminals :: "workspace \<Rightarrow> workspace" where
  "release_all_terminals w = w\<lparr>ws_terminals := release_all (ws_terminals w)\<rparr>"

text \<open>
  A terminal is started in a directory inside the workspace or in the session's own,
  and what the browser is told of it is that directory; a directory outside is refused
  before anything is started. A write is mirrored to the browser exactly when it happened.
\<close>

theorem workspace_effects_are_mirrored:
  "(case workspace_create_terminal d spawned w command args cwd limit of
      (Inr i, w') \<Rightarrow> \<exists>dir. events (ws_terminals w') = events (ws_terminals w) @ [TerminalCreated i command args dir] \<and>
        (case cwd of None \<Rightarrow> dir = ws_cwd w
                   | Some c \<Rightarrow> \<exists>p. canonical d (components c) = Some p \<and> inside d (ws_roots w) p \<and> dir = render p)
    | (Inl e, w') \<Rightarrow> events (ws_terminals w') = events (ws_terminals w) \<and>
        cells (ws_terminals w') = cells (ws_terminals w)) \<and>
   (case workspace_write d w path contents of
      (Inr _, d', w') \<Rightarrow> \<exists>old. write_text_file d (ws_roots w) path contents = (Inr old, d') \<and>
        events (ws_terminals w') = events (ws_terminals w) @ [FileWritten path old contents]
    | (Inl e, d', w') \<Rightarrow> w' = w)"
  by (auto simp: workspace_create_terminal_def workspace_write_def create_terminal_def resolve_within_def
      Let_def split: sum.split option.split prod.split if_splits)

end
