(* ===== verification/Mcp_Server.thy ===== *)
theory Mcp_Server
  imports Frame "HOL-Library.Multiset"
begin

text \<open>
  \<open>crates/mjx-mcp/src/lib.rs\<close>: an MCP server this process holds open. A call registers a
  oneshot channel under a fresh id and waits; the reader task settles it. Calls are
  numbered as they are made and a call's number stands for its channel: \<open>srv_pending\<close>
  holds the numbers of the calls that wait, \<open>srv_replies\<close> what each call was told. Lines
  for the server are kept as they are put into the writer's channel; \<open>srv_writable\<close> is
  whether the writer task still takes them. The process, its pipes and the grace period are
  not modelled.
\<close>

section \<open>State\<close>

type_synonym mcp_reply = "json_rpc_error + raw"

datatype from_server =
    ServerNotification string "raw option"
  | ServerRequest request_id string "raw option"

record mcp_server =
  srv_name :: string
  srv_input :: "string list"
  srv_writable :: bool
  srv_pending :: "(request_id, nat) hmap"
  srv_next :: "64 word"
  srv_child :: bool
  srv_events :: "from_server list"
  srv_calls :: nat
  srv_replies :: "(nat \<times> mcp_reply) list"

text \<open>\<open>over_streams\<close>, and \<open>spawn\<close> once the process runs.\<close>

definition over_streams :: "string \<Rightarrow> mcp_server" where
  "over_streams name = \<lparr>srv_name = name, srv_input = [], srv_writable = True, srv_pending = [],
     srv_next = 1, srv_child = False, srv_events = [], srv_calls = 0, srv_replies = []\<rparr>"

definition spawn_server :: "string \<Rightarrow> mcp_server" where
  "spawn_server name = (over_streams name)\<lparr>srv_child := True\<rparr>"

section \<open>Operations\<close>

definition gone :: "string \<Rightarrow> mcp_server \<Rightarrow> json_rpc_error" where
  "gone what s = internal_error (''the MCP server `'' @ srv_name s @ ''` '' @ what)"

definition tell :: "nat \<Rightarrow> mcp_reply \<Rightarrow> mcp_server \<Rightarrow> mcp_server" where
  "tell n reply s = s\<lparr>srv_replies := srv_replies s @ [(n, reply)]\<rparr>"

definition send_to_server :: "string \<Rightarrow> mcp_server \<Rightarrow> mcp_server" where
  "send_to_server line s = (if srv_writable s then s\<lparr>srv_input := srv_input s @ [line]\<rparr> else s)"

definition take_pending :: "request_id \<Rightarrow> mcp_server \<Rightarrow> nat option \<times> mcp_server" where
  "take_pending i s = (let (n, m) = hm_take i (srv_pending s) in (n, s\<lparr>srv_pending := m\<rparr>))"

text \<open>
  \<open>request\<close> up to the wait, with the number of the call. Inserting over a channel drops it,
  and whoever waits on it is told so.
\<close>

definition register_call :: "request_id \<Rightarrow> mcp_server \<Rightarrow> nat \<times> mcp_server" where
  "register_call i s =
     (let n = srv_calls s;
          s1 = s\<lparr>srv_calls := Suc n, srv_pending := hm_insert i n (srv_pending s)\<rparr>
      in (n, case hm_get (srv_pending s) i of
               None \<Rightarrow> s1
             | Some old \<Rightarrow> tell old (Inl (gone ''stopped before answering'' s)) s1))"

definition request_server ::
  "('a) serde_scheme \<Rightarrow> string \<Rightarrow> raw option \<Rightarrow> mcp_server \<Rightarrow> nat \<times> mcp_server" where
  "request_server E m p s =
     (let i = IdNumber (srv_next s);
          (n, s1) = register_call i (s\<lparr>srv_next := srv_next s + 1\<rparr>)
      in (n, if srv_writable s1 then send_to_server (to_line E (Request i m p)) s1
             else tell n (Inl (gone ''is not running'' s1)) (snd (take_pending i s1))))"

definition notify_server ::
  "('a) serde_scheme \<Rightarrow> string \<Rightarrow> raw option \<Rightarrow> mcp_server \<Rightarrow> mcp_server" where
  "notify_server E m p s = send_to_server (to_line E (Notification m p)) s"

fun reply_frame :: "request_id \<Rightarrow> mcp_reply \<Rightarrow> frame" where
  "reply_frame i (Inr r) = Response i (Result r)"
| "reply_frame i (Inl e) = frame_error i e"

definition answer_server ::
  "('a) serde_scheme \<Rightarrow> request_id \<Rightarrow> mcp_reply \<Rightarrow> mcp_server \<Rightarrow> mcp_server" where
  "answer_server E i reply s = send_to_server (to_line E (reply_frame i reply)) s"

fun reply_of :: "response_payload \<Rightarrow> mcp_reply" where
  "reply_of (Result r) = Inr r"
| "reply_of (Error e) = Inl e"

definition on_line :: "('a) serde_scheme \<Rightarrow> string \<Rightarrow> mcp_server \<Rightarrow> mcp_server" where
  "on_line E line s =
     (case parse E line of
        Inl _ \<Rightarrow> s
      | Inr (Response i payload) \<Rightarrow>
          (case take_pending i s of
             (None, _) \<Rightarrow> s
           | (Some n, s1) \<Rightarrow> tell n (reply_of payload) s1)
      | Inr (Notification m p) \<Rightarrow> s\<lparr>srv_events := srv_events s @ [ServerNotification m p]\<rparr>
      | Inr (Request i m p) \<Rightarrow> s\<lparr>srv_events := srv_events s @ [ServerRequest i m p]\<rparr>)"

definition fail_everything_pending :: "mcp_server \<Rightarrow> mcp_server" where
  "fail_everything_pending s =
     s\<lparr>srv_pending := [],
       srv_replies := srv_replies s @ map (\<lambda>(i, n). (n, Inl (gone ''stopped'' s))) (srv_pending s)\<rparr>"

text \<open>
  \<open>shutdown\<close>: the process is taken away; the channel to the writer task stays as it is.
\<close>

definition shutdown_server :: "mcp_server \<Rightarrow> mcp_server" where
  "shutdown_server s = fail_everything_pending (s\<lparr>srv_child := False\<rparr>)"

section \<open>Runs\<close>

text \<open>
  What happens to a server: calls and messages of its owner, lines of its output, the end
  of its output (the reader task's last act), the writer task giving up, and shutdown.
\<close>

datatype server_op =
    Call string "raw option"
  | Tell string "raw option"
  | Answer request_id mcp_reply
  | ServerLine string
  | OutputClosed
  | WriterGone
  | ShutdownServer

fun server_step :: "('a) serde_scheme \<Rightarrow> mcp_server \<Rightarrow> server_op \<Rightarrow> mcp_server" where
  "server_step E s (Call m p) = snd (request_server E m p s)"
| "server_step E s (Tell m p) = notify_server E m p s"
| "server_step E s (Answer i r) = answer_server E i r s"
| "server_step E s (ServerLine line) = on_line E line s"
| "server_step E s OutputClosed = fail_everything_pending s"
| "server_step E s WriterGone = s\<lparr>srv_writable := False\<rparr>"
| "server_step E s ShutdownServer = shutdown_server s"

definition server_run :: "('a) serde_scheme \<Rightarrow> mcp_server \<Rightarrow> server_op list \<Rightarrow> mcp_server" where
  "server_run E s ops = foldl (server_step E) s ops"

lemma server_run_simps [simp]:
  "server_run E s [] = s" "server_run E s (op # ops) = server_run E (server_step E s op) ops"
  "server_run E s (xs @ ys) = server_run E (server_run E s xs) ys"
  by (simp_all add: server_run_def)

text \<open>The table of waiting calls keeps the contract of every table of requests in flight.\<close>

interpretation calls: request_table
  "\<lambda>i n s. s\<lparr>srv_pending := hm_insert i n (srv_pending s)\<rparr>" take_pending "\<lambda>s. map_of (srv_pending s)"
  by unfold_locales (simp_all add: take_pending_def hm_take_def)

section \<open>Every call is answered once\<close>

text \<open>The calls that wait and those that were told, each once, are all the calls made.\<close>

definition calls_ok :: "mcp_server \<Rightarrow> bool" where
  "calls_ok s \<longleftrightarrow> hm_ok (srv_pending s) \<and>
     mset (map snd (srv_pending s)) + mset (map fst (srv_replies s)) = mset [0..<srv_calls s]"

lemma mset_hm_remove:
  assumes "hm_ok m"
  shows "mset m = (case hm_get m k of
      None \<Rightarrow> mset (hm_remove k m) | Some v \<Rightarrow> add_mset (k, v) (mset (hm_remove k m)))"
  using assms
proof (induction m)
  case (Cons x m)
  obtain j v where x: "x = (j, v)" by (cases x)
  from Cons.prems x have ok: "hm_ok m" and new: "hm_get m j = None"
    by (auto simp: hm_ok_def map_of_eq_None_iff)
  show ?case
  proof (cases "j = k")
    case True
    with new have "hm_remove k m = m" by (simp add: delete_idem map_of_eq_None_iff)
    with True x show ?thesis by simp
  next
    case False
    with Cons.IH [OF ok] x show ?thesis by (auto split: option.splits)
  qed
qed simp

lemma mset_hm_insert: "hm_ok m \<Longrightarrow> mset (hm_insert k v m) = add_mset (k, v) (mset (hm_remove k m))"
proof (induction m)
  case (Cons x m)
  obtain j w where x: "x = (j, w)" by (cases x)
  from Cons.prems x have ok: "hm_ok m" and new: "j \<notin> fst ` set m"
    by (auto simp: hm_ok_def)
  show ?case
  proof (cases "j = k")
    case True
    with new have "hm_remove k m = m" by (simp add: delete_idem)
    with True x show ?thesis by simp
  next
    case False
    with Cons.IH [OF ok] x show ?thesis by simp
  qed
qed simp

lemma pending_split:
  assumes "calls_ok s"
  shows "mset (map snd (hm_remove i (srv_pending s))) +
      (case hm_get (srv_pending s) i of None \<Rightarrow> {#} | Some n \<Rightarrow> {#n#}) + mset (map fst (srv_replies s)) =
    mset [0..<srv_calls s]"
proof -
  have "mset (map snd (srv_pending s)) = mset (map snd (hm_remove i (srv_pending s))) +
      (case hm_get (srv_pending s) i of None \<Rightarrow> {#} | Some n \<Rightarrow> {#n#})"
    using assms mset_hm_remove [of "srv_pending s" i]
    by (auto simp: calls_ok_def mset_map split: option.splits)
  with assms show ?thesis by (simp add: calls_ok_def)
qed

lemma calls_ok_send [simp]: "calls_ok (send_to_server line s) = calls_ok s"
  by (simp add: calls_ok_def send_to_server_def)

lemma calls_ok_flags [simp]:
  "calls_ok (s\<lparr>srv_child := b\<rparr>) = calls_ok s" "calls_ok (s\<lparr>srv_writable := b\<rparr>) = calls_ok s"
  by (simp_all add: calls_ok_def)

lemma calls_ok_new: "calls_ok (over_streams name)" "calls_ok (spawn_server name)"
  by (simp_all add: calls_ok_def over_streams_def spawn_server_def)

lemma calls_ok_register:
  assumes "calls_ok s"
  shows "calls_ok (snd (register_call i s))" and "hm_get (srv_pending (snd (register_call i s))) i = Some (srv_calls s)"
proof -
  have ok: "hm_ok (srv_pending s)" using assms by (simp add: calls_ok_def)
  show "calls_ok (snd (register_call i s))"
    using pending_split [OF assms, of i] ok mset_hm_insert [OF ok, of i "srv_calls s"]
    by (auto simp: calls_ok_def register_call_def tell_def Let_def inv_intros simp del: mset_upt
        split: option.splits)
  show "hm_get (srv_pending (snd (register_call i s))) i = Some (srv_calls s)"
    by (simp add: register_call_def tell_def Let_def split: option.split)
qed

lemma calls_ok_answered:
  assumes "calls_ok s" and "hm_get (srv_pending s) i = Some n"
  shows "calls_ok (tell n r (s\<lparr>srv_pending := hm_remove i (srv_pending s)\<rparr>))"
  using pending_split [OF assms(1), of i] assms
  by (simp add: calls_ok_def tell_def inv_intros)

lemma calls_ok_fail: "calls_ok s \<Longrightarrow> calls_ok (fail_everything_pending s)"
  by (simp add: calls_ok_def fail_everything_pending_def case_prod_beta comp_def add.commute)

lemma calls_ok_request:
  assumes "calls_ok s"
  shows "calls_ok (snd (request_server E m p s))"
proof -
  let ?i = "IdNumber (srv_next s)" and ?s = "s\<lparr>srv_next := srv_next s + 1\<rparr>"
  have "calls_ok ?s" using assms by (simp add: calls_ok_def)
  note r = calls_ok_register [OF this, of ?i]
  have n: "fst (register_call ?i ?s) = srv_calls ?s" by (simp add: register_call_def Let_def)
  show ?thesis
    using r(1) calls_ok_answered [OF r]
    by (simp add: request_server_def case_prod_beta Let_def take_pending_def hm_take_def n)
qed

lemma calls_ok_line: "calls_ok s \<Longrightarrow> calls_ok (on_line E line s)"
  unfolding on_line_def
  by (auto simp: take_pending_def hm_take_def calls_ok_answered split: sum.split frame.split option.split)
    (simp_all add: calls_ok_def)

interpretation server_machine: machine "server_step E" calls_ok
proof
  fix s op assume "calls_ok s"
  then show "calls_ok (server_step E s op)"
    by (cases op)
      (simp_all add: calls_ok_request calls_ok_line calls_ok_fail notify_server_def answer_server_def
        shutdown_server_def)
qed

lemma server_run_ok: "calls_ok s \<Longrightarrow> calls_ok (server_run E s ops)"
  unfolding server_run_def by (rule server_machine.run_inv)

text \<open>
  C27: Every call made to a server is answered at most once, and is waiting exactly as long as
  it is not: a reply is never lost, duplicated or given to a call that was not made.
\<close>

theorem each_call_is_answered_once:
  "let s = server_run E (spawn_server name) ops in
     distinct (map fst (srv_replies s) @ map snd (srv_pending s)) \<and>
     set (map fst (srv_replies s)) \<union> set (map snd (srv_pending s)) = {..<srv_calls s}"
proof -
  let ?s = "server_run E (spawn_server name) ops"
  have "mset (map fst (srv_replies ?s) @ map snd (srv_pending ?s)) = mset [0..<srv_calls ?s]"
    using server_run_ok [OF calls_ok_new(2), of E name ops] by (simp add: calls_ok_def union_commute)
  then have "distinct (map fst (srv_replies ?s) @ map snd (srv_pending ?s))"
    and "set (map fst (srv_replies ?s) @ map snd (srv_pending ?s)) = set [0..<srv_calls ?s]"
    by (metis distinct_upt mset_eq_imp_distinct_iff, metis mset_eq_setD)
  then show ?thesis by (simp add: Let_def atLeast0LessThan)
qed

section \<open>Every answer is the server's own\<close>

text \<open>Ids count up with the calls, and a call waits under the id it was sent with.\<close>

definition id_of_call :: "nat \<Rightarrow> request_id" where
  "id_of_call n = IdNumber (word_of_nat (Suc n))"

definition ids_ok :: "mcp_server \<Rightarrow> bool" where
  "ids_ok s \<longleftrightarrow> srv_next s = word_of_nat (Suc (srv_calls s)) \<and>
     (\<forall>i n. hm_get (srv_pending s) i = Some n \<longrightarrow> i = id_of_call n \<and> n < srv_calls s)"

lemma ids_ok_same:
  "ids_ok s \<Longrightarrow> srv_next t = srv_next s \<Longrightarrow> srv_calls t = srv_calls s \<Longrightarrow>
     (\<And>i n. hm_get (srv_pending t) i = Some n \<Longrightarrow> hm_get (srv_pending s) i = Some n) \<Longrightarrow> ids_ok t"
  unfolding ids_ok_def by metis

lemma ids_ok_request: "ids_ok s \<Longrightarrow> ids_ok (snd (request_server E m p s))"
  by (auto simp: ids_ok_def request_server_def register_call_def tell_def send_to_server_def id_of_call_def
      take_pending_def hm_take_def case_prod_beta Let_def less_Suc_eq split: option.splits if_splits)

lemma on_line_cases:
  assumes "\<not> (\<exists>i payload n. parse E line = Inr (Response i payload) \<and> hm_get (srv_pending s) i = Some n)"
  shows "\<exists>evs. on_line E line s = s\<lparr>srv_events := evs\<rparr>"
proof -
  have "on_line E line s = s \<or> (\<exists>evs. on_line E line s = s\<lparr>srv_events := evs\<rparr>)"
    using assms
    by (auto simp: on_line_def take_pending_def hm_take_def split: sum.split frame.split option.split)
  moreover have "s = s\<lparr>srv_events := srv_events s\<rparr>" by simp
  ultimately show ?thesis by metis
qed

lemma on_line_answer:
  "parse E line = Inr (Response i payload) \<Longrightarrow> hm_get (srv_pending s) i = Some n \<Longrightarrow>
     on_line E line s = tell n (reply_of payload) (s\<lparr>srv_pending := hm_remove i (srv_pending s)\<rparr>)"
  by (simp add: on_line_def take_pending_def hm_take_def)

lemma ids_ok_line: "ids_ok s \<Longrightarrow> ids_ok (on_line E line s)"
proof (cases "\<exists>i payload n. parse E line = Inr (Response i payload) \<and> hm_get (srv_pending s) i = Some n")
  case True
  assume "ids_ok s"
  with True show ?thesis by (auto simp: on_line_answer tell_def ids_ok_def split: if_splits)
next
  case False
  assume "ids_ok s"
  moreover from on_line_cases [OF False] obtain evs where "on_line E line s = s\<lparr>srv_events := evs\<rparr>" ..
  ultimately show ?thesis by (simp add: ids_ok_def)
qed

interpretation server_ids: machine "server_step E" ids_ok
proof
  fix s op assume "ids_ok s"
  then show "ids_ok (server_step E s op)"
    by (cases op)
      (auto simp: ids_ok_request ids_ok_line notify_server_def answer_server_def shutdown_server_def
        fail_everything_pending_def send_to_server_def intro: ids_ok_same)
qed

lemma ids_ok_run: "ids_ok (server_run E (spawn_server name) ops)"
  unfolding server_run_def
  by (rule server_ids.run_inv) (simp add: ids_ok_def spawn_server_def over_streams_def)

text \<open>The replies a step adds: what the server said of a call that waited, or that it is gone.\<close>

lemma request_replies:
  "(n, Inr r) \<in> set (srv_replies (snd (request_server E m p s))) \<Longrightarrow> (n, Inr r) \<in> set (srv_replies s)"
  by (auto simp: request_server_def register_call_def tell_def send_to_server_def take_pending_def
      hm_take_def case_prod_beta Let_def split: option.splits if_splits)

lemma step_replies:
  assumes "(n, Inr r) \<in> set (srv_replies (server_step E s op))" and "(n, Inr r) \<notin> set (srv_replies s)"
  shows "\<exists>line i. op = ServerLine line \<and> parse E line = Inr (Response i (Result r)) \<and>
    hm_get (srv_pending s) i = Some n"
proof (cases op)
  case (ServerLine line)
  show ?thesis
  proof (cases "\<exists>i payload k. parse E line = Inr (Response i payload) \<and> hm_get (srv_pending s) i = Some k")
    case True
    then obtain i payload k where p: "parse E line = Inr (Response i payload)" "hm_get (srv_pending s) i = Some k"
      by blast
    with assms ServerLine have "k = n" "reply_of payload = Inr r"
      by (simp_all add: on_line_answer tell_def)
    moreover from this have "payload = Result r" by (cases payload) simp_all
    ultimately show ?thesis using p ServerLine by blast
  next
    case False
    from on_line_cases [OF this] assms ServerLine show ?thesis by auto
  qed
next
  case (Call m p)
  with assms show ?thesis by (auto dest: request_replies)
qed (use assms in
    \<open>auto simp: notify_server_def answer_server_def shutdown_server_def fail_everything_pending_def
      send_to_server_def split: if_splits\<close>)

text \<open>
  What a call is given as a result is what the server answered to it: a line of the
  server's output after the call was made, with the call's own id and that result.
\<close>

theorem replies_are_the_servers:
  assumes "(n, Inr r) \<in> set (srv_replies (server_run E (spawn_server name) ops))"
  shows "\<exists>before line after. ops = before @ ServerLine line # after \<and>
    n < srv_calls (server_run E (spawn_server name) before) \<and>
    parse E line = Inr (Response (id_of_call n) (Result r))"
  using assms
proof (induction ops rule: rev_induct)
  case Nil
  then show ?case by (simp add: spawn_server_def over_streams_def)
next
  case (snoc op ops)
  let ?s = "server_run E (spawn_server name) ops"
  show ?case
  proof (cases "(n, Inr r) \<in> set (srv_replies ?s)")
    case True
    from snoc.IH [OF this] obtain before line after where
      "ops = before @ ServerLine line # after" "n < srv_calls (server_run E (spawn_server name) before)"
      "parse E line = Inr (Response (id_of_call n) (Result r))" by blast
    then have "ops @ [op] = before @ ServerLine line # (after @ [op])" by simp
    with \<open>n < _\<close> \<open>parse E line = _\<close> show ?thesis by blast
  next
    case False
    from snoc.prems have "(n, Inr r) \<in> set (srv_replies (server_step E ?s op))" by simp
    from step_replies [OF this False] obtain line i where
      line: "op = ServerLine line" "parse E line = Inr (Response i (Result r))" "hm_get (srv_pending ?s) i = Some n"
      by blast
    with ids_ok_run [of E name ops] have "i = id_of_call n" "n < srv_calls ?s"
      by (auto simp: ids_ok_def)
    with line show ?thesis by blast
  qed
qed

theorem replies_are_the_servers_witness:
  "let E = toy_serde [(''a'', no_fields\<lparr>w_id := Some (IdNumber 1), w_result := Some (Some ''4'')\<rparr>)];
       ops = [Call ''add'' None, ServerLine ''a'']
   in (0, Inr ''4'') \<in> set (srv_replies (server_run E (spawn_server ''calc'') ops)) \<and>
      (\<exists>before line after. ops = before @ ServerLine line # after \<and>
        parse E line = Inr (Response (IdNumber 1) (Result ''4'')))"
proof -
  let ?E = "toy_serde [(''a'', no_fields\<lparr>w_id := Some (IdNumber 1), w_result := Some (Some ''4'')\<rparr>)]"
  let ?ops = "[Call ''add'' None, ServerLine ''a'']"
  have "(0, Inr ''4'') \<in> set (srv_replies (server_run ?E (spawn_server ''calc'') ?ops))"
    by (simp add: request_server_def register_call_def send_to_server_def spawn_server_def over_streams_def
        on_line_def parse_def parse_wire_def toy_serde_def no_fields_def take_pending_def hm_take_def tell_def)
  moreover from replies_are_the_servers [OF this]
  have "\<exists>before line after. ?ops = before @ ServerLine line # after \<and>
      parse ?E line = Inr (Response (IdNumber 1) (Result ''4''))"
    by (auto simp: id_of_call_def)
  ultimately show ?thesis by (simp only: Let_def simp_thms)
qed

section \<open>A call after the end\<close>

fun after_the_end :: "server_op \<Rightarrow> bool" where
  "after_the_end (ServerLine line) \<longleftrightarrow> False"
| "after_the_end OutputClosed \<longleftrightarrow> False"
| "after_the_end ShutdownServer \<longleftrightarrow> False"
| "after_the_end _ \<longleftrightarrow> True"

lemma id_of_call_inject: "n < k \<Longrightarrow> k < n + 2 ^ 64 \<Longrightarrow> id_of_call n \<noteq> id_of_call k"
proof
  assume "n < k" "k < n + 2 ^ 64" and "id_of_call n = id_of_call k"
  then have "(word_of_nat (k - n) :: 64 word) = 0"
    by (simp add: id_of_call_def of_nat_diff)
  then have "2 ^ 64 dvd k - n" by (simp add: word_of_nat_eq_0_iff)
  with \<open>n < k\<close> \<open>k < n + 2 ^ 64\<close> show False by (auto dest: dvd_imp_le)
qed

lemma waiting_step:
  assumes "after_the_end op" and "hm_get (srv_pending s) (id_of_call n) = Some n" and "ids_ok s"
    and "srv_calls s < n + 2 ^ 64"
  shows "hm_get (srv_pending (server_step E s op)) (id_of_call n) = Some n"
proof (cases op)
  case (Call m p)
  have "n < srv_calls s" using assms(2,3) by (simp add: ids_ok_def)
  from id_of_call_inject [OF this assms(4)] have "id_of_call n \<noteq> IdNumber (srv_next s)"
    using assms(3) by (simp add: ids_ok_def id_of_call_def)
  with assms(2) Call show ?thesis
    by (auto simp: request_server_def register_call_def tell_def send_to_server_def take_pending_def
        hm_take_def case_prod_beta Let_def split: option.splits if_splits)
qed (use assms in \<open>auto simp: notify_server_def answer_server_def send_to_server_def\<close>)

lemma calls_step: "srv_calls (server_step E s op) \<le> Suc (srv_calls s)"
proof (cases op)
  case (ServerLine line)
  then show ?thesis
    by (auto simp: on_line_def take_pending_def hm_take_def tell_def split: sum.split frame.split option.split)
qed (auto simp: request_server_def register_call_def tell_def send_to_server_def take_pending_def hm_take_def
    notify_server_def answer_server_def shutdown_server_def fail_everything_pending_def case_prod_beta Let_def
    split: option.splits)

lemma waiting_run:
  "\<forall>op \<in> set ops. after_the_end op \<Longrightarrow> hm_get (srv_pending s) (id_of_call n) = Some n \<Longrightarrow> ids_ok s \<Longrightarrow>
     srv_calls s + length ops < n + 2 ^ 64 \<Longrightarrow>
     hm_get (srv_pending (server_run E s ops)) (id_of_call n) = Some n"
proof (induction ops arbitrary: s)
  case (Cons op ops)
  have "hm_get (srv_pending (server_step E s op)) (id_of_call n) = Some n"
    using Cons.prems by (intro waiting_step) simp_all
  moreover have "ids_ok (server_step E s op)" using Cons.prems(3) by (rule server_ids.step_inv)
  moreover have "srv_calls (server_step E s op) + length ops < n + 2 ^ 64"
    using calls_step [of E s op] Cons.prems(4) by simp
  ultimately show ?case using Cons.IH Cons.prems(1) by simp
qed simp

text \<open>
  The end of the server's output settles every call that waits at that moment, and none
  that comes later: a call made after it, while the writer task has not yet noticed, waits for as
  long as nobody shuts the server down, whatever else its owner does.
\<close>

theorem late_calls_wait_forever:
  fixes E :: "('a) serde_scheme" and name :: string and before :: "server_op list"
  defines "ended \<equiv> server_run E (spawn_server name) (before @ [OutputClosed])"
  assumes "srv_writable ended" and "\<forall>op \<in> set after. after_the_end op" and "length after < 2 ^ 64 - 1"
  shows "srv_pending ended = [] \<and>
    srv_calls ended \<in> set (map snd (srv_pending (server_run E ended (Call m p # after))))"
proof -
  let ?s = "ended" and ?n = "srv_calls ended"
  have ok: "ids_ok ?s" unfolding ended_def by (rule ids_ok_run)
  have empty: "srv_pending ?s = []" by (simp add: ended_def fail_everything_pending_def)
  have called: "hm_get (srv_pending (server_step E ?s (Call m p))) (id_of_call ?n) = Some ?n"
    using ok assms(2)
    by (simp add: request_server_def register_call_def send_to_server_def empty id_of_call_def ids_ok_def Let_def)
  have "hm_get (srv_pending (server_run E (server_step E ?s (Call m p)) after)) (id_of_call ?n) = Some ?n"
  proof (rule waiting_run [OF assms(3) called server_ids.step_inv [OF ok]])
    show "srv_calls (server_step E ?s (Call m p)) + length after < ?n + 2 ^ 64"
      using calls_step [of E ?s "Call m p"] assms(4) by simp
  qed
  then have "(id_of_call ?n, ?n) \<in> set (srv_pending (server_run E ?s (Call m p # after)))"
    by (simp add: map_of_SomeD)
  then have "?n \<in> snd ` set (srv_pending (server_run E ?s (Call m p # after)))" by force
  with empty show ?thesis by simp
qed

theorem late_calls_wait_forever_witness:
  "let s = server_run (toy_serde []) (spawn_server ''calc'') [OutputClosed]
   in srv_calls s \<in> set (map snd (srv_pending (server_run (toy_serde []) s [Call ''add'' None, WriterGone])))"
  using late_calls_wait_forever [where E = "toy_serde []" and name = "''calc''" and before = "[]" and
      after = "[WriterGone]" and m = "''add''" and p = None]
  by (simp add: spawn_server_def over_streams_def fail_everything_pending_def)

end
