(* ===== verification/Mcp_Host.thy ===== *)
theory Mcp_Host
  imports Mcp_Server Mcp Id_Bridge
begin

text \<open>
  \<open>crates/mjx-acp-server/src/mcp_host.rs\<close>: the MCP servers this process holds for the
  agent. A server is shared between the map of live connections, the task that carries its
  events and the table of questions put to the agent, so servers are cells, each with the
  id of its connection, and the maps hold their numbers. Reading a \<open>ConnectMcpRequest\<close>
  is the schema crate's and starting the process the system's: both are fields of
  \<open>host_env\<close>. \<open>message\<close> awaits the server's answer: it is two definitions, one up to the
  wait and one after it.
\<close>

section \<open>State\<close>

record host_env =
  de_connect :: "json \<Rightarrow> json_error + string"
  spawn_mcp :: "mcp_launch \<Rightarrow> path \<Rightarrow> string + unit"

record mcp_host =
  h_configured :: "(string, mcp_launch) hmap"
  h_cwd :: path
  h_live :: "(string, nat) hmap"
  h_servers :: "(string \<times> mcp_server) list"
  h_awaiting :: "(request_id, nat \<times> request_id) hmap"
  h_next :: "64 word"

definition AGENT_ID_PREFIX :: string where
  "AGENT_ID_PREFIX = ''mjx-mcp-''"

fun hosted_launch :: "mcp_server_config \<Rightarrow> (string \<times> mcp_launch) option" where
  "hosted_launch s =
     (if ms_unavailable s \<noteq> None then None
      else case ms_kind s of McpAcp launch \<Rightarrow> Some (ms_name s, launch) | _ \<Rightarrow> None)"

declare hosted_launch.simps [simp del]

definition new_host :: "mcp_server_config list \<Rightarrow> path \<Rightarrow> mcp_host" where
  "new_host servers cwd =
     \<lparr>h_configured = foldl (\<lambda>m (k, v). hm_insert k v m) [] (List.map_filter hosted_launch servers),
      h_cwd = cwd, h_live = [], h_servers = [], h_awaiting = [], h_next = 1\<rparr>"

definition is_configured :: "mcp_host \<Rightarrow> bool" where
  "is_configured h \<longleftrightarrow> h_configured h \<noteq> []"

definition modify_server :: "nat \<Rightarrow> (mcp_server \<Rightarrow> mcp_server) \<Rightarrow> mcp_host \<Rightarrow> mcp_host" where
  "modify_server n f h =
     h\<lparr>h_servers := (h_servers h)[n := (fst (h_servers h ! n), f (snd (h_servers h ! n)))]\<rparr>"

section \<open>Requests of the agent\<close>

definition no_such_connection :: "string \<Rightarrow> json_rpc_error" where
  "no_such_connection i = invalid_params (''no MCP connection called `'' @ i @ ''` is open'')"

definition connection_named :: "json \<Rightarrow> string" where
  "connection_named params =
     (case as_str (json_index params ''connectionId'') of None \<Rightarrow> [] | Some i \<Rightarrow> i)"

definition find_server :: "json \<Rightarrow> mcp_host \<Rightarrow> json_rpc_error + nat" where
  "find_server params h =
     (case hm_get (h_live h) (connection_named params) of
        None \<Rightarrow> Inl (no_such_connection (connection_named params)) | Some n \<Rightarrow> Inr n)"

definition take_server :: "json \<Rightarrow> mcp_host \<Rightarrow> json_rpc_error + nat \<times> mcp_host" where
  "take_server params h =
     (case hm_get (h_live h) (connection_named params) of
        None \<Rightarrow> Inl (no_such_connection (connection_named params))
      | Some n \<Rightarrow> Inr (n, h\<lparr>h_live := hm_remove (connection_named params) (h_live h)\<rparr>))"

definition connect_server :: "host_env \<Rightarrow> json \<Rightarrow> mcp_host \<Rightarrow> (json_rpc_error + json) \<times> mcp_host" where
  "connect_server H params h =
     (case de_connect H params of
        Inl e \<Rightarrow> (Inl (invalid_params e), h)
      | Inr sid \<Rightarrow>
          (case hm_get (h_configured h) sid of
             None \<Rightarrow> (Inl (invalid_params (''no MCP server called `'' @ sid @ ''` is configured'')), h)
           | Some launch \<Rightarrow>
               (case spawn_mcp H launch (h_cwd h) of
                  Inl e \<Rightarrow> (Inl (internal_error e), h)
                | Inr _ \<Rightarrow>
                    let i = ''mcp-'' @ dec (unat (h_next h))
                    in (Inr (JObject [(''connectionId'', JString i)]),
                        h\<lparr>h_next := h_next h + 1,
                          h_live := hm_insert i (length (h_servers h)) (h_live h),
                          h_servers := h_servers h @ [(i, spawn_server sid)]\<rparr>))))"

definition disconnect_server :: "json \<Rightarrow> mcp_host \<Rightarrow> (json_rpc_error + json) \<times> mcp_host" where
  "disconnect_server params h =
     (case take_server params h of
        Inl e \<Rightarrow> (Inl e, h)
      | Inr (n, h1) \<Rightarrow> (Inr (JObject []), modify_server n shutdown_server h1))"

definition inner_params :: "('a) serde_scheme \<Rightarrow> json \<Rightarrow> raw option" where
  "inner_params E params =
     (case json_index params ''params'' of
        JNull \<Rightarrow> None
      | inner \<Rightarrow> (case ser_value E inner of Inl _ \<Rightarrow> None | Inr r \<Rightarrow> Some r))"

text \<open>\<open>message\<close> up to the wait: the server called and the number of the call.\<close>

definition begin_message ::
  "('a) serde_scheme \<Rightarrow> json \<Rightarrow> mcp_host \<Rightarrow> (json_rpc_error + nat \<times> nat) \<times> mcp_host" where
  "begin_message E params h =
     (case find_server params h of
        Inl e \<Rightarrow> (Inl e, h)
      | Inr n \<Rightarrow>
          (case as_str (json_index params ''method'') of
             None \<Rightarrow> (Inl (invalid_params ''`method` is required''), h)
           | Some m \<Rightarrow>
               (Inr (n, fst (request_server E m (inner_params E params) (snd (h_servers h ! n)))),
                modify_server n (\<lambda>s. snd (request_server E m (inner_params E params) s)) h)))"

text \<open>What it answers once the call has been told its reply.\<close>

definition end_message :: "('a) serde_scheme \<Rightarrow> mcp_reply \<Rightarrow> json_rpc_error + json" where
  "end_message E reply =
     (case reply of
        Inl e \<Rightarrow> Inl e
      | Inr r \<Rightarrow>
          (case de_value E r of
             Inl e \<Rightarrow> Inl (internal_error (''the MCP server answered unreadable JSON: '' @ e))
           | Inr v \<Rightarrow> Inr v))"

definition reply_to :: "nat \<Rightarrow> nat \<Rightarrow> mcp_host \<Rightarrow> mcp_reply option" where
  "reply_to n call h = map_of (srv_replies (snd (h_servers h ! n))) call"

definition host_notify :: "('a) serde_scheme \<Rightarrow> json \<Rightarrow> mcp_host \<Rightarrow> mcp_host" where
  "host_notify E params h =
     (case find_server params h of
        Inl _ \<Rightarrow> h
      | Inr n \<Rightarrow>
          (case as_str (json_index params ''method'') of
             None \<Rightarrow> h
           | Some m \<Rightarrow> modify_server n (notify_server E m (inner_params E params)) h))"

section \<open>What a server says unprompted\<close>

definition envelope :: "('a) serde_scheme \<Rightarrow> string \<Rightarrow> string \<Rightarrow> raw option \<Rightarrow> json" where
  "envelope E i m p = JObject
     ([(''connectionId'', JString i), (''method'', JString m)] @
      (case p of
         None \<Rightarrow> []
       | Some r \<Rightarrow>
           (case de_value E r of
              Inl _ \<Rightarrow> [] | Inr v \<Rightarrow> if v = JNull then [] else [(''params'', v)])))"

fun event_to_agent ::
  "('a) serde_scheme \<Rightarrow> nat \<Rightarrow> from_server \<Rightarrow> mcp_host \<Rightarrow> frame list \<times> mcp_host" where
  "event_to_agent E n (ServerNotification m p) h =
     (case notification MCP_MESSAGE (ser_value E (envelope E (fst (h_servers h ! n)) m p)) of
        Inl _ \<Rightarrow> ([], h) | Inr f \<Rightarrow> ([f], h))"
| "event_to_agent E n (ServerRequest sid m p) h =
     (let i = IdString (AGENT_ID_PREFIX @ dec (unat (h_next h)))
      in ([Request i MCP_MESSAGE
             (case ser_value E (envelope E (fst (h_servers h ! n)) m p) of Inl _ \<Rightarrow> None | Inr r \<Rightarrow> Some r)],
          h\<lparr>h_next := h_next h + 1, h_awaiting := hm_insert i (n, sid) (h_awaiting h)\<rparr>))"

text \<open>One turn of the task that carries a server's events: the oldest one, if there is one.\<close>

definition carry_event :: "('a) serde_scheme \<Rightarrow> nat \<Rightarrow> mcp_host \<Rightarrow> frame list \<times> mcp_host" where
  "carry_event E n h =
     (case srv_events (snd (h_servers h ! n)) of
        [] \<Rightarrow> ([], h)
      | ev # rest \<Rightarrow> event_to_agent E n ev (modify_server n (\<lambda>s. s\<lparr>srv_events := rest\<rparr>) h))"

section \<open>Answers of the agent\<close>

definition claim_response ::
  "('a) serde_scheme \<Rightarrow> request_id \<Rightarrow> response_payload \<Rightarrow> mcp_host \<Rightarrow> bool \<times> mcp_host" where
  "claim_response E i payload h =
     (case i of
        IdString t \<Rightarrow>
          if \<not> starts_with t AGENT_ID_PREFIX then (False, h)
          else (case hm_take i (h_awaiting h) of
                  (None, _) \<Rightarrow> (True, h)
                | (Some (n, sid), m) \<Rightarrow>
                    (True, modify_server n (answer_server E sid (reply_of payload)) (h\<lparr>h_awaiting := m\<rparr>)))
      | _ \<Rightarrow> (False, h))"

definition shutdown_hosted :: "mcp_host \<Rightarrow> mcp_host" where
  "shutdown_hosted h =
     foldl (\<lambda>h n. modify_server n shutdown_server h) (h\<lparr>h_live := []\<rparr>) (map snd (h_live h))"

section \<open>Runs\<close>

text \<open>
  What happens to a host: the agent's requests, messages and answers, what a hosted
  server's tasks do to it, its events being carried to the agent, and the end.
\<close>

datatype host_op =
    Connect json
  | Disconnect json
  | Message json
  | HostNotify json
  | AtServer nat server_op
  | Carry nat
  | Claim request_id response_payload
  | ShutdownHost

fun host_step :: "('a) serde_scheme \<Rightarrow> host_env \<Rightarrow> mcp_host \<Rightarrow> host_op \<Rightarrow> mcp_host" where
  "host_step E H h (Connect p) = snd (connect_server H p h)"
| "host_step E H h (Disconnect p) = snd (disconnect_server p h)"
| "host_step E H h (Message p) = snd (begin_message E p h)"
| "host_step E H h (HostNotify p) = host_notify E p h"
| "host_step E H h (AtServer n op) =
     (if n < length (h_servers h) then modify_server n (\<lambda>s. server_step E s op) h else h)"
| "host_step E H h (Carry n) = (if n < length (h_servers h) then snd (carry_event E n h) else h)"
| "host_step E H h (Claim i payload) = snd (claim_response E i payload h)"
| "host_step E H h ShutdownHost = shutdown_hosted h"

definition host_run :: "('a) serde_scheme \<Rightarrow> host_env \<Rightarrow> mcp_host \<Rightarrow> host_op list \<Rightarrow> mcp_host" where
  "host_run E H h ops = foldl (host_step E H) h ops"

lemma host_run_simps [simp]:
  "host_run E H h [] = h" "host_run E H h (op # ops) = host_run E H (host_step E H h op) ops"
  "host_run E H h (xs @ ys) = host_run E H (host_run E H h xs) ys"
  by (simp_all add: host_run_def)

lemma modify_server_simps [simp]:
  "h_configured (modify_server n f h) = h_configured h" "h_cwd (modify_server n f h) = h_cwd h"
  "h_live (modify_server n f h) = h_live h" "h_awaiting (modify_server n f h) = h_awaiting h"
  "h_next (modify_server n f h) = h_next h"
  "map fst (h_servers (modify_server n f h)) = map fst (h_servers h)"
  "length (h_servers (modify_server n f h)) = length (h_servers h)"
proof -
  have "map fst ((h_servers h)[n := (fst (h_servers h ! n), s)]) = map fst (h_servers h)" for s
    by (cases "n < length (h_servers h)") (auto intro!: nth_equalityI simp: nth_list_update)
  then show "map fst (h_servers (modify_server n f h)) = map fst (h_servers h)"
    by (simp add: modify_server_def)
qed (simp_all add: modify_server_def)

lemma modify_server_nth:
  "m < length (h_servers h) \<Longrightarrow> h_servers (modify_server n f h) ! m =
     (if m = n then (fst (h_servers h ! m), f (snd (h_servers h ! m))) else h_servers h ! m)"
  by (simp add: modify_server_def nth_list_update)

lemma shutdown_hosted_simps [simp]:
  "h_configured (shutdown_hosted h) = h_configured h" "h_cwd (shutdown_hosted h) = h_cwd h"
  "h_live (shutdown_hosted h) = []" "h_awaiting (shutdown_hosted h) = h_awaiting h"
  "h_next (shutdown_hosted h) = h_next h" "map fst (h_servers (shutdown_hosted h)) = map fst (h_servers h)"
proof -
  have "h_configured (foldl (\<lambda>h n. modify_server n shutdown_server h) g ns) = h_configured g \<and>
      h_cwd (foldl (\<lambda>h n. modify_server n shutdown_server h) g ns) = h_cwd g \<and>
      h_live (foldl (\<lambda>h n. modify_server n shutdown_server h) g ns) = h_live g \<and>
      h_awaiting (foldl (\<lambda>h n. modify_server n shutdown_server h) g ns) = h_awaiting g \<and>
      h_next (foldl (\<lambda>h n. modify_server n shutdown_server h) g ns) = h_next g \<and>
      map fst (h_servers (foldl (\<lambda>h n. modify_server n shutdown_server h) g ns)) = map fst (h_servers g)"
    for g ns by (induction ns arbitrary: g) simp_all
  from this [of "h\<lparr>h_live := []\<rparr>" "map snd (h_live h)"]
  show "h_configured (shutdown_hosted h) = h_configured h" "h_cwd (shutdown_hosted h) = h_cwd h"
    "h_live (shutdown_hosted h) = []" "h_awaiting (shutdown_hosted h) = h_awaiting h"
    "h_next (shutdown_hosted h) = h_next h" "map fst (h_servers (shutdown_hosted h)) = map fst (h_servers h)"
    by (simp_all add: shutdown_hosted_def)
qed

section \<open>Only what was offered is started\<close>

lemma step_configured [simp]:
  "h_configured (host_step E H h op) = h_configured h \<and> h_cwd (host_step E H h op) = h_cwd h"
proof (cases op)
  case (Carry n)
  have "h_configured (snd (event_to_agent E n ev g)) = h_configured g \<and>
      h_cwd (snd (event_to_agent E n ev g)) = h_cwd g" for ev g
    by (cases ev) (auto simp: Let_def split: sum.split)
  with Carry show ?thesis by (simp add: carry_event_def split: list.split)
qed (auto simp: connect_server_def disconnect_server_def take_server_def begin_message_def host_notify_def
    claim_response_def hm_take_def Let_def split: sum.split option.split request_id.split)

text \<open>The names of the hosted servers, and that a step keeps them or adds a configured one.\<close>

definition hosted_names :: "mcp_host \<Rightarrow> string list" where
  "hosted_names h = map (\<lambda>(i, s). srv_name s) (h_servers h)"

lemma server_step_name [simp]: "srv_name (server_step E s op) = srv_name s"
proof (cases op)
  case (ServerLine line)
  then show ?thesis
    by (auto simp: on_line_def take_pending_def tell_def hm_take_def split: sum.split frame.split option.split)
qed (auto simp: request_server_def register_call_def tell_def send_to_server_def take_pending_def hm_take_def
    notify_server_def answer_server_def shutdown_server_def fail_everything_pending_def case_prod_beta Let_def
    split: option.split)

lemma modify_server_names:
  assumes "\<And>s. srv_name (f s) = srv_name s"
  shows "hosted_names (modify_server n f h) = hosted_names h"
  unfolding hosted_names_def
  by (rule nth_equalityI) (auto simp: modify_server_nth assms case_prod_beta)

lemma names_server_ops:
  "hosted_names (modify_server n (\<lambda>s. server_step E s op) h) = hosted_names h"
  "hosted_names (modify_server n shutdown_server h) = hosted_names h"
  "hosted_names (modify_server n (\<lambda>s. snd (request_server E m p s)) h) = hosted_names h"
  "hosted_names (modify_server n (notify_server E m p) h) = hosted_names h"
  "hosted_names (modify_server n (answer_server E i r) h) = hosted_names h"
  "hosted_names (modify_server n (\<lambda>s. s\<lparr>srv_events := evs\<rparr>) h) = hosted_names h"
  using server_step_name [of E _ op] server_step_name [of E _ ShutdownServer]
    server_step_name [of E _ "Call m p"] server_step_name [of E _ "Tell m p"]
    server_step_name [of E _ "Answer i r"]
  by (auto intro!: modify_server_names)

lemma hosted_names_same [simp]:
  "hosted_names (h\<lparr>h_live := l\<rparr>) = hosted_names h" "hosted_names (h\<lparr>h_awaiting := a\<rparr>) = hosted_names h"
  by (simp_all add: hosted_names_def)

lemma names_shutdown: "hosted_names (shutdown_hosted h) = hosted_names h"
proof -
  have "hosted_names (foldl (\<lambda>h n. modify_server n shutdown_server h) g ns) = hosted_names g" for g ns
    by (induction ns arbitrary: g) (simp_all add: names_server_ops)
  then show ?thesis by (simp add: shutdown_hosted_def)
qed

lemma names_event: "hosted_names (snd (event_to_agent E n ev h)) = hosted_names h"
  by (cases ev) (auto simp: Let_def hosted_names_def split: sum.split)

lemma step_names:
  "hosted_names (host_step E H h op) = hosted_names h \<or>
   (\<exists>sid launch. hm_get (h_configured h) sid = Some launch \<and> spawn_mcp H launch (h_cwd h) = Inr () \<and>
      hosted_names (host_step E H h op) = hosted_names h @ [sid])"
proof (cases op)
  case (Connect p)
  have "srv_name (spawn_server sid) = sid" for sid by (simp add: spawn_server_def over_streams_def)
  with Connect show ?thesis
    by (auto simp: connect_server_def hosted_names_def Let_def split: sum.split option.split)
qed (auto simp: disconnect_server_def take_server_def begin_message_def host_notify_def claim_response_def
    hm_take_def carry_event_def names_server_ops names_shutdown names_event
    split: sum.split option.split request_id.split list.split)

lemma configured_new:
  assumes "hm_get (h_configured (new_host servers cwd)) sid = Some launch"
  shows "\<exists>s \<in> set servers. ms_name s = sid \<and> ms_unavailable s = None \<and> ms_kind s = McpAcp launch"
proof -
  have "hm_get (foldl (\<lambda>m (k, v). hm_insert k v m) m kvs) sid = Some launch \<Longrightarrow>
      hm_get m sid = Some launch \<or> (sid, launch) \<in> set kvs" for m and kvs :: "(string \<times> mcp_launch) list"
  proof (induction kvs arbitrary: m)
    case (Cons kv kvs)
    obtain k v where "kv = (k, v)" by (cases kv)
    with Cons.IH [of "hm_insert k v m"] Cons.prems show ?case by (auto split: if_splits)
  qed simp
  from this [of "[]" "List.map_filter hosted_launch servers"] assms
  have "(sid, launch) \<in> set (List.map_filter hosted_launch servers)" by (simp add: new_host_def)
  then obtain s where "s \<in> set servers" "hosted_launch s = Some (sid, launch)"
    by (induction servers) (auto simp: List.map_filter_simps split: option.splits)
  then show ?thesis by (auto simp: hosted_launch.simps split: if_splits mcp_kind.splits)
qed

text \<open>
  The only processes ever started are those of servers configured to be hosted here whose
  credentials are there: whatever the agent asks for, every hosted server is one of them, under
  its own name, started by its own command in the session's directory.
\<close>

theorem only_offered_servers_are_started:
  "list_all (\<lambda>name. list_ex (\<lambda>s. ms_name s = name \<and> ms_unavailable s = None \<and>
       (case ms_kind s of McpAcp launch \<Rightarrow> spawn_mcp H launch cwd = Inr () | _ \<Rightarrow> False)) servers)
     (hosted_names (host_run E H (new_host servers cwd) ops))"
proof (induction ops rule: rev_induct)
  case Nil
  then show ?case by (simp add: new_host_def hosted_names_def)
next
  case (snoc op ops)
  let ?h = "host_run E H (new_host servers cwd) ops"
  have conf: "h_configured ?h = h_configured (new_host servers cwd) \<and> h_cwd ?h = cwd"
    by (induction ops rule: rev_induct) (simp_all add: new_host_def)
  have run: "host_run E H (new_host servers cwd) (ops @ [op]) = host_step E H ?h op" by simp
  from step_names [of E H ?h op] show ?case
  proof
    assume "hosted_names (host_step E H ?h op) = hosted_names ?h"
    with snoc show ?thesis by (simp only: run)
  next
    assume "\<exists>sid launch. hm_get (h_configured ?h) sid = Some launch \<and> spawn_mcp H launch (h_cwd ?h) = Inr () \<and>
      hosted_names (host_step E H ?h op) = hosted_names ?h @ [sid]"
    then obtain sid launch where new: "hm_get (h_configured (new_host servers cwd)) sid = Some launch"
      "spawn_mcp H launch cwd = Inr ()" "hosted_names (host_step E H ?h op) = hosted_names ?h @ [sid]"
      using conf by auto
    from configured_new [OF new(1)] new(2)
    have "list_ex (\<lambda>s. ms_name s = sid \<and> ms_unavailable s = None \<and>
       (case ms_kind s of McpAcp launch \<Rightarrow> spawn_mcp H launch cwd = Inr () | _ \<Rightarrow> False)) servers"
      by (force simp: list_ex_iff)
    with snoc show ?thesis unfolding run new(3) by simp
  qed
qed

section \<open>Connections are apart, and gone for good\<close>

text \<open>
  Connections and questions are named off one counter. \<open>host_ok k h\<close>: after \<open>k\<close> names, every
  connection and every question still open bears one of them, and the maps agree with the
  cells.
\<close>

definition connection_id :: "nat \<Rightarrow> string" where
  "connection_id j = ''mcp-'' @ dec (Suc j)"

definition agent_id :: "nat \<Rightarrow> request_id" where
  "agent_id j = IdString (AGENT_ID_PREFIX @ dec (Suc j))"

lemma host_ids_inject [simp]:
  "connection_id i = connection_id j \<longleftrightarrow> i = j" "agent_id i = agent_id j \<longleftrightarrow> i = j"
  by (simp_all add: connection_id_def agent_id_def)

definition named_below :: "nat \<Rightarrow> (request_id, 'v) hmap \<Rightarrow> bool" where
  "named_below k m \<longleftrightarrow> (\<forall>i v. hm_get m i = Some v \<longrightarrow> (\<exists>j < k. i = agent_id j))"

lemma named_below_simps [simp, intro]:
  "named_below k []" "named_below k m \<Longrightarrow> named_below (Suc k) m"
  "named_below k m \<Longrightarrow> named_below (Suc k) (hm_insert (agent_id k) v m)"
  by (simp_all add: named_below_def less_Suc_eq) (metis less_irrefl)+

definition host_ok :: "nat \<Rightarrow> mcp_host \<Rightarrow> bool" where
  "host_ok k h \<longleftrightarrow>
     h_next h = word_of_nat (Suc k) \<and>
     distinct (map fst (h_servers h)) \<and> (\<forall>i \<in> set (map fst (h_servers h)). \<exists>j < k. i = connection_id j) \<and>
     (\<forall>i n. hm_get (h_live h) i = Some n \<longrightarrow> n < length (h_servers h) \<and> fst (h_servers h ! n) = i) \<and>
     named_below k (h_awaiting h)"

lemma unat_next: "Suc k < 2 ^ 64 \<Longrightarrow> unat (word_of_nat (Suc k) :: 64 word) = Suc k"
  by (simp add: unat_of_nat take_bit_nat_eq_self del: of_nat_Suc)

lemma host_ok_mono:
  assumes "host_ok k h" and "h_next g = h_next h" and "map fst (h_servers g) = map fst (h_servers h)"
    and live: "\<And>i n. hm_get (h_live g) i = Some n \<Longrightarrow> hm_get (h_live h) i = Some n"
    and awaiting: "\<And>i v. hm_get (h_awaiting g) i = Some v \<Longrightarrow> hm_get (h_awaiting h) i = Some v"
  shows "host_ok k g"
proof -
  have len: "length (h_servers g) = length (h_servers h)" using assms(3) by (metis length_map)
  have nth: "fst (h_servers g ! n) = fst (h_servers h ! n)" if "n < length (h_servers h)" for n
    using that assms(3) len by (metis nth_map)
  have "named_below k (h_awaiting g)"
    using assms(1) awaiting unfolding host_ok_def named_below_def by blast
  moreover have "n < length (h_servers g) \<and> fst (h_servers g ! n) = i" if "hm_get (h_live g) i = Some n" for i n
    using live [OF that] assms(1) nth len unfolding host_ok_def by metis
  ultimately show ?thesis using assms(1,2,3) by (simp only: host_ok_def) simp
qed

lemma host_ok_connect:
  assumes "host_ok k h" and "Suc k < 2 ^ 64"
  shows "host_ok k (snd (connect_server H p h)) \<or>
    host_ok (Suc k) (snd (connect_server H p h)) \<and>
    (\<exists>sid. snd (connect_server H p h) = h\<lparr>h_next := h_next h + 1,
       h_live := hm_insert (connection_id k) (length (h_servers h)) (h_live h),
       h_servers := h_servers h @ [(connection_id k, spawn_server sid)]\<rparr>)"
proof -
  have name: "''mcp-'' @ dec (unat (h_next h)) = connection_id k"
    using assms unat_next [OF assms(2)] by (simp add: host_ok_def connection_id_def)
  have "host_ok (Suc k) (h\<lparr>h_next := h_next h + 1,
       h_live := hm_insert (connection_id k) (length (h_servers h)) (h_live h),
       h_servers := h_servers h @ [(connection_id k, spawn_server sid)]\<rparr>)" for sid
    using assms(1) unfolding host_ok_def by (auto simp: nth_append less_Suc_eq)
  with assms(1) show ?thesis
    unfolding connect_server_def Let_def name by (auto split: sum.split option.split)
qed

lemma host_ok_event:
  assumes "host_ok k h" and "Suc k < 2 ^ 64"
  shows "host_ok k (snd (event_to_agent E n ev h)) \<or> host_ok (Suc k) (snd (event_to_agent E n ev h))"
proof (cases ev)
  case (ServerNotification m p)
  with assms(1) show ?thesis by (simp split: sum.split)
next
  case (ServerRequest sid m p)
  have "IdString (AGENT_ID_PREFIX @ dec (unat (h_next h))) = agent_id k"
    using assms unat_next [OF assms(2)] by (simp add: host_ok_def agent_id_def)
  with assms(1) ServerRequest have "host_ok (Suc k) (snd (event_to_agent E n ev h))"
    unfolding host_ok_def by (auto simp: Let_def less_Suc_eq)
  then show ?thesis ..
qed

lemma host_ok_step:
  assumes "host_ok k h" and "Suc k < 2 ^ 64"
  shows "host_ok k (host_step E H h op) \<or> host_ok (Suc k) (host_step E H h op)"
proof -
  have same: "host_ok k g"
    if "h_next g = h_next h" "map fst (h_servers g) = map fst (h_servers h)"
      "\<And>i n. hm_get (h_live g) i = Some n \<Longrightarrow> hm_get (h_live h) i = Some n"
      "\<And>i v. hm_get (h_awaiting g) i = Some v \<Longrightarrow> hm_get (h_awaiting h) i = Some v" for g
    using host_ok_mono [OF assms(1) that] .
  show ?thesis
  proof (cases op)
    case (Connect p)
    with host_ok_connect [OF assms, of H p] show ?thesis by auto
  next
    case (Carry n)
    have "host_ok k (modify_server n f h)" for f by (rule same) simp_all
    from host_ok_event [OF this assms(2)] assms(1) show ?thesis
      by (auto simp: Carry carry_event_def split: list.split)
  next
    case (Disconnect p)
    show ?thesis
      by (rule disjI1, rule same)
        (auto simp: Disconnect disconnect_server_def take_server_def split: option.splits if_splits)
  next
    case (Message p)
    show ?thesis
      by (rule disjI1, rule same) (auto simp: Message begin_message_def split: sum.splits option.splits)
  next
    case (HostNotify p)
    show ?thesis
      by (rule disjI1, rule same) (auto simp: HostNotify host_notify_def split: sum.splits option.splits)
  next
    case (Claim i payload)
    show ?thesis
      by (rule disjI1, rule same)
        (auto simp: Claim claim_response_def hm_take_def split: request_id.splits option.splits if_splits)
  qed (auto intro!: disjI1 same)
qed

text \<open>What holds from one state on, whatever names are given out, holds along a run.\<close>

lemma host_run_induct [consumes 2, case_names Step Start]:
  assumes "host_ok k h" and "k + length ops < 2 ^ 64 - 1"
    and step: "\<And>k h op. host_ok k h \<Longrightarrow> Suc k < 2 ^ 64 \<Longrightarrow> k0 \<le> k \<Longrightarrow> op \<in> set ops \<Longrightarrow> Q h \<Longrightarrow> Q (host_step E H h op)"
    and "k0 \<le> k" and "Q h"
  shows "\<exists>k' \<le> k + length ops. host_ok k' (host_run E H h ops) \<and> Q (host_run E H h ops)"
  using assms
proof (induction ops arbitrary: k h)
  case (Cons op ops)
  have bound: "Suc k < 2 ^ 64" using Cons.prems(2) by simp
  obtain k1 where k1: "k \<le> k1" "k1 \<le> Suc k" "host_ok k1 (host_step E H h op)"
    using host_ok_step [OF Cons.prems(1) bound, of E H op] le_refl [of k] le_SucI by blast
  have q: "Q (host_step E H h op)"
    by (rule Cons.prems(3) [OF Cons.prems(1) bound Cons.prems(4) _ Cons.prems(5)]) simp
  have "k1 + length ops < 2 ^ 64 - 1" using k1(2) Cons.prems(2) by simp
  from Cons.IH [OF k1(3) this _ _ q] Cons.prems(3,4) k1(1)
  obtain k' where "k' \<le> k1 + length ops" "host_ok k' (host_run E H (host_step E H h op) ops)"
    "Q (host_run E H (host_step E H h op) ops)" by auto
  with k1(2) show ?case by (intro exI [of _ k']) simp
qed auto

lemma host_ok_new: "host_ok 0 (new_host servers cwd)"
  by (simp add: host_ok_def new_host_def)

lemma host_ok_run:
  assumes "length ops < 2 ^ 64 - 1"
  shows "\<exists>k. k \<le> length ops \<and> host_ok k (host_run E H (new_host servers cwd) ops)"
proof -
  from assms have "0 + length ops < 2 ^ 64 - 1" by simp
  from host_run_induct [where k0 = 0 and Q = "\<lambda>_. True" and E = E and H = H, 
      OF host_ok_new [of servers cwd] this TrueI order.refl TrueI]
  obtain k where "k \<le> 0 + length ops" "host_ok k (host_run E H (new_host servers cwd) ops)"
    by (elim exE conjE)
  then show ?thesis unfolding add_0 by (intro exI [of _ k] conjI)
qed

lemma find_server_Inr:
  "find_server params h = Inr n \<longleftrightarrow> hm_get (h_live h) (connection_named params) = Some n"
  by (simp add: find_server_def split: option.split)

text \<open>
  A message of the agent reaches the one server whose connection it names and no other: no
  two connections, open or closed, ever had the same id.
\<close>

theorem messages_reach_their_connection:
  fixes E :: "('a) serde_scheme" and H :: host_env and servers :: "mcp_server_config list" and cwd :: path
  assumes "length ops < 2 ^ 64 - 1"
  defines "h \<equiv> host_run E H (new_host servers cwd) ops"
  assumes "find_server params h = Inr n"
  shows "fst (h_servers h ! n) = connection_named params \<and>
    (\<forall>m < length (h_servers h). m \<noteq> n \<longrightarrow>
       fst (h_servers h ! m) \<noteq> connection_named params \<and>
       h_servers (snd (begin_message E params h)) ! m = h_servers h ! m \<and>
       h_servers (host_notify E params h) ! m = h_servers h ! m \<and>
       h_servers (snd (disconnect_server params h)) ! m = h_servers h ! m)"
proof -
  from host_ok_run [OF assms(1)] obtain k where ok: "host_ok k h" unfolding h_def by blast
  have live: "hm_get (h_live h) (connection_named params) = Some n"
    using assms(3) by (simp add: find_server_Inr)
  with ok have n: "n < length (h_servers h)" "fst (h_servers h ! n) = connection_named params"
    by (auto simp: host_ok_def)
  have "fst (h_servers h ! m) \<noteq> connection_named params" if "m < length (h_servers h)" "m \<noteq> n" for m
  proof -
    have "distinct (map fst (h_servers h))" using ok by (simp add: host_ok_def)
    from nth_eq_iff_index_eq [OF this, of m n] that n show ?thesis by simp
  qed
  then show ?thesis
    using n live
    by (auto simp: begin_message_def host_notify_def disconnect_server_def take_server_def find_server_def
        modify_server_def split: option.split)
qed

lemma closed_step:
  assumes "host_ok k h" and "Suc k < 2 ^ 64" and "j < k" and "hm_get (h_live h) (connection_id j) = None"
  shows "hm_get (h_live (host_step E H h op)) (connection_id j) = None"
proof (cases op)
  case (Connect p)
  with host_ok_connect [OF assms(1,2), of H p] assms(3,4) show ?thesis
  proof (cases "\<exists>sid launch. de_connect H p = Inr sid \<and> hm_get (h_configured h) sid = Some launch \<and>
      (\<exists>u. spawn_mcp H launch (h_cwd h) = Inr u)")
    case True
    have "''mcp-'' @ dec (unat (h_next h)) = connection_id k"
      using assms(1) unat_next [OF assms(2)] by (simp add: host_ok_def connection_id_def)
    with True Connect assms(3,4) show ?thesis by (auto simp: connect_server_def Let_def)
  next
    case False
    with Connect assms(4) show ?thesis
      by (auto simp: connect_server_def Let_def split: sum.split option.split)
  qed
next
  case (Carry n)
  have "h_live (snd (event_to_agent E n ev g)) = h_live g" for ev g
    by (cases ev) (auto simp: Let_def split: sum.split)
  with Carry assms(4) show ?thesis by (simp add: carry_event_def split: list.split)
qed (use assms(4) in
    \<open>auto simp: disconnect_server_def take_server_def begin_message_def host_notify_def claim_response_def
      hm_take_def split: sum.split option.split request_id.split\<close>)

text \<open>
  A connection the agent has closed stays closed: whatever happens afterwards, no server
  answers to its id again, and a message for it is refused as unknown.
\<close>

theorem closed_connections_stay_closed:
  fixes E :: "('a) serde_scheme" and H :: host_env and servers :: "mcp_server_config list" and cwd :: path
  assumes "length before + length after < 2 ^ 64 - 2"
  defines "h \<equiv> host_run E H (new_host servers cwd) before"
  assumes "disconnect_server params h = (Inr v, h1)"
  shows "find_server params (host_run E H h1 after) = Inl (no_such_connection (connection_named params))"
proof -
  let ?c = "connection_named params"
  have "length before < 2 ^ 64 - 1" using assms(1) by simp
  from host_ok_run [OF this] obtain k where ok: "host_ok k h" and k: "k \<le> length before"
    unfolding h_def by blast
  from assms(3) obtain n where n: "hm_get (h_live h) ?c = Some n"
    and h1: "h1 = modify_server n shutdown_server (h\<lparr>h_live := hm_remove ?c (h_live h)\<rparr>)"
    by (auto simp: disconnect_server_def take_server_def split: option.splits)
  from ok n have "n < length (h_servers h)" "fst (h_servers h ! n) = ?c"
    by (simp_all add: host_ok_def)
  then have "?c \<in> set (map fst (h_servers h))" by (metis length_map nth_map nth_mem)
  with ok obtain j where j: "j < k" "?c = connection_id j" unfolding host_ok_def by blast
  have ok1: "host_ok k h1" by (rule host_ok_mono [OF ok]) (auto simp: h1 split: if_splits)
  have closed: "hm_get (h_live h1) (connection_id j) = None" using j(2) by (simp add: h1)
  have "k + length after < 2 ^ 64 - 1" using assms(1) k by simp
  from host_run_induct [where k0 = k and Q = "\<lambda>g. hm_get (h_live g) (connection_id j) = None"
      and E = E and H = H, OF ok1 this _ order.refl closed] closed_step j(1)
  have "hm_get (h_live (host_run E H h1 after)) (connection_id j) = None"
    by (metis less_le_trans)
  then show ?thesis using j(2) by (simp add: find_server_def)
qed

section \<open>Answers return to the server that asked\<close>

lemma claim_eq:
  "claim_response E (agent_id j) payload h =
     (case hm_get (h_awaiting h) (agent_id j) of
        None \<Rightarrow> (True, h)
      | Some (n, sid) \<Rightarrow>
          (True, modify_server n (answer_server E sid (reply_of payload))
             (h\<lparr>h_awaiting := hm_remove (agent_id j) (h_awaiting h)\<rparr>)))"
  by (simp add: claim_response_def hm_take_def agent_id_def split: option.split)

lemma claim_awaiting:
  "i \<noteq> j \<Longrightarrow> hm_get (h_awaiting (snd (claim_response E i payload h))) j = hm_get (h_awaiting h) j"
  by (auto simp: claim_response_def hm_take_def split: request_id.split option.split)

lemma event_awaiting:
  assumes "host_ok k h" and "Suc k < 2 ^ 64" and "j < k"
  shows "hm_get (h_awaiting (snd (event_to_agent E n ev h))) (agent_id j) = hm_get (h_awaiting h) (agent_id j)"
proof (cases ev)
  case (ServerRequest sid m p)
  have "IdString (AGENT_ID_PREFIX @ dec (unat (h_next h))) = agent_id k"
    using assms unat_next [OF assms(2)] by (simp add: host_ok_def agent_id_def)
  with ServerRequest assms(3) show ?thesis by (simp add: Let_def)
qed (simp split: sum.split)

lemma awaiting_step:
  assumes "host_ok k h" and "Suc k < 2 ^ 64" and "j < k" and "\<And>payload. op \<noteq> Claim (agent_id j) payload"
  shows "hm_get (h_awaiting (host_step E H h op)) (agent_id j) = hm_get (h_awaiting h) (agent_id j)"
proof (cases op)
  case (Carry n)
  have "host_ok k (modify_server n f h)" for f by (rule host_ok_mono [OF assms(1)]) simp_all
  from event_awaiting [OF this assms(2,3)] show ?thesis
    by (auto simp: Carry carry_event_def split: list.split)
next
  case (Claim i payload)
  with assms(4) have "i \<noteq> agent_id j" by blast
  with Claim show ?thesis by (simp add: claim_awaiting)
qed (auto simp: connect_server_def disconnect_server_def take_server_def begin_message_def host_notify_def
    Let_def split: sum.split option.split)

lemma asked_event:
  assumes "host_ok k h" and "Suc k < 2 ^ 64" and "n < length (h_servers h)"
    and "srv_events (snd (h_servers h ! n)) = ServerRequest sid m p # rest"
  shows "\<exists>q. fst (carry_event E n h) = [Request (agent_id k) MCP_MESSAGE q]"
    and "host_ok (Suc k) (snd (carry_event E n h))"
    and "hm_get (h_awaiting (snd (carry_event E n h))) (agent_id k) = Some (n, sid)"
proof -
  let ?g = "modify_server n (\<lambda>s. s\<lparr>srv_events := rest\<rparr>) h"
  have ok: "host_ok k ?g" by (rule host_ok_mono [OF assms(1)]) simp_all
  have "IdString (AGENT_ID_PREFIX @ dec (unat (h_next ?g))) = agent_id k"
    using ok unat_next [OF assms(2)] by (simp add: host_ok_def agent_id_def)
  then show "\<exists>q. fst (carry_event E n h) = [Request (agent_id k) MCP_MESSAGE q]"
    and "hm_get (h_awaiting (snd (carry_event E n h))) (agent_id k) = Some (n, sid)"
    and "host_ok (Suc k) (snd (carry_event E n h))"
    using ok assms(4) by (simp_all add: carry_event_def Let_def) (auto simp: host_ok_def less_Suc_eq)
qed

text \<open>
  C28: What a hosted server asks of the agent is answered to that server, under the server's own
  id, once: however many other messages pass in between, and whatever other servers ask, the agent's
  answer to the forwarded question goes to the server that asked, and a second answer goes
  nowhere.
\<close>

theorem questions_return_to_their_server:
  fixes E :: "('a) serde_scheme" and H :: host_env and servers :: "mcp_server_config list" and cwd :: path
    and before after :: "host_op list" and payload again :: response_payload
  assumes "length before + length after < 2 ^ 64 - 3"
  defines "h \<equiv> host_run E H (new_host servers cwd) before"
  assumes "n < length (h_servers h)"
    and "srv_events (snd (h_servers h ! n)) = ServerRequest sid m p # rest"
    and "carry_event E n h = ([Request i m' q], h1)"
    and "\<And>answer. Claim i answer \<notin> set after"
  defines "g \<equiv> host_run E H h1 after"
  defines "answered \<equiv> modify_server n (answer_server E sid (reply_of payload))
    (g\<lparr>h_awaiting := hm_remove i (h_awaiting g)\<rparr>)"
  shows "m' = MCP_MESSAGE \<and> claim_response E i payload g = (True, answered) \<and>
    claim_response E i again answered = (True, answered)"
proof -
  have "length before < 2 ^ 64 - 1" using assms(1) by simp
  from host_ok_run [OF this] obtain k where ok: "host_ok k h" and k: "k \<le> length before"
    unfolding h_def by blast
  have bound: "Suc k < 2 ^ 64" using k assms(1) by simp
  note asked = asked_event [OF ok bound assms(3,4), of E]
  from asked(1) assms(5) have i: "i = agent_id k" "m' = MCP_MESSAGE" by auto
  have h1: "host_ok (Suc k) h1" "hm_get (h_awaiting h1) (agent_id k) = Some (n, sid)"
    using asked(2,3) assms(5) by simp_all
  have "Suc k + length after < 2 ^ 64 - 1" using k assms(1) by simp
  from host_run_induct [where k0 = "Suc k" and Q = "\<lambda>g. hm_get (h_awaiting g) (agent_id k) = Some (n, sid)"
      and E = E and H = H, OF h1(1) this _ order.refl h1(2)]
  have "hm_get (h_awaiting g) i = Some (n, sid)"
    unfolding g_def i(1) using awaiting_step assms(6) by (metis Suc_le_eq i(1))
  then show ?thesis by (simp add: i claim_eq answered_def)
qed

text \<open>
  The three id spaces are apart: an answer is claimed exactly when its id bears the
  host's prefix, and no id the relay mints for a request of a browser does.
\<close>

theorem relay_ids_are_never_claimed:
  "(fst (claim_response E i payload h) \<longleftrightarrow> list_ex (\<lambda>t. starts_with t AGENT_ID_PREFIX)
      (case i of IdString t \<Rightarrow> [t] | _ \<Rightarrow> [])) \<and>
   claim_response E (fst (for_agent browser b)) payload h = (False, h) \<and>
   fst (claim_response E (agent_id j) payload h)"
  by (auto simp: claim_response_def hm_take_def for_agent_def agent_id_def Let_def
      split: request_id.split option.split)

section \<open>A concrete host\<close>

definition demo_host_env :: host_env where
  "demo_host_env = \<lparr>de_connect = (\<lambda>p. Inr ''calc''), spawn_mcp = (\<lambda>_ _. Inr ())\<rparr>"

definition calc_server :: mcp_server_config where
  "calc_server = \<lparr>ms_name = ''calc'', ms_kind = McpAcp \<lparr>la_command = ''calc'', la_args = [], la_env = []\<rparr>,
     ms_unavailable = None\<rparr>"

definition demo_connection :: json where
  "demo_connection = JObject [(''connectionId'', JString ''mcp-1''), (''method'', JString ''add'')]"

definition one_host :: "('a) serde_scheme \<Rightarrow> mcp_host" where
  "one_host E = host_run E demo_host_env (new_host [calc_server] ''/w'') [Connect JNull]"

lemma dec_1: "dec (Suc 0) = ''1''"
  by (simp add: dec.simps digit_def char_of_def bit_0)

lemma one_host_eq: "one_host E =
  \<lparr>h_configured = [(''calc'', \<lparr>la_command = ''calc'', la_args = [], la_env = []\<rparr>)], h_cwd = ''/w'',
   h_live = [(''mcp-1'', 0)], h_servers = [(''mcp-1'', spawn_server ''calc'')], h_awaiting = [], h_next = 2\<rparr>"
  by (simp add: one_host_def new_host_def calc_server_def hosted_launch.simps List.map_filter_simps
      connect_server_def demo_host_env_def dec_1 Let_def)

lemma one_host_find: "find_server demo_connection (one_host E) = Inr 0"
  by (simp add: find_server_def connection_named_def demo_connection_def json_index_def one_host_eq)

theorem messages_reach_their_connection_witness:
  "fst (h_servers (one_host (toy_serde [])) ! 0) = connection_named demo_connection"
  using messages_reach_their_connection [of "[Connect JNull]" demo_connection "toy_serde []" demo_host_env
      "[calc_server]" "''/w''" 0] one_host_find [of "toy_serde []"]
  by (simp add: one_host_def)

theorem closed_connections_stay_closed_witness:
  "find_server demo_connection (host_run (toy_serde []) demo_host_env
     (snd (disconnect_server demo_connection (one_host (toy_serde [])))) [Connect JNull]) =
   Inl (no_such_connection ''mcp-1'')"
proof -
  have "connection_named demo_connection = ''mcp-1''"
    by (simp add: connection_named_def demo_connection_def json_index_def)
  moreover obtain v h1 where "disconnect_server demo_connection (one_host (toy_serde [])) = (Inr v, h1)"
    using one_host_find [of "toy_serde []"]
    by (auto simp: disconnect_server_def take_server_def find_server_def split: option.splits)
  ultimately show ?thesis
    using closed_connections_stay_closed [of "[Connect JNull]" "[Connect JNull]" demo_connection
        "toy_serde []" demo_host_env "[calc_server]" "''/w''" v h1]
    by (simp add: one_host_def)
qed

definition asking :: "string \<Rightarrow> serde" where
  "asking line = toy_serde [(line, no_fields\<lparr>w_id := Some (IdNumber 9), w_method := Some ''roots/list''\<rparr>)]"

theorem questions_return_to_their_server_witness:
  "let E = asking ''?'';
       h = host_run E demo_host_env (one_host E) [AtServer 0 (ServerLine ''?''), Carry 0];
       g = snd (claim_response E (agent_id 1) (Result ''[]'') h)
   in srv_input (snd (h_servers g ! 0)) = [to_line E (Response (IdNumber 9) (Result ''[]''))] \<and>
      claim_response E (agent_id 1) (Result ''{}'') g = (True, g)"
proof -
  let ?E = "asking ''?''"
  define h where "h = host_run ?E demo_host_env (one_host ?E) [AtServer 0 (ServerLine ''?'')]"
  have servers: "h_servers h = [(''mcp-1'', (spawn_server ''calc'')
      \<lparr>srv_events := [ServerRequest (IdNumber 9) ''roots/list'' None]\<rparr>)]" and counter: "h_next h = 2"
    by (simp_all add: h_def one_host_eq modify_server_def on_line_def parse_def parse_wire_def asking_def
        toy_serde_def no_fields_def spawn_server_def over_streams_def)
  have two: "dec 2 = dec (Suc (Suc 0))" by (simp add: numeral_2_eq_2)
  obtain q h1 where carried: "carry_event ?E 0 h = ([Request (agent_id 1) MCP_MESSAGE q], h1)"
    by (auto simp: carry_event_def servers counter Let_def agent_id_def modify_server_def two)
  then have h1: "host_run ?E demo_host_env (one_host ?E) [AtServer 0 (ServerLine ''?''), Carry 0] = h1"
    using servers by (simp add: h_def)
  have ev: "srv_events (snd (h_servers h ! 0)) = ServerRequest (IdNumber 9) ''roots/list'' None # []"
    by (simp add: servers)
  have start: "h = host_run ?E demo_host_env (new_host [calc_server] ''/w'')
      [Connect JNull, AtServer 0 (ServerLine ''?'')]"
    by (simp add: h_def one_host_def)
  have answer: "snd (claim_response ?E (agent_id 1) (Result ''[]'') h1) =
      modify_server 0 (answer_server ?E (IdNumber 9) (Inr ''[]''))
        (h1\<lparr>h_awaiting := hm_remove (agent_id 1) (h_awaiting h1)\<rparr>) \<and>
      claim_response ?E (agent_id 1) (Result ''{}'') (snd (claim_response ?E (agent_id 1) (Result ''[]'') h1)) =
        (True, snd (claim_response ?E (agent_id 1) (Result ''[]'') h1))"
    using questions_return_to_their_server [where before = "[Connect JNull, AtServer 0 (ServerLine ''?'')]"
        and after = "[]" and E = ?E and H = demo_host_env and servers = "[calc_server]" and cwd = "''/w''",
        folded start, OF _ _ ev carried, of "Result ''[]''" "Result ''{}''"]
    by (simp add: servers)
  have "h_servers h1 = [(''mcp-1'', spawn_server ''calc'')]"
    using carried by (auto simp: carry_event_def servers modify_server_def Let_def spawn_server_def over_streams_def)
  then have "srv_input (snd (h_servers (snd (claim_response ?E (agent_id 1) (Result ''[]'') h1)) ! 0)) =
      [to_line ?E (Response (IdNumber 9) (Result ''[]''))]"
    by (simp only: conjunct1 [OF answer])
      (simp add: modify_server_def answer_server_def send_to_server_def spawn_server_def over_streams_def)
  then show ?thesis
    unfolding h1 Let_def using conjunct2 [OF answer] by blast
qed

end
