(* ===== verification/Interceptor.thy ===== *)
theory Interceptor
  imports Relay_Props Terminal Mcp_Host
begin

text \<open>
  \<open>crates/mjx-acp-server/src/workspace_interceptor.rs\<close>: the server answers the agent's
  file, terminal and hosted MCP requests itself. Each request starts a task of its own, so
  the interceptor keeps its tasks, in the order they were started; a turn of a task runs
  it to its next wait or to its end. The disk belongs to the world and is passed along.
  Reading request types is the schema crate's, base64 and the operating system's error
  texts are not the program's either: they are fields of \<open>client_env\<close>.
\<close>

section \<open>State\<close>

record create_request =
  ct_command :: string
  ct_args :: "string list"
  ct_cwd :: "string option"
  ct_limit :: "64 word option"

record client_env =
  hosting :: host_env
  de_read_file :: "raw \<Rightarrow> json_error + string \<times> 32 word option \<times> 32 word option"
  de_write_file :: "raw \<Rightarrow> json_error + string \<times> string"
  de_create_terminal :: "raw \<Rightarrow> json_error + create_request"
  de_output :: "raw \<Rightarrow> json_error + string"
  de_wait :: "raw \<Rightarrow> json_error + string"
  de_kill :: "raw \<Rightarrow> json_error + string"
  de_release :: "raw \<Rightarrow> json_error + string"
  os_text :: "string \<Rightarrow> string"
  base64 :: "8 word list \<Rightarrow> string"

text \<open>
  \<open>AwaitExit\<close> holds the terminal whose exit is awaited, \<open>AwaitReply\<close> a hosted server and
  the number of the call made to it.
\<close>

datatype task_state = Queued | AwaitExit nat | AwaitReply nat nat | Answered

record task =
  task_id :: request_id
  task_method :: string
  task_params :: "raw option"
  task_state :: task_state

record workspace_interceptor =
  wi_workspace :: workspace
  wi_mcp :: mcp_host
  wi_started :: bool
  wi_mirrored :: nat
  wi_tasks :: "task list"

definition new_interceptor ::
  "string list \<Rightarrow> path \<Rightarrow> mcp_server_config list \<Rightarrow> workspace_interceptor" where
  "new_interceptor roots cwd servers =
     \<lparr>wi_workspace = new_workspace roots cwd, wi_mcp = new_host servers cwd,
      wi_started = False, wi_mirrored = 0, wi_tasks = []\<rparr>"

definition is_ours :: "workspace_interceptor \<Rightarrow> string \<Rightarrow> bool" where
  "is_ours i m \<longleftrightarrow> is_server_provided_capability m \<or> (is_mcp_over_acp m \<and> is_configured (wi_mcp i))"

section \<open>Errors and results\<close>

fun error_text :: "client_env \<Rightarrow> workspace_error \<Rightarrow> string" where
  "error_text C (OutsideWorkspace p) = p @ '' is outside the workspace''"
| "error_text C (NotAbsolute p) = p @ '' is not an absolute path''"
| "error_text C (NotFound p) = p @ '' does not exist''"
| "error_text C (Io p) = p @ '': '' @ os_text C p"
| "error_text C (TerminalFailed e) = e"
| "error_text C (NoSuchTerminal i) = ''no such terminal: '' @ i"

definition to_rpc_error :: "client_env \<Rightarrow> workspace_error \<Rightarrow> json_rpc_error" where
  "to_rpc_error C e = \<lparr>err_code = error_code e, err_message = error_text C e, err_data = None\<rparr>"

text \<open>\<open>map_err(to_rpc_error)\<close> and what is made of the value.\<close>

definition rpc_result ::
  "client_env \<Rightarrow> ('a \<Rightarrow> json) \<Rightarrow> workspace_error + 'a \<Rightarrow> json_rpc_error + json" where
  "rpc_result C f r = (case r of Inl e \<Rightarrow> Inl (to_rpc_error C e) | Inr x \<Rightarrow> Inr (f x))"

definition typed_params :: "(raw \<Rightarrow> json_error + 'a) \<Rightarrow> frame \<Rightarrow> json_rpc_error + 'a" where
  "typed_params de f =
     (case params_as de f of
        Inl e \<Rightarrow> Inl (invalid_params e)
      | Inr None \<Rightarrow> Inl (invalid_params ''missing params'')
      | Inr (Some x) \<Rightarrow> Inr x)"

definition exit_status_json :: "exit_status \<Rightarrow> json" where
  "exit_status_json st = JObject
     (skip_none ''exitCode'' (\<lambda>n. JNumber (dec_i32 n)) (exit_code st) @
      skip_none ''signal'' JString (exit_signal st))"

definition output_json :: "string \<times> bool \<times> exit_status option \<Rightarrow> json" where
  "output_json r =
     (case r of (content, lost, st) \<Rightarrow> JObject
        ([(''output'', JString content), (''truncated'', JBool lost)] @
         skip_none ''exitStatus'' exit_status_json st))"

section \<open>Requests against the workspace\<close>

text \<open>A request ends, or waits for something.\<close>

datatype outcome = Done "json_rpc_error + json" | Wait task_state

type_synonym world = "disk \<times> workspace_interceptor"

definition read_request :: "client_env \<Rightarrow> frame \<Rightarrow> world \<Rightarrow> outcome \<times> world" where
  "read_request C f w =
     (case typed_params (de_read_file C) f of
        Inl e \<Rightarrow> (Done (Inl e), w)
      | Inr (path, line, limit) \<Rightarrow>
          (Done (rpc_result C (\<lambda>content. JObject [(''content'', JString content)])
             (workspace_read (fst w) (wi_workspace (snd w)) path line limit)), w))"

definition write_request :: "client_env \<Rightarrow> frame \<Rightarrow> world \<Rightarrow> outcome \<times> world" where
  "write_request C f w =
     (case typed_params (de_write_file C) f of
        Inl e \<Rightarrow> (Done (Inl e), w)
      | Inr (path, content) \<Rightarrow>
          let (r, d, ws) = workspace_write (fst w) (wi_workspace (snd w)) path content
          in (Done (rpc_result C (\<lambda>_. JObject []) r), d, (snd w)\<lparr>wi_workspace := ws\<rparr>))"

definition create_terminal_request ::
  "client_env \<Rightarrow> string + unit \<Rightarrow> frame \<Rightarrow> world \<Rightarrow> outcome \<times> world" where
  "create_terminal_request C spawned f w =
     (case typed_params (de_create_terminal C) f of
        Inl e \<Rightarrow> (Done (Inl e), w)
      | Inr q \<Rightarrow>
          let (r, ws) = workspace_create_terminal (fst w) spawned (wi_workspace (snd w))
                (ct_command q) (ct_args q) (ct_cwd q) (map_option unat (ct_limit q))
          in (Done (rpc_result C (\<lambda>i. JObject [(''terminalId'', JString i)]) r),
              fst w, (snd w)\<lparr>wi_workspace := ws\<rparr>))"

definition output_request :: "client_env \<Rightarrow> frame \<Rightarrow> world \<Rightarrow> outcome \<times> world" where
  "output_request C f w =
     (case typed_params (de_output C) f of
        Inl e \<Rightarrow> (Done (Inl e), w)
      | Inr i \<Rightarrow>
          (Done (rpc_result C output_json
             (Terminal.terminal_output i (ws_terminals (wi_workspace (snd w))))), w))"

definition wait_request :: "client_env \<Rightarrow> frame \<Rightarrow> world \<Rightarrow> outcome \<times> world" where
  "wait_request C f w =
     (case typed_params (de_wait C) f of
        Inl e \<Rightarrow> (Done (Inl e), w)
      | Inr i \<Rightarrow>
          (case get_terminal i (ws_terminals (wi_workspace (snd w))) of
             Inl e \<Rightarrow> (Done (Inl (to_rpc_error C e)), w)
           | Inr n \<Rightarrow> (Wait (AwaitExit n), w)))"

text \<open>\<open>terminal/kill\<close> and \<open>terminal/release\<close>: an operation on the terminals, and an empty object.\<close>

definition on_terminals ::
  "(terminals \<Rightarrow> (workspace_error + unit) \<times> terminals) \<Rightarrow> client_env \<Rightarrow> world \<Rightarrow> outcome \<times> world" where
  "on_terminals op C w =
     (let ws = wi_workspace (snd w); (r, ts) = op (ws_terminals ws)
      in (Done (rpc_result C (\<lambda>_. JObject []) r),
          fst w, (snd w)\<lparr>wi_workspace := ws\<lparr>ws_terminals := ts\<rparr>\<rparr>))"

definition kill_request :: "client_env \<Rightarrow> frame \<Rightarrow> world \<Rightarrow> outcome \<times> world" where
  "kill_request C f w =
     (case typed_params (de_kill C) f of
        Inl e \<Rightarrow> (Done (Inl e), w) | Inr i \<Rightarrow> on_terminals (kill_terminal i) C w)"

definition release_request :: "client_env \<Rightarrow> frame \<Rightarrow> world \<Rightarrow> outcome \<times> world" where
  "release_request C f w =
     (case typed_params (de_release C) f of
        Inl e \<Rightarrow> (Done (Inl e), w) | Inr i \<Rightarrow> on_terminals (release_terminal i) C w)"

definition handle_capability ::
  "client_env \<Rightarrow> string + unit \<Rightarrow> string \<Rightarrow> frame \<Rightarrow> world \<Rightarrow> outcome \<times> world" where
  "handle_capability C spawned m f w =
     (if m = ''fs/read_text_file'' then read_request C f w
      else if m = ''fs/write_text_file'' then write_request C f w
      else if m = ''terminal/create'' then create_terminal_request C spawned f w
      else if m = ''terminal/output'' then output_request C f w
      else if m = ''terminal/wait_for_exit'' then wait_request C f w
      else if m = ''terminal/kill'' then kill_request C f w
      else if m = ''terminal/release'' then release_request C f w
      else (Done (Inl (method_not_found m)), w))"

section \<open>Requests to hosted MCP servers\<close>

definition params_or_null :: "('a) serde_scheme \<Rightarrow> raw option \<Rightarrow> json" where
  "params_or_null E p =
     (case p of None \<Rightarrow> JNull | Some r \<Rightarrow> (case de_value E r of Inl _ \<Rightarrow> JNull | Inr v \<Rightarrow> v))"

text \<open>\<open>McpHost::handle\<close>.\<close>

definition mcp_handle ::
  "('a) serde_scheme \<Rightarrow> host_env \<Rightarrow> string \<Rightarrow> json \<Rightarrow> mcp_host \<Rightarrow> outcome \<times> mcp_host" where
  "mcp_handle E H m params h =
     (if m = MCP_CONNECT then (let (r, h1) = connect_server H params h in (Done r, h1))
      else if m = MCP_DISCONNECT then (let (r, h1) = disconnect_server params h in (Done r, h1))
      else if m = MCP_MESSAGE
      then (case begin_message E params h of
              (Inl e, h1) \<Rightarrow> (Done (Inl e), h1)
            | (Inr (n, call), h1) \<Rightarrow> (Wait (AwaitReply n call), h1))
      else (Done (Inl (method_not_found m)), h))"

definition run_request ::
  "('a) serde_scheme \<Rightarrow> client_env \<Rightarrow> string + unit \<Rightarrow> string \<Rightarrow> frame \<Rightarrow> world \<Rightarrow> outcome \<times> world" where
  "run_request E C spawned m f w =
     (if is_mcp_over_acp m
      then let (o1, h) = mcp_handle E (hosting C) m (params_or_null E (frame_params f)) (wi_mcp (snd w))
           in (o1, fst w, (snd w)\<lparr>wi_mcp := h\<rparr>)
      else handle_capability C spawned m f w)"

section \<open>Tasks\<close>

definition task_frame :: "task \<Rightarrow> frame" where
  "task_frame t = Request (task_id t) (task_method t) (task_params t)"

definition reply_for :: "('a) serde_scheme \<Rightarrow> request_id \<Rightarrow> json_rpc_error + json \<Rightarrow> frame" where
  "reply_for E j r =
     (case r of
        Inr v \<Rightarrow>
          (case frame_result j (ser_value E v) of
             Inr f \<Rightarrow> f | Inl e \<Rightarrow> frame_error IdNull (internal_error e))
      | Inl e \<Rightarrow> frame_error j e)"

definition set_task :: "nat \<Rightarrow> task_state \<Rightarrow> workspace_interceptor \<Rightarrow> workspace_interceptor" where
  "set_task n st i = i\<lparr>wi_tasks := (wi_tasks i)[n := (wi_tasks i ! n)\<lparr>task_state := st\<rparr>]\<rparr>"

text \<open>One turn of task \<open>n\<close>: the frames it sends the agent, and the world after it.\<close>

definition task_turn ::
  "('a) serde_scheme \<Rightarrow> client_env \<Rightarrow> string + unit \<Rightarrow> bool \<Rightarrow> nat \<Rightarrow> world \<Rightarrow> frame list \<times> world" where
  "task_turn E C spawned waiter_gone n w =
     (let t = wi_tasks (snd w) ! n;
          finish = (\<lambda>r w. ([reply_for E (task_id t) r], fst w, set_task n Answered (snd w)))
      in case task_state t of
           Queued \<Rightarrow>
             (case run_request E C spawned (task_method t) (task_frame t) w of
                (Done r, w1) \<Rightarrow> finish r w1
              | (Wait st, w1) \<Rightarrow> ([], fst w1, set_task n st (snd w1)))
         | AwaitExit c \<Rightarrow>
             (case poll_exit waiter_gone c (ws_terminals (wi_workspace (snd w))) of
                None \<Rightarrow> ([], w) | Some st \<Rightarrow> finish (Inr (exit_status_json st)) w)
         | AwaitReply s call \<Rightarrow>
             (case reply_to s call (wi_mcp (snd w)) of
                None \<Rightarrow> ([], w) | Some r \<Rightarrow> finish (end_message E r) w)
         | Answered \<Rightarrow> ([], w))"

section \<open>The interceptor\<close>

definition start_interceptor :: "workspace_interceptor \<Rightarrow> workspace_interceptor" where
  "start_interceptor i = i\<lparr>wi_started := True\<rparr>"

definition intercept_client :: "('a) serde_scheme \<Rightarrow> workspace_interceptor intercept" where
  "intercept_client E i f =
     (case merge_client_capabilities E f True True of
        Some rewritten \<Rightarrow> (Rewrite rewritten, [], i) | None \<Rightarrow> (Forward, [], i))"

definition queue_task :: "request_id \<Rightarrow> string \<Rightarrow> raw option \<Rightarrow> workspace_interceptor \<Rightarrow> workspace_interceptor" where
  "queue_task j m p i =
     i\<lparr>wi_tasks := wi_tasks i @
        [\<lparr>task_id = j, task_method = m, task_params = p, task_state = Queued\<rparr>]\<rparr>"

definition intercept_agent :: "('a) serde_scheme \<Rightarrow> workspace_interceptor intercept" where
  "intercept_agent E i f =
     (case f of
        Notification m p \<Rightarrow>
          if is_ours i m
          then (Intercept, [], i\<lparr>wi_mcp := host_notify E (params_or_null E p) (wi_mcp i)\<rparr>)
          else (Forward, [], i)
      | Response j payload \<Rightarrow>
          let (claimed, h) = claim_response E j payload (wi_mcp i)
          in (if claimed then Intercept else Forward, [], i\<lparr>wi_mcp := h\<rparr>)
      | Request j m p \<Rightarrow>
          if is_ours i m then (Intercept, [], queue_task j m p i) else (Forward, [], i))"

definition stop_interceptor :: "workspace_interceptor \<Rightarrow> workspace_interceptor" where
  "stop_interceptor i =
     i\<lparr>wi_workspace := release_all_terminals (wi_workspace i), wi_mcp := shutdown_hosted (wi_mcp i)\<rparr>"

section \<open>Mirroring\<close>

fun mirror :: "client_env \<Rightarrow> workspace_event \<Rightarrow> string \<times> json" where
  "mirror C (TerminalCreated i command args cwd) = (TERMINAL_CREATED, terminal_created_json
     \<lparr>tcr_terminal_id = i, tcr_command = command, tcr_args = args, tcr_cwd = cwd\<rparr>)"
| "mirror C (TerminalOutput i chunk lost) = (TERMINAL_OUTPUT_EXT, terminal_output_json
     \<lparr>tou_terminal_id = i, tou_chunk = base64 C chunk, tou_truncated = lost\<rparr>)"
| "mirror C (TerminalExit i st) = (TERMINAL_EXIT, terminal_exit_json
     \<lparr>tex_terminal_id = i, tex_exit_code = exit_code st, tex_signal = exit_signal st\<rparr>)"
| "mirror C (FileWritten path old new) = (FS_WROTE, fs_wrote_json
     \<lparr>fw_path = path, fw_old_text = old, fw_new_text = new\<rparr>)"

text \<open>\<open>Outbox::notify_browser\<close>: what cannot be serialised is dropped.\<close>

definition notify_frames :: "('a) serde_scheme \<Rightarrow> string \<times> json \<Rightarrow> frame list" where
  "notify_frames E n =
     (case notification (fst n) (ser_value E (snd n)) of Inl _ \<Rightarrow> [] | Inr f \<Rightarrow> [f])"

text \<open>One turn of the mirror: the oldest event it has not taken yet.\<close>

definition mirror_turn ::
  "('a) serde_scheme \<Rightarrow> client_env \<Rightarrow> workspace_interceptor \<Rightarrow> frame list \<times> workspace_interceptor" where
  "mirror_turn E C i =
     (let evs = events (ws_terminals (wi_workspace i))
      in if wi_started i \<and> wi_mirrored i < length evs
         then (notify_frames E (mirror C (evs ! wi_mirrored i)), i\<lparr>wi_mirrored := Suc (wi_mirrored i)\<rparr>)
         else ([], i))"

end
