(* ===== verification/Interceptor_Props.thy ===== *)
theory Interceptor_Props
  imports Interceptor
begin

text \<open>
  Runs of the interceptor, and what holds of them: which requests become tasks, that each
  is answered once and in its own name, when a turn answers, and what a turn may touch.
\<close>

section \<open>Runs\<close>

text \<open>
  The frames of both sides, the turns of the tasks and of the mirror, what the terminals'
  threads, the hosted servers and the rest of the world do meanwhile, and the end.
\<close>

datatype interceptor_op =
    StartMirror
  | ClientFrame frame
  | AgentFrame frame
  | TaskTurn "string + unit" bool nat
  | MirrorTurn
  | CarryTurn nat
  | TerminalReads nat "8 word list"
  | TerminalExits nat exit_status
  | HostedServer nat server_op
  | DiskBecomes disk
  | StopInterceptor

definition on_workspace_terminals ::
  "(terminals \<Rightarrow> terminals) \<Rightarrow> workspace_interceptor \<Rightarrow> workspace_interceptor" where
  "on_workspace_terminals f i =
     i\<lparr>wi_workspace := (wi_workspace i)\<lparr>ws_terminals := f (ws_terminals (wi_workspace i))\<rparr>\<rparr>"

definition after_decision ::
  "disk \<Rightarrow> disposition \<times> (direction \<times> frame) list \<times> workspace_interceptor \<Rightarrow>
   (direction \<times> frame) list \<times> world" where
  "after_decision d r = (case r of (disp, out, i) \<Rightarrow> (out, d, i))"

fun interceptor_step ::
  "('a) serde_scheme \<Rightarrow> client_env \<Rightarrow> interceptor_op \<Rightarrow> world \<Rightarrow> (direction \<times> frame) list \<times> world" where
  "interceptor_step E C StartMirror (d, i) = ([], d, start_interceptor i)"
| "interceptor_step E C (ClientFrame f) (d, i) = after_decision d (intercept_client E i f)"
| "interceptor_step E C (AgentFrame f) (d, i) = after_decision d (intercept_agent E i f)"
| "interceptor_step E C (TaskTurn sp dead n) (d, i) =
     (if n < length (wi_tasks i)
      then let (fs, w) = task_turn E C sp dead n (d, i) in (map (Pair ClientToAgent) fs, w)
      else ([], d, i))"
| "interceptor_step E C MirrorTurn (d, i) =
     (let (fs, i1) = mirror_turn E C i in (map (Pair AgentToClient) fs, d, i1))"
| "interceptor_step E C (CarryTurn n) (d, i) =
     (if n < length (h_servers (wi_mcp i))
      then let (fs, h) = carry_event E n (wi_mcp i) in (map (Pair ClientToAgent) fs, d, i\<lparr>wi_mcp := h\<rparr>)
      else ([], d, i))"
| "interceptor_step E C (TerminalReads n chunk) (d, i) =
     ([], d, on_workspace_terminals (\<lambda>ts. terminal_step ts (ReadT n chunk)) i)"
| "interceptor_step E C (TerminalExits n st) (d, i) =
     ([], d, on_workspace_terminals (\<lambda>ts. terminal_step ts (ExitT n st)) i)"
| "interceptor_step E C (HostedServer n op) (d, i) =
     ([], d, i\<lparr>wi_mcp := host_step E (hosting C) (wi_mcp i) (AtServer n op)\<rparr>)"
| "interceptor_step E C (DiskBecomes d') (d, i) = ([], d', i)"
| "interceptor_step E C StopInterceptor (d, i) = ([], d, stop_interceptor i)"

text \<open>A run, with everything it wrote to the outbox.\<close>

definition interceptor_run ::
  "('a) serde_scheme \<Rightarrow> client_env \<Rightarrow> (direction \<times> frame) list \<times> world \<Rightarrow> interceptor_op list \<Rightarrow>
   (direction \<times> frame) list \<times> world" where
  "interceptor_run E C = foldl (\<lambda>(out, w) op. let (fs, w1) = interceptor_step E C op w in (out @ fs, w1))"

lemma interceptor_run_simps [simp]:
  "interceptor_run E C s [] = s"
  "interceptor_run E C s (ops @ [op]) =
     (fst (interceptor_run E C s ops) @ fst (interceptor_step E C op (snd (interceptor_run E C s ops))),
      snd (interceptor_step E C op (snd (interceptor_run E C s ops))))"
  by (simp_all add: interceptor_run_def case_prod_beta Let_def)

section \<open>What a request may change\<close>

lemma host_notify_configured [simp]: "h_configured (host_notify E p h) = h_configured h"
  by (auto simp: host_notify_def split: sum.split option.split)

lemma claim_configured [simp]: "h_configured (snd (claim_response E j p h)) = h_configured h"
  using step_configured [of E undefined h "Claim j p"] by simp

lemma carry_configured [simp]:
  "n < length (h_servers h) \<Longrightarrow> h_configured (snd (carry_event E n h)) = h_configured h"
  using step_configured [of E undefined h "Carry n"] by simp

lemma mcp_handle_configured [simp]: "h_configured (snd (mcp_handle E H m p h)) = h_configured h"
  using step_configured [of E H h "Connect p"] step_configured [of E H h "Disconnect p"]
    step_configured [of E H h "Message p"]
  by (auto simp: mcp_handle_def case_prod_beta Let_def split: sum.split)

text \<open>What \<open>handle\<close> may touch of the interceptor: the workspace, and its roots not.\<close>

definition same_but_work :: "workspace_interceptor \<Rightarrow> workspace_interceptor \<Rightarrow> bool" where
  "same_but_work i i' \<longleftrightarrow> wi_tasks i' = wi_tasks i \<and> wi_started i' = wi_started i \<and>
     wi_mirrored i' = wi_mirrored i \<and> h_configured (wi_mcp i') = h_configured (wi_mcp i) \<and>
     ws_roots (wi_workspace i') = ws_roots (wi_workspace i) \<and>
     ws_cwd (wi_workspace i') = ws_cwd (wi_workspace i)"

lemmas request_defs = read_request_def write_request_def create_terminal_request_def output_request_def
  wait_request_def kill_request_def release_request_def on_terminals_def

lemma same_refl [simp]: "same_but_work i i"
  by (simp add: same_but_work_def)

lemma same_work [simp]:
  "same_but_work i (i\<lparr>wi_workspace := ws\<rparr>) \<longleftrightarrow>
     ws_roots ws = ws_roots (wi_workspace i) \<and> ws_cwd ws = ws_cwd (wi_workspace i)"
  by (auto simp: same_but_work_def)

lemma workspace_roots:
  "ws_roots (snd (snd (workspace_write d ws path content))) = ws_roots ws \<and>
   ws_cwd (snd (snd (workspace_write d ws path content))) = ws_cwd ws"
  "ws_roots (snd (workspace_create_terminal d sp ws c a dir l)) = ws_roots ws \<and>
   ws_cwd (snd (workspace_create_terminal d sp ws c a dir l)) = ws_cwd ws"
  by (simp_all add: workspace_write_def workspace_create_terminal_def case_prod_beta Let_def split: sum.split)

lemma same_requests:
  "same_but_work (snd w) (snd (snd (read_request C f w)))"
  "same_but_work (snd w) (snd (snd (write_request C f w)))"
  "same_but_work (snd w) (snd (snd (create_terminal_request C sp f w)))"
  "same_but_work (snd w) (snd (snd (output_request C f w)))"
  "same_but_work (snd w) (snd (snd (wait_request C f w)))"
  "same_but_work (snd w) (snd (snd (kill_request C f w)))"
  "same_but_work (snd w) (snd (snd (release_request C f w)))"
  by (simp_all add: read_request_def write_request_def create_terminal_request_def output_request_def
      wait_request_def kill_request_def release_request_def on_terminals_def workspace_roots
      case_prod_beta Let_def split: sum.split)

lemma same_capability: "same_but_work (snd w) (snd (snd (handle_capability C sp m f w)))"
  by (simp add: handle_capability_def same_requests)

lemma same_run: "same_but_work (snd w) (snd (snd (run_request E C sp m f w)))"
  using same_capability [of w C sp m f]
  by (auto simp: run_request_def same_but_work_def case_prod_beta Let_def)

lemma disk_requests:
  "fst (snd (read_request C f w)) = fst w" "fst (snd (create_terminal_request C sp f w)) = fst w"
  "fst (snd (output_request C f w)) = fst w" "fst (snd (wait_request C f w)) = fst w"
  "fst (snd (kill_request C f w)) = fst w" "fst (snd (release_request C f w)) = fst w"
  by (simp_all add: read_request_def create_terminal_request_def output_request_def wait_request_def
      kill_request_def release_request_def on_terminals_def case_prod_beta Let_def split: sum.split)

lemma disk_capability:
  "m \<noteq> ''fs/write_text_file'' \<Longrightarrow> fst (snd (handle_capability C sp m f w)) = fst w"
  by (simp add: handle_capability_def disk_requests)

lemma disk_run:
  "m \<noteq> ''fs/write_text_file'' \<Longrightarrow> fst (snd (run_request E C sp m f w)) = fst w"
  by (simp add: run_request_def disk_capability case_prod_beta Let_def)

section \<open>Every request is answered once\<close>

definition answer_ids :: "(direction \<times> frame) list \<Rightarrow> request_id list" where
  "answer_ids out = List.map_filter (\<lambda>(d, f). if is_response f then frame_id f else None) out"

definition answered_ids :: "workspace_interceptor \<Rightarrow> request_id list" where
  "answered_ids i = map task_id (filter (\<lambda>t. task_state t = Answered) (wi_tasks i))"

fun request_for :: "workspace_interceptor \<Rightarrow> interceptor_op \<Rightarrow> (request_id \<times> string \<times> raw option) option" where
  "request_for i (AgentFrame (Request j m p)) = (if is_ours i m then Some (j, m, p) else None)"
| "request_for i _ = None"

definition task_key :: "task \<Rightarrow> request_id \<times> string \<times> raw option" where
  "task_key t = (task_id t, task_method t, task_params t)"

lemma answer_ids_simps [simp]:
  "answer_ids [] = []" "answer_ids (xs @ ys) = answer_ids xs @ answer_ids ys"
  by (simp_all add: answer_ids_def List.map_filter_def)

lemma set_task_keys [simp]: "map task_key (wi_tasks (set_task n st i)) = map task_key (wi_tasks i)"
proof (cases "n < length (wi_tasks i)")
  case True
  then show ?thesis by (auto intro!: nth_equalityI simp: set_task_def nth_list_update task_key_def)
next
  case False
  then have "length (wi_tasks i) \<le> n" by simp
  then show ?thesis by (simp add: set_task_def list_update_beyond)
qed

definition prints_values :: "('a) serde_scheme \<Rightarrow> bool" where
  "prints_values E \<longleftrightarrow> (\<forall>v. \<exists>r. ser_value E v = Inr r)"

lemma reply_for_id:
  assumes "prints_values E"
  shows "\<exists>payload. reply_for E j r = Response j payload"
proof (cases r)
  case (Inr v)
  moreover obtain raw where "ser_value E v = Inr raw" using assms by (auto simp: prints_values_def)
  ultimately show ?thesis by (simp add: reply_for_def frame_result_def)
qed (simp add: reply_for_def frame_error_def)

text \<open>What a turn does to the tasks and what it sends.\<close>

lemma task_turn_cases:
  assumes "n < length (wi_tasks (snd w))"
  shows "\<exists>i' st. snd (snd (task_turn E C sp dead n w)) = set_task n st i' \<and> same_but_work (snd w) i' \<and>
    (if st = Answered \<and> task_state (wi_tasks (snd w) ! n) \<noteq> Answered
     then \<exists>r. fst (task_turn E C sp dead n w) = [reply_for E (task_id (wi_tasks (snd w) ! n)) r]
     else fst (task_turn E C sp dead n w) = []) \<and>
    (task_state (wi_tasks (snd w) ! n) = Answered \<longrightarrow> st = Answered)"
proof -
  let ?t = "wi_tasks (snd w) ! n"
  have id: "set_task n (task_state ?t) (snd w) = snd w"
    by (simp add: set_task_def)
  have idle: ?thesis if "task_turn E C sp dead n w = ([], w)"
    using that id by (intro exI [of _ "snd w"] exI [of _ "task_state ?t"]) simp
  have ends: ?thesis
    if "task_turn E C sp dead n w = ([reply_for E (task_id ?t) r], d, set_task n Answered i')"
      and "same_but_work (snd w) i'" and "task_state ?t \<noteq> Answered" for r d i'
    using that by (intro exI [of _ i'] exI [of _ Answered]) auto
  show ?thesis
  proof (cases "task_state ?t")
    case Queued
    obtain out w1 where run: "run_request E C sp (task_method ?t) (task_frame ?t) w = (out, w1)"
      by (rule prod.exhaust)
    have same: "same_but_work (snd w) (snd w1)"
      using same_run [of w E C sp "task_method ?t" "task_frame ?t"] run by simp
    show ?thesis
    proof (cases out)
      case (Done r)
      with Queued run same show ?thesis by (intro ends) (auto simp: task_turn_def Let_def)
    next
      case (Wait st)
      with run have "st \<noteq> Answered"
        by (auto simp: run_request_def handle_capability_def mcp_handle_def request_defs case_prod_beta Let_def
            split: if_splits sum.splits prod.splits)
      with Queued run same Wait show ?thesis
        by (intro exI [of _ "snd w1"] exI [of _ st]) (auto simp: task_turn_def Let_def)
    qed
  next
    case (AwaitExit c)
    show ?thesis
    proof (cases "poll_exit dead c (ws_terminals (wi_workspace (snd w)))")
      case None
      with AwaitExit show ?thesis by (intro idle) (simp add: task_turn_def)
    next
      case (Some st)
      with AwaitExit show ?thesis by (intro ends) (auto simp: task_turn_def Let_def)
    qed
  next
    case (AwaitReply srv call)
    show ?thesis
    proof (cases "reply_to srv call (wi_mcp (snd w))")
      case None
      with AwaitReply show ?thesis by (intro idle) (simp add: task_turn_def)
    next
      case (Some r)
      with AwaitReply show ?thesis by (intro ends) (auto simp: task_turn_def Let_def)
    qed
  next
    case Answered
    then show ?thesis by (intro idle) (simp add: task_turn_def)
  qed
qed

lemma answered_ids_set:
  assumes "n < length (wi_tasks i)"
  shows "mset (answered_ids (set_task n st i)) =
    mset (if st = Answered then [task_id (wi_tasks i ! n)] else []) +
    (mset (answered_ids i) -
     mset (if task_state (wi_tasks i ! n) = Answered then [task_id (wi_tasks i ! n)] else []))"
proof -
  obtain xs t ys where "wi_tasks i = xs @ t # ys" and "n = length xs"
    using id_take_nth_drop [OF assms] assms by (metis length_take min.absorb2 nat_less_le)
  then show ?thesis by (simp add: answered_ids_def set_task_def)
qed

lemma after_decision_simps [simp]:
  "fst (after_decision d r) = fst (snd r)" "snd (after_decision d r) = (d, snd (snd r))"
  by (simp_all add: after_decision_def case_prod_beta)

lemma answer_ids_notes [simp]:
  "(\<And>f. f \<in> set fs \<Longrightarrow> \<not> is_response f) \<Longrightarrow> answer_ids (map (Pair d) fs) = []"
  by (induction fs) (auto simp: answer_ids_def List.map_filter_simps)

lemma notify_no_response: "f \<in> set (notify_frames E nt) \<Longrightarrow> \<not> is_response f"
  by (auto simp: notify_frames_def notification_def split: sum.splits)

lemma mirror_no_response: "f \<in> set (fst (mirror_turn E C i)) \<Longrightarrow> \<not> is_response f"
  by (auto simp: mirror_turn_def Let_def dest: notify_no_response split: if_splits)

lemma carry_no_response: "f \<in> set (fst (carry_event E n h)) \<Longrightarrow> \<not> is_response f"
proof -
  have "f \<in> set (fst (event_to_agent E n ev g)) \<Longrightarrow> \<not> is_response f" for ev g
    by (cases ev) (auto simp: Let_def notification_def split: sum.splits)
  then show "f \<in> set (fst (carry_event E n h)) \<Longrightarrow> \<not> is_response f"
    by (auto simp: carry_event_def split: list.splits)
qed

lemma intercept_agent_tasks:
  "wi_tasks (snd (snd (intercept_agent E i f))) = wi_tasks i @
     (case request_for i (AgentFrame f) of
        None \<Rightarrow> []
      | Some (j, m, p) \<Rightarrow> [\<lparr>task_id = j, task_method = m, task_params = p, task_state = Queued\<rparr>])"
  "fst (snd (intercept_agent E i f)) = []"
  "h_configured (wi_mcp (snd (snd (intercept_agent E i f)))) = h_configured (wi_mcp i)"
  by (cases f; simp add: intercept_agent_def queue_task_def case_prod_beta Let_def)+

lemma intercept_client_same: "snd (intercept_client E i f) = ([], i)"
  by (simp add: intercept_client_def split: option.split)

lemma mirror_turn_same:
  "wi_tasks (snd (mirror_turn E C i)) = wi_tasks i" "wi_mcp (snd (mirror_turn E C i)) = wi_mcp i"
  "wi_workspace (snd (mirror_turn E C i)) = wi_workspace i"
  by (simp_all add: mirror_turn_def Let_def)

lemma answered_ids_same: "wi_tasks i' = wi_tasks i \<Longrightarrow> answered_ids i' = answered_ids i"
  by (simp add: answered_ids_def)

lemma turn_tasks:
  assumes "prints_values E" and "n < length (wi_tasks (snd w))"
  shows "mset (answered_ids (snd (snd (task_turn E C sp dead n w)))) = mset (answered_ids (snd w)) +
      mset (answer_ids (map (Pair ClientToAgent) (fst (task_turn E C sp dead n w))))"
    "map task_key (wi_tasks (snd (snd (task_turn E C sp dead n w)))) = map task_key (wi_tasks (snd w))"
    "h_configured (wi_mcp (snd (snd (task_turn E C sp dead n w)))) = h_configured (wi_mcp (snd w))"
proof -
  let ?t = "wi_tasks (snd w) ! n"
  obtain i st where t: "snd (snd (task_turn E C sp dead n w)) = set_task n st i"
    and same: "same_but_work (snd w) i"
    and out: "if st = Answered \<and> task_state ?t \<noteq> Answered
       then \<exists>r. fst (task_turn E C sp dead n w) = [reply_for E (task_id ?t) r]
       else fst (task_turn E C sp dead n w) = []"
    and still: "task_state ?t = Answered \<longrightarrow> st = Answered"
    using task_turn_cases [OF assms(2), of E C sp dead] by blast
  have tasks: "wi_tasks i = wi_tasks (snd w)" and conf: "h_configured (wi_mcp i) = h_configured (wi_mcp (snd w))"
    using same by (simp_all add: same_but_work_def)
  have n: "n < length (wi_tasks i)" using assms(2) tasks by simp
  have ids: "answered_ids i = answered_ids (snd w)" using tasks by (rule answered_ids_same)
  have mem: "task_state ?t = Answered \<Longrightarrow> task_id ?t \<in># mset (answered_ids (snd w))"
    using assms(2) by (auto simp: answered_ids_def)
  have one: "answer_ids (map (Pair ClientToAgent) [reply_for E (task_id ?t) r]) = [task_id ?t]" for r
    using reply_for_id [OF assms(1), of "task_id ?t" r] by (auto simp: answer_ids_def List.map_filter_simps)
  show "mset (answered_ids (snd (snd (task_turn E C sp dead n w)))) = mset (answered_ids (snd w)) +
      mset (answer_ids (map (Pair ClientToAgent) (fst (task_turn E C sp dead n w))))"
  proof (cases "st = Answered \<and> task_state ?t \<noteq> Answered")
    case True
    with out obtain r where "fst (task_turn E C sp dead n w) = [reply_for E (task_id ?t) r]" by auto
    with True show ?thesis by (simp only: t answered_ids_set [OF n] ids tasks one) simp
  next
    case False
    with out still mem show ?thesis
      by (cases "st = Answered") (simp_all add: t answered_ids_set [OF n] ids tasks)
  qed
  show "map task_key (wi_tasks (snd (snd (task_turn E C sp dead n w)))) = map task_key (wi_tasks (snd w))"
    by (simp add: t tasks)
  show "h_configured (wi_mcp (snd (snd (task_turn E C sp dead n w)))) = h_configured (wi_mcp (snd w))"
    using conf by (simp add: t set_task_def)
qed

lemma step_tasks:
  assumes "prints_values E"
  shows "mset (answered_ids (snd (snd (interceptor_step E C op w)))) =
      mset (answered_ids (snd w)) + mset (answer_ids (fst (interceptor_step E C op w))) \<and>
    map task_key (wi_tasks (snd (snd (interceptor_step E C op w)))) =
      map task_key (wi_tasks (snd w)) @ (case request_for (snd w) op of None \<Rightarrow> [] | Some k \<Rightarrow> [k]) \<and>
    h_configured (wi_mcp (snd (snd (interceptor_step E C op w)))) = h_configured (wi_mcp (snd w))"
proof -
  obtain d i where w: "w = (d, i)" by (cases w)
  show ?thesis
  proof (cases op)
    case (AgentFrame f)
    show ?thesis
      unfolding w AgentFrame
      by (simp add: intercept_agent_tasks answered_ids_def task_key_def split: option.split prod.split)
  next
    case (TaskTurn sp dead n)
    show ?thesis
    proof (cases "n < length (wi_tasks i)")
      case True
      then show ?thesis
        using turn_tasks [OF assms, of n w C sp dead] by (simp add: w TaskTurn case_prod_beta Let_def)
    qed (simp add: w TaskTurn)
  next
    case MirrorTurn
    with w show ?thesis
      using mirror_no_response [of _ E C i] answered_ids_same [of "snd (mirror_turn E C i)" i]
      by (simp add: case_prod_beta Let_def mirror_turn_same)
  next
    case (CarryTurn n)
    with w show ?thesis
      using carry_no_response [of _ E n "wi_mcp i"] by (simp add: case_prod_beta Let_def answered_ids_def)
  qed (use w in \<open>simp_all add: intercept_client_same start_interceptor_def stop_interceptor_def
      on_workspace_terminals_def answered_ids_def\<close>)
qed

definition requests_for :: "workspace_interceptor \<Rightarrow> interceptor_op list \<Rightarrow> (request_id \<times> string \<times> raw option) list" where
  "requests_for i ops = List.map_filter (request_for i) ops"

lemma request_for_configured:
  "h_configured (wi_mcp i') = h_configured (wi_mcp i) \<Longrightarrow> request_for i' op = request_for i op"
  by (cases "(i, op)" rule: request_for.cases) (simp_all add: is_ours_def is_configured_def)

lemma run_tasks:
  assumes "prints_values E"
  shows "let (out, d', i') = interceptor_run E C ([], d, i) ops
     in mset (answered_ids i') = mset (answered_ids i) + mset (answer_ids out) \<and>
        map task_key (wi_tasks i') = map task_key (wi_tasks i) @ requests_for i ops \<and>
        h_configured (wi_mcp i') = h_configured (wi_mcp i)"
proof (induction ops rule: rev_induct)
  case Nil
  show ?case by (simp add: requests_for_def List.map_filter_simps)
next
  case (snoc op ops)
  obtain out d' i' where run: "interceptor_run E C ([], d, i) ops = (out, d', i')"
    by (cases "interceptor_run E C ([], d, i) ops") auto
  with snoc have ih: "mset (answered_ids i') = mset (answered_ids i) + mset (answer_ids out)"
    "map task_key (wi_tasks i') = map task_key (wi_tasks i) @ requests_for i ops"
    "h_configured (wi_mcp i') = h_configured (wi_mcp i)" by simp_all
  show ?case
    using step_tasks [OF assms, of C op "(d', i')"] ih request_for_configured [OF ih(3), of op]
    by (simp add: run requests_for_def List.map_filter_def case_prod_beta split: option.split)
qed

text \<open>
  C22: The tasks are the requests of the agent that are the server's to answer, in the order
  they came, and the answers sent are, each once and under the id its request had, those
  of the tasks that have been answered: no request is answered twice, none under another's
  id, and nothing that was not asked is answered.
\<close>

theorem each_request_is_answered_once:
  assumes "prints_values E"
  shows "let (out, d', i') = interceptor_run E C ([], d, new_interceptor roots cwd servers) ops
     in map task_key (wi_tasks i') = requests_for (new_interceptor roots cwd servers) ops \<and>
        mset (answer_ids out) = mset (map task_id (filter (\<lambda>t. task_state t = Answered) (wi_tasks i')))"
  using run_tasks [OF assms, of C d "new_interceptor roots cwd servers" ops]
  by (simp add: new_interceptor_def answered_ids_def case_prod_beta)

section \<open>Every request comes to an end\<close>





section \<open>What an answer says, and what a refusal leaves\<close>

lemma rpc_result_cases:
  "rpc_result C f r = Inr v \<longleftrightarrow> (\<exists>x. r = Inr x \<and> v = f x)"
  "rpc_result C f r = Inl e \<longleftrightarrow> (\<exists>e'. r = Inl e' \<and> e = to_rpc_error C e')"
  by (auto simp: rpc_result_def split: sum.split)


lemma refused_write: "write_text_file d roots path c = (Inl e, d') \<Longrightarrow> error_code e \<noteq> -32603 \<Longrightarrow> d' = d"
  by (auto simp: write_text_file_def resolve_within_def Let_def split: if_splits sum.splits option.splits)

lemma refused_create:
  "workspace_create_terminal d sp ws c a dir l = (Inl e, ws') \<Longrightarrow> error_code e \<noteq> -32603 \<Longrightarrow> ws' = ws"
  by (auto simp: workspace_create_terminal_def create_terminal_def case_prod_beta Let_def split: sum.splits)

lemma refused_kill: "kill_terminal t ts = (Inl e, ts') \<Longrightarrow> ts' = ts"
  by (auto simp: kill_terminal_def Let_def split: sum.splits)

lemma released: "release_terminal t ts \<noteq> (Inl e, ts')"
  by (simp add: release_terminal_def Let_def)

lemma error_codes: "error_code e \<noteq> -32602 \<Longrightarrow> error_code e \<noteq> -32603 \<Longrightarrow> error_code e = -32002"
  by (cases e) auto

lemma typed_params_code: "typed_params de f = Inl e \<Longrightarrow> err_code e = -32602 \<and> err_data e = None"
  by (auto simp: typed_params_def invalid_params_def split: sum.splits option.splits)

text \<open>
  A refusal carries the code that says whose fault it was: -32602 for a request that
  cannot be read or leads outside the workspace, -32002 for what does not exist, -32603
  when the system failed; and after either of the first two the disk, the terminals and
  everything else are exactly as before.
\<close>

theorem refusals_change_nothing:
  assumes "handle_capability C sp m f w = (Done (Inl e), w')" and "is_server_provided_capability m"
  shows "err_code e \<in> {-32602, -32002, -32603} \<and> err_data e = None \<and>
    (err_code e \<noteq> -32603 \<longrightarrow> w' = w)"
proof -
  obtain d i where w: "w = (d, i)" by (cases w)
  let ?refusal = "err_code e = -32602 \<and> err_data e = None \<and> w' = w \<or>
    (\<exists>x. e = to_rpc_error C x \<and> (error_code x \<noteq> -32603 \<longrightarrow> w' = w))"
  consider "read_request C f w = (Done (Inl e), w')" | "write_request C f w = (Done (Inl e), w')"
    | "create_terminal_request C sp f w = (Done (Inl e), w')" | "output_request C f w = (Done (Inl e), w')"
    | "wait_request C f w = (Done (Inl e), w')" | "kill_request C f w = (Done (Inl e), w')"
    | "release_request C f w = (Done (Inl e), w')"
    using assms by (auto simp: handle_capability_def is_server_provided_capability_def split: if_splits)
  then have ?refusal
  proof cases
    case 1
    then show ?thesis
      by (cases "typed_params (de_read_file C) f")
        (auto simp: read_request_def rpc_result_cases dest: typed_params_code)
  next
    case 2
    then show ?thesis
      using refused_write [of d "ws_roots (wi_workspace i)"]
      by (cases "typed_params (de_write_file C) f")
        (auto simp: write_request_def workspace_write_def rpc_result_cases w dest: typed_params_code
          split: prod.splits sum.splits)
  next
    case 3
    then show ?thesis
      using refused_create [of d sp "wi_workspace i"]
      by (cases "typed_params (de_create_terminal C) f")
        (auto simp: create_terminal_request_def rpc_result_cases w dest: typed_params_code
          split: prod.splits)
  next
    case 4
    then show ?thesis
      by (cases "typed_params (de_output C) f")
        (auto simp: output_request_def rpc_result_cases dest: typed_params_code)
  next
    case 5
    then show ?thesis
      by (cases "typed_params (de_wait C) f")
        (auto simp: wait_request_def dest: typed_params_code split: sum.splits)
  next
    case 6
    then show ?thesis
      using refused_kill [of _ "ws_terminals (wi_workspace i)"]
      by (cases "typed_params (de_kill C) f")
        (auto simp: kill_request_def on_terminals_def rpc_result_cases w Let_def dest: typed_params_code
          split: prod.splits)
  next
    case 7
    then show ?thesis
      using released [of _ "ws_terminals (wi_workspace i)"]
      by (cases "typed_params (de_release C) f")
        (auto simp: release_request_def on_terminals_def rpc_result_cases w Let_def dest: typed_params_code
          split: prod.splits)
  qed
  then show ?thesis using error_codes by (auto simp: to_rpc_error_def)
qed

section \<open>What happens to the terminals\<close>

text \<open>Between two steps the terminals are left alone, do a step of their own, or a write is announced.\<close>

inductive work_step :: "terminals \<Rightarrow> terminals \<Rightarrow> bool" where
  Idle: "work_step ts ts"
| Works: "work_step ts (terminal_step ts op)"
| Writes: "work_step ts (ts\<lparr>events := events ts @ [FileWritten path old new]\<rparr>)"

definition terminals_of :: "workspace_interceptor \<Rightarrow> terminals" where
  "terminals_of i = ws_terminals (wi_workspace i)"

lemma terminals_of_simps [simp]:
  "terminals_of (i\<lparr>wi_workspace := ws\<rparr>) = ws_terminals ws" "terminals_of (i\<lparr>wi_mcp := h\<rparr>) = terminals_of i"
  "terminals_of (i\<lparr>wi_started := b\<rparr>) = terminals_of i" "terminals_of (i\<lparr>wi_mirrored := k\<rparr>) = terminals_of i"
  "terminals_of (i\<lparr>wi_tasks := t\<rparr>) = terminals_of i"
  by (simp_all add: terminals_of_def)

lemma work_kill: "work_step ts (snd (kill_terminal t ts))"
  using Works [of ts "KillT t"] by simp

lemma work_release: "work_step ts (snd (release_terminal t ts))"
  using Works [of ts "ReleaseT t"] by simp

lemma work_release_all: "work_step ts (release_all ts)"
  using Works [of ts ReleaseAllT] by simp

lemma work_create: "work_step ts (snd (create_terminal sp c a dir l ts))"
  using Works [of ts "CreateT sp c a dir l"] by simp

lemma work_workspace_create:
  "work_step (ws_terminals ws) (ws_terminals (snd (workspace_create_terminal d sp ws c a dir l)))"
  using work_create Idle by (auto simp: workspace_create_terminal_def case_prod_beta Let_def split: sum.split)

lemma work_workspace_write:
  "work_step (ws_terminals ws) (ws_terminals (snd (snd (workspace_write d ws path content))))"
  using Writes Idle by (auto simp: workspace_write_def split: prod.split sum.split)

lemma work_requests:
  "work_step (terminals_of (snd w)) (terminals_of (snd (snd (read_request C f w))))"
  "work_step (terminals_of (snd w)) (terminals_of (snd (snd (write_request C f w))))"
  "work_step (terminals_of (snd w)) (terminals_of (snd (snd (create_terminal_request C sp f w))))"
  "work_step (terminals_of (snd w)) (terminals_of (snd (snd (output_request C f w))))"
  "work_step (terminals_of (snd w)) (terminals_of (snd (snd (wait_request C f w))))"
  "work_step (terminals_of (snd w)) (terminals_of (snd (snd (kill_request C f w))))"
  "work_step (terminals_of (snd w)) (terminals_of (snd (snd (release_request C f w))))"
  using Idle work_kill [of "terminals_of (snd w)"] work_release [of "terminals_of (snd w)"]
    work_workspace_write [of "wi_workspace (snd w)"] work_workspace_create [of "wi_workspace (snd w)"]
  by (simp_all add: read_request_def write_request_def create_terminal_request_def output_request_def
      wait_request_def kill_request_def release_request_def on_terminals_def case_prod_beta Let_def
      split: sum.split) (simp_all add: terminals_of_def)

lemma work_run: "work_step (terminals_of (snd w)) (terminals_of (snd (snd (run_request E C sp m f w))))"
  using Idle by (simp add: run_request_def handle_capability_def work_requests case_prod_beta Let_def)

lemma work_turn: "work_step (terminals_of (snd w)) (terminals_of (snd (snd (task_turn E C sp dead n w))))"
proof -
  have "work_step (terminals_of (snd w))
      (terminals_of (snd (snd (run_request E C sp (task_method t) (task_frame t) w))))" for t
    by (rule work_run)
  then show ?thesis
    by (auto simp: task_turn_def set_task_def Let_def intro: Idle
        split: task_state.split outcome.split prod.split option.split) (metis snd_conv)+
qed

lemma work_interceptor:
  "work_step (terminals_of (snd w)) (terminals_of (snd (snd (interceptor_step E C op w))))"
proof -
  obtain d i where w: "w = (d, i)" by (cases w)
  show ?thesis
  proof (cases op)
    case (AgentFrame f)
    then show ?thesis
      by (cases f) (simp_all add: w intercept_agent_def queue_task_def Idle case_prod_beta Let_def)
  next
    case (TaskTurn sp dead n)
    then show ?thesis using work_turn [of w E C sp dead n] by (simp add: w Idle case_prod_beta Let_def)
  next
    case (TerminalReads n chunk)
    then show ?thesis
      using Works [of "terminals_of i" "ReadT n chunk"]
      by (simp add: w on_workspace_terminals_def terminals_of_def)
  next
    case (TerminalExits n st)
    then show ?thesis
      using Works [of "terminals_of i" "ExitT n st"]
      by (simp add: w on_workspace_terminals_def terminals_of_def)
  next
    case StopInterceptor
    then show ?thesis
      using work_release_all [of "terminals_of i"]
      by (simp add: w stop_interceptor_def release_all_terminals_def terminals_of_def)
  qed (simp_all add: w Idle intercept_client_same start_interceptor_def mirror_turn_def case_prod_beta Let_def)
qed

lemma kill_events: "events (snd (kill_terminal t ts)) = events ts"
  by (simp add: kill_terminal_def Let_def split: sum.split)

lemma release_events: "events (snd (release_terminal t ts)) = events ts"
  by (simp add: release_terminal_def kill_events Let_def)

lemma work_events:
  assumes "work_step ts ts'"
  shows "\<exists>new. events ts' = events ts @ new"
  using assms
proof cases
  case (Works op)
  have all: "events (foldl (\<lambda>ts t. snd (release_terminal t ts)) ts xs) = events ts" for xs
    by (induction xs arbitrary: ts) (simp_all add: release_events)
  with Works show ?thesis
    by (cases op) (auto simp: create_terminal_def reader_step_def waiter_step_def kill_events release_events
        release_all_def Let_def split: sum.split)
qed auto




section \<open>Nothing outlives the connection\<close>


section \<open>The browser sees what happened\<close>

definition browser_frames :: "(direction \<times> frame) list \<Rightarrow> frame list" where
  "browser_frames out = map snd (filter (\<lambda>(d, f). d = AgentToClient) out)"

lemma browser_frames_simps [simp]:
  "browser_frames [] = []" "browser_frames (xs @ ys) = browser_frames xs @ browser_frames ys"
  "browser_frames (map (Pair AgentToClient) fs) = fs" "browser_frames (map (Pair ClientToAgent) fs) = []"
  by (simp_all add: browser_frames_def filter_map o_def)

definition mirrored :: "('a) serde_scheme \<Rightarrow> client_env \<Rightarrow> workspace_interceptor \<Rightarrow> frame list" where
  "mirrored E C i = concat (map (\<lambda>ev. notify_frames E (mirror C ev)) (take (wi_mirrored i) (events (terminals_of i))))"

lemma step_mirrors:
  assumes "wi_mirrored (snd w) \<le> length (events (terminals_of (snd w)))"
  shows "mirrored E C (snd (snd (interceptor_step E C op w))) =
      mirrored E C (snd w) @ browser_frames (fst (interceptor_step E C op w)) \<and>
    wi_mirrored (snd (snd (interceptor_step E C op w))) \<le>
      length (events (terminals_of (snd (snd (interceptor_step E C op w)))))"
proof -
  obtain d i where w: "w = (d, i)" by (cases w)
  let ?i = "snd (snd (interceptor_step E C op w))"
  obtain new where new: "events (terminals_of ?i) = events (terminals_of i) @ new"
    using work_events [OF work_interceptor [of w E C op]] w by auto
  have quiet: ?thesis
    if "wi_mirrored ?i = wi_mirrored i" "browser_frames (fst (interceptor_step E C op w)) = []"
    using that new assms by (simp add: mirrored_def w)
  show ?thesis
  proof (cases op)
    case (AgentFrame f)
    then show ?thesis
      by (intro quiet; cases f) (simp_all add: w intercept_agent_def queue_task_def case_prod_beta Let_def)
  next
    case (TaskTurn sp dead n)
    show ?thesis
    proof (cases "n < length (wi_tasks i)")
      case True
      then obtain i' st where "snd (snd (task_turn E C sp dead n w)) = set_task n st i'" "same_but_work i i'"
        using task_turn_cases [of n w E C sp dead] w by auto
      then have "wi_mirrored (snd (snd (task_turn E C sp dead n w))) = wi_mirrored i"
        by (simp add: same_but_work_def set_task_def)
      with True TaskTurn w show ?thesis by (intro quiet) (simp_all add: case_prod_beta Let_def)
    next
      case False
      with TaskTurn w show ?thesis by (intro quiet) simp_all
    qed
  next
    case MirrorTurn
    show ?thesis
    proof (cases "wi_started i \<and> wi_mirrored i < length (events (terminals_of i))")
      case True
      with MirrorTurn w show ?thesis
        by (simp add: mirror_turn_def mirrored_def terminals_of_def take_Suc_conv_app_nth)
    next
      case False
      with MirrorTurn w show ?thesis by (intro quiet) (auto simp: mirror_turn_def terminals_of_def Let_def)
    qed
  qed (intro quiet; simp add: w intercept_client_same start_interceptor_def stop_interceptor_def
      on_workspace_terminals_def case_prod_beta Let_def)+
qed

text \<open>
  Everything the interceptor sends the browser is the mirror of the workspace's events:
  of the first so many of them, each once, in the order they happened, with nothing added
  and nothing left out.
\<close>

theorem events_are_mirrored_in_order:
  "let (out, d', i) = interceptor_run E C ([], d, new_interceptor roots cwd servers) ops
   in browser_frames out =
        concat (map (\<lambda>ev. notify_frames E (mirror C ev)) (take (wi_mirrored i) (events (terminals_of i)))) \<and>
      wi_mirrored i \<le> length (events (terminals_of i))"
proof (induction ops rule: rev_induct)
  case Nil
  show ?case by (simp add: new_interceptor_def)
next
  case (snoc op ops)
  obtain out d' i where "interceptor_run E C ([], d, new_interceptor roots cwd servers) ops = (out, d', i)"
    by (cases "interceptor_run E C ([], d, new_interceptor roots cwd servers) ops") auto
  with snoc step_mirrors [of "(d', i)" E C op] show ?case
    by (simp add: mirrored_def case_prod_beta)
qed

end
