(* ===== verification/Interceptor_Demo.thy ===== *)
theory Interceptor_Demo
  imports Interceptor_Props
begin

text \<open>
  A concrete client: requests that always read the same way, on the disk of
  \<open>Workspace_Props\<close>, and the instances of the theorems of \<open>Interceptor_Props\<close> there.
\<close>

definition demo_client :: client_env where
  "demo_client = \<lparr>hosting = demo_host_env,
     de_read_file = (\<lambda>r. Inr (''/w/a'', None, None)), de_write_file = (\<lambda>r. Inr (''/w/new'', ''text'')),
     de_create_terminal = (\<lambda>r. Inr \<lparr>ct_command = ''sleep'', ct_args = [''9''], ct_cwd = None, ct_limit = None\<rparr>),
     de_output = Inr, de_wait = Inr, de_kill = Inr, de_release = Inr,
     os_text = (\<lambda>p. ''refused''), base64 = (\<lambda>b. [])\<rparr>"

definition demo_interceptor :: workspace_interceptor where
  "demo_interceptor = new_interceptor [''/w''] ''/w'' []"

definition read_call :: frame where
  "read_call = Request (IdNumber 1) ''fs/read_text_file'' (Some ''{}'')"

lemma prints_toy [simp]: "prints_values (toy_serde known)"
  by (simp add: prints_values_def toy_serde_def)

theorem each_request_is_answered_once_witness:
  "let (out, d', i') = interceptor_run (toy_serde []) demo_client
         ([], demo_disk, new_interceptor [''/w''] ''/w'' []) [AgentFrame read_call, TaskTurn (Inr ()) False 0]
   in map task_key (wi_tasks i') = [(IdNumber 1, ''fs/read_text_file'', Some ''{}'')] \<and>
      mset (answer_ids out) = mset (map task_id (filter (\<lambda>t. task_state t = Answered) (wi_tasks i')))"
  using each_request_is_answered_once [OF prints_toy, of "[]" demo_client demo_disk "[''/w'']" "''/w''" "[]"
      "[AgentFrame read_call, TaskTurn (Inr ()) False 0]"]
  by (simp add: requests_for_def List.map_filter_simps read_call_def is_ours_def
      is_server_provided_capability_def)




theorem refusals_change_nothing_witness:
  "\<exists>e. handle_capability demo_client (Inr ()) ''terminal/kill'' (Request (IdNumber 2) ''terminal/kill'' (Some ''term-7''))
         (demo_disk, demo_interceptor) = (Done (Inl e), demo_disk, demo_interceptor) \<and> err_code e = -32002"
proof -
  let ?f = "Request (IdNumber 2) ''terminal/kill'' (Some ''term-7'')"
  let ?e = "to_rpc_error demo_client (NoSuchTerminal ''term-7'')"
  obtain w' where run: "handle_capability demo_client (Inr ()) ''terminal/kill'' ?f (demo_disk, demo_interceptor) =
      (Done (Inl ?e), w')"
    by (simp add: handle_capability_def kill_request_def typed_params_def params_as_def demo_client_def
        on_terminals_def kill_terminal_def get_terminal_def rpc_result_def demo_interceptor_def
        new_interceptor_def new_workspace_def new_terminals_def Let_def)
  have code: "err_code ?e = -32002" by (simp add: to_rpc_error_def)
  have "is_server_provided_capability ''terminal/kill''" by (simp add: is_server_provided_capability_def)
  from refusals_change_nothing [OF run this] code run show ?thesis by auto
qed


end
