(* ===== verification/System.thy ===== *)
theory System
  imports Relay_Demo Interceptor_Demo
begin

text \<open>
  One connection as it runs: the relay of \<open>relay.rs\<close> with the interceptor of
  \<open>workspace_interceptor.rs\<close> plugged in, and the disk. Two tasks read lines, the
  interceptor has tasks, threads and servers of its own, sockets come and go; a step of
  the system is one uninterrupted piece of any of these, in any order.
\<close>

declare to_line.simps [simp del]

section \<open>The interceptor plugged into the relay\<close>

definition wired :: "(workspace_interceptor, 'a) relay_env_scheme \<Rightarrow> (workspace_interceptor, 'a) relay_env_scheme" where
  "wired E = E\<lparr>on_client_frame := intercept_client E, on_agent_frame := intercept_agent E\<rparr>"

type_synonym system = "disk \<times> workspace_interceptor relay"

definition boot ::
  "disk \<Rightarrow> string list \<Rightarrow> path \<Rightarrow> mcp_server_config list \<Rightarrow> agent_info \<Rightarrow> system" where
  "boot d roots cwd servers info =
     (d, new_relay (start_interceptor (new_interceptor roots cwd servers)) info servers)"

text \<open>What goes on beside the two tasks that read lines.\<close>

fun in_background :: "interceptor_op \<Rightarrow> bool" where
  "in_background (ClientFrame f) = False"
| "in_background (AgentFrame f) = False"
| "in_background _ = True"

definition background ::
  "(workspace_interceptor, 'a) relay_env_scheme \<Rightarrow> client_env \<Rightarrow> interceptor_op \<Rightarrow> system \<Rightarrow> system" where
  "background E C op s =
     (let (out, d, i) = interceptor_step E C op (fst s, interceptor (snd s))
      in (d, write_out E out ((snd s)\<lparr>interceptor := i\<rparr>)))"

fun socket_op :: "sink_op \<Rightarrow> bool" where
  "socket_op (Detach g) = True"
| "socket_op (WriterEnds n) = True"
| "socket_op _ = False"

inductive sys_step ::
  "(workspace_interceptor, 'a) relay_env_scheme \<Rightarrow> client_env \<Rightarrow> system \<Rightarrow> system \<Rightarrow> bool" for E C where
  Browser_Line: "sys_step E C (d, r) (d, handle (wired E) ClientToAgent line r)"
| Agent_Line: "sys_step E C (d, r) (d, handle (wired E) AgentToClient line r)"
| Attached: "sys_step E C (d, r) (d, relay_step (wired E) r NewBrowser)"
| Socket: "socket_op op \<Longrightarrow> sys_step E C (d, r) (d, relay_step (wired E) r (SinkEvent op))"
| Notice: "m \<in> {AGENT_STDERR, CONNECTION_TAKEN_OVER} \<Longrightarrow> sys_step E C (d, r) (d, notify_browser E m v r)"
| Background: "in_background op \<Longrightarrow> sys_step E C s (background E C op s)"

abbreviation runs_to ::
  "(workspace_interceptor, 'a) relay_env_scheme \<Rightarrow> client_env \<Rightarrow> system \<Rightarrow> system \<Rightarrow> bool" where
  "runs_to E C \<equiv> (sys_step E C)\<^sup>*\<^sup>*"

text \<open>Only the interceptor fields differ, and nothing modelled here reads them but \<open>ask_interceptor\<close>.\<close>

lemma wired_serde [simp]:
  "de_wire (wired E) = de_wire E" "ser_string (wired E) = ser_string E" "ser_error (wired E) = ser_error E"
  "de_value (wired E) = de_value E" "ser_value (wired E) = ser_value E"
  "on_client_frame (wired E) = intercept_client E" "on_agent_frame (wired E) = intercept_agent E"
  by (simp_all add: wired_def)

lemma ser_id_wired [simp]: "ser_id (wired E) j = ser_id E j"
  by (cases j) simp_all

lemma wired_text [simp]: "parse (wired E) line = parse E line" "to_line (wired E) f = to_line E f"
proof -
  show "parse (wired E) line = parse E line" by (simp add: parse_def)
  show "to_line (wired E) f = to_line E f"
  proof (cases f)
    case (Response j p)
    then show ?thesis by (cases p) (simp_all add: to_line.simps)
  qed (simp_all add: to_line.simps)
qed

section \<open>The browser is never asked\<close>

definition served :: "mcp_server_config list \<Rightarrow> frame \<Rightarrow> bool" where
  "served servers f \<longleftrightarrow>
     (\<exists>j m p. f = Request j m p \<and> (is_server_provided_capability m \<or>
        is_mcp_over_acp m \<and> List.map_filter hosted_launch servers \<noteq> []))"

text \<open>A line the browser may be sent: that of a frame it can answer, or one nobody could read.\<close>

definition for_a_browser :: "('a) serde_scheme \<Rightarrow> mcp_server_config list \<Rightarrow> string \<Rightarrow> bool" where
  "for_a_browser E servers line \<longleftrightarrow>
     (\<exists>f. line = to_line E f \<and> \<not> served servers f) \<or> (\<exists>e. parse E line = Inl e)"

definition sink_safe :: "('a) serde_scheme \<Rightarrow> mcp_server_config list \<Rightarrow> sink \<Rightarrow> bool" where
  "sink_safe E servers s \<longleftrightarrow>
     (\<forall>ch \<in> set (channels s). \<forall>l \<in> set (ch_lines ch). for_a_browser E servers l)"

definition relay_safe ::
  "('a) serde_scheme \<Rightarrow> mcp_server_config list \<Rightarrow> workspace_interceptor relay \<Rightarrow> bool" where
  "relay_safe E servers r \<longleftrightarrow> sink_safe E servers (to_browser_sink r) \<and>
     (\<forall>f \<in> set (unanswered r). \<not> served servers f) \<and>
     (h_configured (wi_mcp (interceptor r)) = [] \<longleftrightarrow> List.map_filter hosted_launch servers = [])"

lemma sink_safe_update:
  assumes "sink_safe E servers s" and "\<And>l. l \<in> set (ch_lines ch) \<Longrightarrow> for_a_browser E servers l"
  shows "sink_safe E servers (s\<lparr>channels := (channels s)[n := ch]\<rparr>)"
proof -
  have "set ((channels s)[n := ch]) \<subseteq> insert ch (set (channels s))" by (rule set_update_subset_insert)
  then show ?thesis using assms by (auto simp: sink_safe_def)
qed

lemma sink_safe_lines:
  "sink_safe E servers s \<Longrightarrow> n < length (channels s) \<Longrightarrow> l \<in> set (ch_lines (channels s ! n)) \<Longrightarrow>
     for_a_browser E servers l"
  unfolding sink_safe_def by (meson nth_mem)

lemma sink_safe_send:
  assumes "sink_safe E servers s" and "for_a_browser E servers l"
  shows "sink_safe E servers (sink_send l s)"
proof (cases "sender s")
  case None
  with assms show ?thesis by (simp add: sink_send_def)
next
  case (Some n)
  show ?thesis
  proof (cases "ch_closed (channels s ! n)")
    case True
    with Some assms(1) show ?thesis by (simp add: sink_send_def sink_safe_def)
  next
    case False
    show ?thesis
    proof (cases "n < length (channels s)")
      case inside: True
      have "sink_safe E servers
          (s\<lparr>channels := (channels s)[n := (channels s ! n)\<lparr>ch_lines := ch_lines (channels s ! n) @ [l]\<rparr>]\<rparr>)"
        using sink_safe_lines [OF assms(1) inside] assms(2) by (intro sink_safe_update [OF assms(1)]) auto
      with Some False show ?thesis by (simp add: sink_send_def)
    next
      case outside: False
      then have "length (channels s) \<le> n" by simp
      with Some False assms(1) show ?thesis by (simp add: sink_send_def sink_safe_def list_update_beyond)
    qed
  qed
qed

lemma sink_safe_send_all:
  "sink_safe E servers s \<Longrightarrow> (\<And>l. l \<in> set ls \<Longrightarrow> for_a_browser E servers l) \<Longrightarrow>
     sink_safe E servers (send_all ls s)"
  by (induction ls arbitrary: s) (auto intro: sink_safe_send)

lemma for_a_browser_frame: "\<not> served servers f \<Longrightarrow> for_a_browser E servers (to_line E f)"
  by (auto simp: for_a_browser_def)

lemma not_served [simp]: "\<not> served servers (Response j p)" "\<not> served servers (Notification m q)"
  by (simp_all add: served_def)

lemma sink_safe_notify:
  "sink_safe E servers s \<Longrightarrow> sink_safe E servers (notify_sink E m v s)"
  by (auto simp: notify_sink_def notification_def split: sum.splits
      intro!: sink_safe_send for_a_browser_frame)

lemma sink_safe_ops:
  assumes "sink_safe E servers s"
  shows "sink_safe E servers (snd (snd (sink_attach s)))" "socket_op op \<Longrightarrow> sink_safe E servers (sink_step s op)"
proof -
  show "sink_safe E servers (snd (snd (sink_attach s)))"
    using assms by (auto simp: sink_safe_def sink_attach_def Let_def)
  show "sink_safe E servers (sink_step s op)" if "socket_op op"
    using that
  proof (cases op)
    case (WriterEnds n)
    then show ?thesis
      using assms sink_safe_lines [OF assms, of n]
      by (auto simp: close_channel_def intro!: sink_safe_update)
  qed (use assms in \<open>auto simp: sink_safe_def sink_detach_def\<close>)
qed

text \<open>Sending, whatever the direction.\<close>

lemma safe_send_line:
  "relay_safe E servers r \<Longrightarrow> (d = AgentToClient \<Longrightarrow> for_a_browser E servers l) \<Longrightarrow>
     relay_safe E servers (send_line d l r)"
  by (cases d) (simp_all add: relay_safe_def send_line_simps sink_safe_send)

lemma safe_notify: "relay_safe E servers r \<Longrightarrow> relay_safe E servers (notify_browser E m v r)"
  by (simp add: relay_safe_def notify_browser_eq sink_safe_notify)

lemma safe_announce: "relay_safe E servers r \<Longrightarrow> relay_safe E servers (announce E m b r)"
  by (simp add: relay_safe_def announce_def notify_browser_eq sink_safe_notify case_prod_beta Let_def)

lemma safe_announce_after:
  "relay_safe E servers r \<Longrightarrow> relay_safe E servers (announce_after_handshake E d f l r)"
  by (simp add: announce_after_handshake_def safe_announce split: option.split)

lemma safe_forward:
  assumes "relay_safe E servers r" and "d = AgentToClient \<Longrightarrow> \<not> served servers f"
  shows "relay_safe E servers (forward E d f ends r)"
proof (cases d)
  case ClientToAgent
  with assms(1) show ?thesis by (simp add: forward_client) (rule safe_send_line, simp_all)
next
  case AgentToClient
  show ?thesis
  proof (cases f)
    case (Response j payload)
    have "relay_safe E servers (r\<lparr>ids := b\<rparr>)" for b using assms(1) by (simp add: relay_safe_def)
    then show ?thesis
      using AgentToClient Response
      by (auto simp: forward_def case_prod_beta Let_def split: option.split
          intro!: safe_send_line safe_notify for_a_browser_frame)
  qed (use AgentToClient assms in \<open>simp_all add: forward_agent safe_send_line for_a_browser_frame\<close>)
qed

lemma safe_fields:
  assumes "relay_safe E servers r"
    and "to_browser_sink r' = to_browser_sink r" "set (unanswered r') \<subseteq> set (unanswered r)"
      "interceptor r' = interceptor r"
  shows "relay_safe E servers r'"
  using assms by (auto simp: relay_safe_def)

lemma observe_frame_fields:
  "to_browser_sink (snd (snd (observe_frame E d f r))) = to_browser_sink r"
  "set (unanswered (snd (snd (observe_frame E d f r)))) \<subseteq> set (unanswered r)"
  "interceptor (snd (snd (observe_frame E d f r))) = interceptor r"
  by (auto simp: observe_frame_def forget_questions_def settle_unanswered_def case_prod_beta Let_def
      split: option.splits direction.splits frame.splits)

lemma rebind_fields:
  "to_browser_sink (snd (rebind d f r)) = to_browser_sink r" "unanswered (snd (rebind d f r)) = unanswered r"
  "interceptor (snd (rebind d f r)) = interceptor r"
  by (cases d; cases f; simp add: rebind_def case_prod_beta Let_def)+

lemma add_servers_fields:
  "to_browser_sink (snd (add_servers E d f r)) = to_browser_sink r"
  "unanswered (snd (add_servers E d f r)) = unanswered r"
  "interceptor (snd (add_servers E d f r)) = interceptor r"
  by (simp_all add: add_servers_def case_prod_beta)

lemma recording_fields:
  assumes "answer_from_recording E f r = (b, r')" and "relay_safe E servers r"
  shows "relay_safe E servers r'"
proof (cases f)
  case (Request j m p)
  have "relay_safe E servers (r\<lparr>handshake := h\<rparr>)" for h
    using assms(2) by (rule safe_fields) simp_all
  then show ?thesis
    using assms(1) Request
    by (auto simp: answer_from_recording_def to_browser_def case_prod_beta Let_def split: option.splits
        intro!: safe_announce safe_send_line for_a_browser_frame)
qed (use assms in \<open>simp_all add: answer_from_recording_def\<close>)

text \<open>The interceptor lets a request through to the browser only if it is not served here.\<close>

lemma ask_wired:
  "ask_interceptor (wired E) d f r =
     (let (disp, out, i) = (case d of ClientToAgent \<Rightarrow> intercept_client E | AgentToClient \<Rightarrow> intercept_agent E)
            (interceptor r) f
      in (disp, r\<lparr>interceptor := i\<rparr>))"
  by (cases d; cases f; simp add: ask_interceptor_def intercept_client_def intercept_agent_def write_out_def
      case_prod_beta Let_def split: option.split)

lemma wired_safe: "relay_safe (wired E) servers r = relay_safe E servers r"
proof -
  have "for_a_browser (wired E) servers = for_a_browser E servers"
    by (rule ext) (simp add: for_a_browser_def)
  then show ?thesis by (simp add: relay_safe_def sink_safe_def)
qed

lemma ask_decides:
  assumes "ask_interceptor (wired E) d f r = (disp, r1)" and "relay_safe E' servers r"
  shows "relay_safe E' servers r1 \<and>
    (d = AgentToClient \<longrightarrow> disp \<noteq> Intercept \<longrightarrow> disp = Forward \<and> \<not> served servers f)"
proof (cases d)
  case ClientToAgent
  with assms show ?thesis
    by (auto simp: ask_wired intercept_client_def relay_safe_def Let_def split: option.splits)
next
  case AgentToClient
  have conf: "h_configured (wi_mcp (snd (snd (intercept_agent E (interceptor r) f)))) =
      h_configured (wi_mcp (interceptor r))"
    by (rule intercept_agent_tasks)
  have "relay_safe E' servers r1"
    using assms AgentToClient conf by (auto simp: ask_wired relay_safe_def case_prod_beta Let_def)
  moreover have "disp = Forward \<and> \<not> served servers f" if "disp \<noteq> Intercept"
    using assms AgentToClient that
    by (cases f) (auto simp: ask_wired intercept_agent_def is_ours_def is_configured_def served_def
        relay_safe_def case_prod_beta Let_def split: if_splits)
  ultimately show ?thesis by simp
qed

lemma safe_dispose:
  assumes "relay_safe E servers r"
    and "d = AgentToClient \<Longrightarrow> disp \<noteq> Intercept \<Longrightarrow> disp = Forward \<and> \<not> served servers f"
  shows "relay_safe E servers (dispose E d f l e disp r)"
proof (cases disp)
  case Forward
  let ?r = "if d = AgentToClient \<and> is_request f then r\<lparr>unanswered := unanswered r @ [f]\<rparr> else r"
  have "relay_safe E servers ?r"
    using assms Forward by (auto simp: relay_safe_def)
  then have "relay_safe E servers (forward E d f e ?r)"
    by (rule safe_forward) (use assms(2) Forward in simp)
  then have "relay_safe E servers (announce_after_handshake E d f l (forward E d f e ?r))"
    by (rule safe_announce_after)
  with Forward show ?thesis by (simp add: dispose_def Let_def)
next
  case (Rewrite g)
  then have "d = ClientToAgent" using assms(2) by (cases d) auto
  with Rewrite assms(1) show ?thesis by (simp add: dispose_def forward_client) (rule safe_send_line, simp_all)
next
  case Intercept
  with assms(1) show ?thesis by (simp add: dispose_def safe_notify)
qed

lemma safe_relay_frame:
  assumes "relay_safe E' servers r" and "E' = wired E"
  shows "relay_safe E' servers (relay_frame E' d f r)"
proof -
  obtain f1 r1 where b: "rebind d f r = (f1, r1)" by (rule prod.exhaust)
  obtain f2 r2 where m: "add_servers E' d f1 r1 = (f2, r2)" by (rule prod.exhaust)
  obtain l e r3 where o: "observe_frame E' d f2 r2 = (l, e, r3)" by (rule prod_cases3)
  obtain disp r4 where a: "ask_interceptor E' d f2 r3 = (disp, r4)" by (rule prod.exhaust)
  have "relay_safe E' servers r1"
    using assms(1) by (rule safe_fields) (use rebind_fields [of d f r] b in simp_all)
  then have "relay_safe E' servers r2"
    by (rule safe_fields) (use add_servers_fields [of E' d f1 r1] m in simp_all)
  then have "relay_safe E' servers r3"
    by (rule safe_fields) (use observe_frame_fields [of E' d f2 r2] o in simp_all)
  from ask_decides [OF a [unfolded assms(2)] this] show ?thesis
    by (auto simp: relay_frame_def b m o a intro: safe_dispose)
qed

lemma safe_handle:
  assumes "relay_safe E' servers r" and "E' = wired E"
  shows "relay_safe E' servers (handle E' d line r)"
proof (cases "parse E' line")
  case (Inl e)
  then have "for_a_browser E' servers line" by (simp add: for_a_browser_def)
  with Inl assms(1) show ?thesis by (simp add: handle_def safe_send_line)
next
  case (Inr f)
  show ?thesis
  proof (cases "d = ClientToAgent \<and> extension_call f")
    case True
    have answers: "\<exists>p. replay_reply E' g j s = Response j p" for g j s
      using replay_reply_id [of E' g j s] by (cases "replay_reply E' g j s") auto
    have [simp]: "\<not> served servers (replay_reply E' g j s)" for g j s
      using answers [of g j s] by auto
    have "sink_safe E' servers (to_browser_sink (handle E' d line r))"
      using assms(1) True handle_extension_eq [OF Inr, of r]
      by (cases f) (auto simp: relay_safe_def intro!: sink_safe_send_all sink_safe_send for_a_browser_frame)
    then show ?thesis
      using assms(1) True handle_extension_eq [OF Inr, of r] by (cases f) (simp_all add: relay_safe_def)
  next
    case False
    obtain b r1 where a: "(if d = ClientToAgent then answer_from_recording E' f r else (False, r)) = (b, r1)"
      by (rule prod.exhaust)
    have "relay_safe E' servers r1"
      using a assms(1) recording_fields [of E' f r b r1 servers] by (auto split: if_splits)
    with False Inr a show ?thesis by (auto simp: handle_def intro!: safe_relay_frame [OF _ assms(2)])
  qed
qed

lemma step_configured_same:
  "h_configured (wi_mcp (snd (snd (interceptor_step E C op w)))) = h_configured (wi_mcp (snd w))"
proof -
  obtain d i where w: "w = (d, i)" by (cases w)
  show ?thesis
  proof (cases op)
    case (TaskTurn sp dead n)
    show ?thesis
    proof (cases "n < length (wi_tasks i)")
      case True
      then obtain i' st where "snd (snd (task_turn E C sp dead n w)) = set_task n st i'" "same_but_work i i'"
        using task_turn_cases [of n w E C sp dead] w by auto
      then have "h_configured (wi_mcp (snd (snd (task_turn E C sp dead n w)))) = h_configured (wi_mcp i)"
        by (simp add: same_but_work_def set_task_def)
      with True TaskTurn w show ?thesis by (simp add: case_prod_beta Let_def)
    qed (simp add: TaskTurn w)
  qed (simp_all add: w intercept_client_same intercept_agent_tasks start_interceptor_def stop_interceptor_def
      on_workspace_terminals_def mirror_turn_same case_prod_beta Let_def)
qed

lemma background_lines:
  assumes "in_background op" and "(AgentToClient, f) \<in> set (fst (interceptor_step E C op w))"
  shows "\<not> served servers f"
proof -
  obtain d i where w: "w = (d, i)" by (cases w)
  have "\<exists>m q. f = Notification m q"
    using assms
    by (cases op) (auto simp: w mirror_turn_def notify_frames_def notification_def case_prod_beta Let_def
        split: if_splits sum.splits)
  then show ?thesis by auto
qed

lemma safe_step:
  assumes "sys_step E C s s'" and "relay_safe (wired E) servers (snd s)"
  shows "relay_safe (wired E) servers (snd s')"
  using assms(1)
proof cases
  case (Browser_Line d r line)
  with assms(2) show ?thesis by (simp add: safe_handle)
next
  case (Agent_Line d r line)
  with assms(2) show ?thesis by (simp add: safe_handle)
next
  case (Attached d r)
  with assms(2) show ?thesis by (simp add: relay_safe_def sink_safe_ops)
next
  case (Socket op d r)
  with assms(2) show ?thesis by (simp add: relay_safe_def sink_safe_ops)
next
  case (Notice m d r v)
  then show ?thesis using assms(2) safe_notify [of E servers r m v] by (simp add: wired_safe)
next
  case (Background op)
  obtain out d i where run: "interceptor_step E C op (fst s, interceptor (snd s)) = (out, d, i)"
    by (rule prod_cases3)
  have "h_configured (wi_mcp i) = h_configured (wi_mcp (interceptor (snd s)))"
    using step_configured_same [of E C op "(fst s, interceptor (snd s))"] run by simp
  moreover have "for_a_browser E servers l" if "l \<in> set (lines_to E AgentToClient out)" for l
    using that background_lines [OF Background(2), of _ E C "(fst s, interceptor (snd s))"] run
    by (auto simp: lines_to_def intro: for_a_browser_frame)
  ultimately have "relay_safe E servers (snd (background E C op s))"
    using assms(2) unfolding wired_safe
    by (simp add: background_def run relay_safe_def write_out_eq sink_safe_send_all)
  with Background(1) show ?thesis by (simp add: wired_safe)
qed

lemma configured_empty:
  "h_configured (new_host servers cwd) = [] \<longleftrightarrow> List.map_filter hosted_launch servers = []"
proof -
  have grows: "foldl (\<lambda>m (k, v). hm_insert k v m) m xs = [] \<longleftrightarrow> m = [] \<and> xs = []"
    for m :: "(string, mcp_launch) hmap" and xs
  proof (induction xs arbitrary: m)
    case (Cons x xs)
    obtain k v where "x = (k, v)" by (cases x)
    moreover have "hm_insert k v m \<noteq> []" by (cases m) auto
    ultimately show ?case using Cons by simp
  qed simp
  show ?thesis by (simp add: new_host_def grows)
qed

lemma safe_boot: "relay_safe E servers (snd (boot d roots cwd servers info))"
  using configured_empty [of servers cwd]
  by (simp add: boot_def relay_safe_def new_relay_def new_sink_def sink_safe_def start_interceptor_def
      new_interceptor_def)

text \<open>
  Whatever the agent, the browsers, the tasks and the disk do, in whatever order: no line
  any socket is ever sent is a request the server answers itself. What is sent is the line
  of a frame that is no such request, or a line that is no frame at all, passed on as it came.
\<close>

theorem browser_is_never_asked:
  assumes "runs_to E C (boot d roots cwd servers info) (d', r)"
  shows "\<forall>ch \<in> set (channels (to_browser_sink r)). \<forall>l \<in> set (ch_lines ch).
    (\<exists>f. l = to_line E f \<and> \<not> served servers f) \<or> (\<exists>e. parse E l = Inl e)"
proof -
  have "relay_safe (wired E) servers (snd (d', r))"
    using assms
  proof (induction rule: rtranclp_induct)
    case base
    show ?case by (simp add: wired_safe safe_boot)
  next
    case (step s s')
    from step(2,3) show ?case by (rule safe_step)
  qed
  then show ?thesis by (simp add: wired_safe relay_safe_def sink_safe_def for_a_browser_def)
qed

section \<open>A request from end to end\<close>

lemma request_is_queued:
  assumes "parse E line = Inr (Request j m p)" and "is_server_provided_capability m"
  shows "\<exists>r1. handle (wired E) AgentToClient line r = r1 \<and>
    interceptor r1 = queue_task j m p (interceptor r) \<and>
    to_agent_lines r1 = to_agent_lines r \<and> unanswered r1 = unanswered r \<and> ids r1 = ids r \<and>
    to_browser_sink r1 = notify_sink E INSPECTOR_FRAME (inspector_frame_json
      \<lparr>if_direction = ''agentToClient'', if_line = to_line E (Request j m p), if_method = Some m,
       if_intercepted = True\<rparr>) (to_browser_sink r)"
proof -
  let ?f = "Request j m p"
  have line: "parse (wired E) line = Inr ?f" using assms(1) by simp
  obtain r1 where o: "observe_frame (wired E) AgentToClient ?f r = (Some m, None, r1)"
    and r1: "interceptor r1 = interceptor r" "to_agent_lines r1 = to_agent_lines r"
      "to_browser_sink r1 = to_browser_sink r" "unanswered r1 = unanswered r" "ids r1 = ids r"
    by (simp add: observe_frame_def ended_turn_def settle_unanswered_def case_prod_beta Let_def)
  have "is_ours (interceptor r) m" using assms(2) by (simp add: is_ours_def)
  then have a: "ask_interceptor (wired E) AgentToClient ?f r1 =
      (Intercept, r1\<lparr>interceptor := queue_task j m p (interceptor r)\<rparr>)"
    by (simp add: ask_wired intercept_agent_def r1)
  have "notify_sink (wired E) n v = notify_sink E n v" for n v
    by (rule ext) (simp add: notify_sink_def split: sum.split)
  then show ?thesis
    using r1 by (simp add: handle_agent_line [OF line] relay_frame_agent o a dispose_def notify_browser_eq)
qed

text \<open>
  C26: The whole way of a read: the agent's line is not passed on, the browser is shown it as
  intercepted and sees no more of it, and one turn of the task it started sends the agent
  the content, under the id the agent gave.
\<close>

theorem file_read_is_answered:
  fixes E :: "(workspace_interceptor, 'a) relay_env_scheme" and r :: "workspace_interceptor relay"
    and sp :: "string + unit" and dead :: bool
  assumes "parse E line = Inr (Request j ''fs/read_text_file'' (Some p))"
    and "de_read_file C p = Inr (path, start_line, limit)"
    and "read_text_file d (ws_roots (wi_workspace (interceptor r))) path start_line limit = Inr content"
    and "ser_value E (JObject [(''content'', JString content)]) = Inr answer"
  defines "r1 \<equiv> handle (wired E) AgentToClient line r"
  defines "s \<equiv> background E C (TaskTurn sp dead (length (wi_tasks (interceptor r)))) (d, r1)"
  shows "to_agent_lines r1 = to_agent_lines r \<and> unanswered r1 = unanswered r \<and>
    to_browser_sink r1 = notify_sink E INSPECTOR_FRAME (inspector_frame_json
      \<lparr>if_direction = ''agentToClient'', if_line = to_line E (Request j ''fs/read_text_file'' (Some p)),
       if_method = Some ''fs/read_text_file'', if_intercepted = True\<rparr>) (to_browser_sink r) \<and>
    fst s = d \<and> to_browser_sink (snd s) = to_browser_sink r1 \<and>
    to_agent_lines (snd s) = to_agent_lines r @ [to_line E (Response j (Result answer))]"
proof -
  let ?m = "''fs/read_text_file''" and ?n = "length (wi_tasks (interceptor r))"
  have "is_server_provided_capability ?m" by (simp add: is_server_provided_capability_def)
  from request_is_queued [OF assms(1) this, of r] have r1:
    "interceptor r1 = queue_task j ?m (Some p) (interceptor r)"
    "to_agent_lines r1 = to_agent_lines r" "unanswered r1 = unanswered r"
    "to_browser_sink r1 = notify_sink E INSPECTOR_FRAME (inspector_frame_json
      \<lparr>if_direction = ''agentToClient'', if_line = to_line E (Request j ?m (Some p)),
       if_method = Some ?m, if_intercepted = True\<rparr>) (to_browser_sink r)"
    by (simp_all add: r1_def)
  have task: "wi_tasks (interceptor r1) ! ?n =
      \<lparr>task_id = j, task_method = ?m, task_params = Some p, task_state = Queued\<rparr>"
    and len: "?n < length (wi_tasks (interceptor r1))"
    by (simp_all add: r1 queue_task_def)
  have "run_request E C sp ?m (Request j ?m (Some p)) (d, interceptor r1) =
      (Done (Inr (JObject [(''content'', JString content)])), d, interceptor r1)"
    using assms(2,3)
    by (simp add: run_request_def is_mcp_over_acp_def handle_capability_def read_request_def typed_params_def
        params_as_def workspace_read_def rpc_result_def r1 queue_task_def)
  then have "task_turn E C sp dead ?n (d, interceptor r1) =
      ([Response j (Result answer)], d, set_task ?n Answered (interceptor r1))"
    using assms(4) by (simp add: task_turn_def task task_frame_def reply_for_def frame_result_def)
  then have "s = (d, write_out E [(ClientToAgent, Response j (Result answer))]
      (r1\<lparr>interceptor := set_task ?n Answered (interceptor r1)\<rparr>))"
    using len by (simp add: s_def background_def)
  then show ?thesis by (simp add: write_out_eq lines_to_def r1)
qed

section \<open>An example\<close>

definition system_env ::
  "(string \<times> wire) list \<Rightarrow> (raw \<times> json) list \<Rightarrow> workspace_interceptor relay_env" where
  "system_env known values = acp.extend (acp.truncate (demo_env Forward known values))
     (relay_env.fields demo_wire Inr (\<lambda>i f. (Forward, [], i)) (\<lambda>i f. (Forward, [], i)))"

lemma parse_system:
  "map_of known l = Some w \<Longrightarrow> parse (system_env known values) l = parse_wire w"
  by (simp add: system_env_def acp.defs demo_env_def toy_serde_def parse_def)

lemma ser_value_system [simp]: "ser_value (system_env known values) v = Inr ''{}''"
  by (simp add: system_env_def acp.defs demo_env_def)

theorem file_read_is_answered_witness:
  "let E = system_env [(''read'', call (IdNumber 1) ''fs/read_text_file'' (Some ''{}''))] [];
       r = snd (boot demo_disk [''/w''] ''/w'' [] demo_info);
       s = background E demo_client (TaskTurn (Inr ()) False 0)
             (demo_disk, handle (wired E) AgentToClient ''read'' r)
   in to_agent_lines (snd s) = [to_line E (Response (IdNumber 1) (Result ''{}''))]"
proof -
  let ?E = "system_env [(''read'', call (IdNumber 1) ''fs/read_text_file'' (Some ''{}''))] []"
  let ?r = "snd (boot demo_disk [''/w''] ''/w'' [] demo_info)"
  have line: "parse ?E ''read'' = Inr (Request (IdNumber 1) ''fs/read_text_file'' (Some ''{}''))"
    by (simp add: parse_system)
  have q: "de_read_file demo_client ''{}'' = Inr (''/w/a'', None, None)" by (simp add: demo_client_def)
  have roots: "ws_roots (wi_workspace (interceptor ?r)) = [''/w'']"
    and tasks: "wi_tasks (interceptor ?r) = []" and sent: "to_agent_lines ?r = []"
    by (simp_all add: boot_def new_relay_def start_interceptor_def new_interceptor_def new_workspace_def)
  have read: "read_text_file demo_disk (ws_roots (wi_workspace (interceptor ?r))) ''/w/a'' None None = Inr ''hi''"
    unfolding roots by (rule demo_read)
  from file_read_is_answered [OF line q read ser_value_system, of "Inr ()" False]
  show ?thesis by (simp only: Let_def tasks sent list.size append_Nil)
qed

lemma runs_to_line:
  "runs_to E C (boot d roots cwd servers info)
     (d, handle (wired E) AgentToClient line
           (relay_step (wired E) (snd (boot d roots cwd servers info)) NewBrowser))"
proof -
  have "boot d roots cwd servers info = (d, snd (boot d roots cwd servers info))" by (simp add: boot_def)
  then have "runs_to E C (boot d roots cwd servers info)
      (d, relay_step (wired E) (snd (boot d roots cwd servers info)) NewBrowser)"
    by (metis Attached r_into_rtranclp)
  then show ?thesis by (rule rtranclp.rtrancl_into_rtrancl) (rule Agent_Line)
qed

theorem browser_is_never_asked_witness:
  "let E = system_env [(''read'', call (IdNumber 1) ''fs/read_text_file'' (Some ''{}''))] [];
       r = handle (wired E) AgentToClient ''read''
             (relay_step (wired E) (snd (boot demo_disk [''/w''] ''/w'' [] demo_info)) NewBrowser)
   in list_all (\<lambda>ch. list_all (\<lambda>l. (\<exists>f. l = to_line E f \<and> \<not> served [] f) \<or> (\<exists>e. parse E l = Inl e))
        (ch_lines ch)) (channels (to_browser_sink r))"
  unfolding Let_def list_all_iff
  by (rule browser_is_never_asked [OF runs_to_line])

end
