(* ===== verification/Live_System.thy ===== *)
theory Live_System
  imports System Live_Races
begin

text \<open>
  A whole connection with everything interleaved: the tasks of theory \<open>Live\<close>, section by
  section, the interceptor plugged into them with its tasks, threads and servers, and the
  disk, which other programs change too. What holds of \<open>System\<close>, where a call of \<open>handle\<close> is one
  piece, holds here.
\<close>

section \<open>The system\<close>

text \<open>
  What a piece of the interceptor's work has to send it sends line by line: \<open>ls_sends\<close> has, for each
  piece there was, what is left of it.
\<close>

record live_system =
  ls_disk :: disk
  ls_live :: "workspace_interceptor live"
  ls_sends :: "(direction \<times> frame) list list"

definition boot_live ::
  "disk \<Rightarrow> string list \<Rightarrow> path \<Rightarrow> mcp_server_config list \<Rightarrow> agent_process \<Rightarrow> agent_info \<Rightarrow> live_system" where
  "boot_live d roots cwd servers proc info =
     \<lparr>ls_disk = d,
      ls_live = new_live (start (start_interceptor (new_interceptor roots cwd servers)) proc info servers),
      ls_sends = []\<rparr>"

text \<open>The interceptor has steps of its own here, and its lines are those it has to send.\<close>

fun of_the_relay :: "'i live_event \<Rightarrow> bool" where
  "of_the_relay (Writes d f) = False"
| "of_the_relay (InterceptorMoves i) = False"
| "of_the_relay _ = True"

definition with_relay ::
  "(workspace_interceptor relay \<Rightarrow> workspace_interceptor relay) \<Rightarrow> live_system \<Rightarrow> live_system" where
  "with_relay g s = s\<lparr>ls_live := set_relay (g (live_relay (ls_live s))) (ls_live s)\<rparr>"

inductive live_sys_step ::
  "(workspace_interceptor, 'a) relay_env_scheme \<Rightarrow> client_env \<Rightarrow> live_system \<Rightarrow> live_system \<Rightarrow> bool" for E C where
  Relay_Moves: "of_the_relay ev \<Longrightarrow>
     live_sys_step E C s (s\<lparr>ls_live := live_step (wired E) (ls_live s) ev\<rparr>)"
| Diagnostics: "live_sys_step E C s (with_relay (notify_browser E AGENT_STDERR x) s)"
| Work: "in_background op \<Longrightarrow>
     interceptor_step E C op (ls_disk s, interceptor (live_relay (ls_live s))) = (out, d, i) \<Longrightarrow>
     live_sys_step E C s
       ((with_relay (\<lambda>r. r\<lparr>interceptor := i\<rparr>) s)\<lparr>ls_disk := d, ls_sends := ls_sends s @ [out]\<rparr>)"
| Sending: "k < length (ls_sends s) \<Longrightarrow> ls_sends s ! k = (d, f) # out \<Longrightarrow>
     live_sys_step E C s
       ((with_relay (send_line d (to_line E f)) s)\<lparr>ls_sends := (ls_sends s)[k := out]\<rparr>)"
| Other_Programs: "live_sys_step E C s (s\<lparr>ls_disk := d\<rparr>)"

abbreviation live_runs_to ::
  "(workspace_interceptor, 'a) relay_env_scheme \<Rightarrow> client_env \<Rightarrow> live_system \<Rightarrow> live_system \<Rightarrow> bool" where
  "live_runs_to E C \<equiv> (live_sys_step E C)\<^sup>*\<^sup>*"

section \<open>What every section of a call keeps\<close>

text \<open>
  \<open>keeps I Q t\<close>: whatever others do between its sections, so long as they keep \<open>I\<close>, each section of \<open>t\<close>
  keeps \<open>I\<close>, and what \<open>t\<close> returns has \<open>Q\<close>.
\<close>

primrec keeps :: "('s \<Rightarrow> bool) \<Rightarrow> ('a \<Rightarrow> bool) \<Rightarrow> ('s, 'a) task \<Rightarrow> bool" where
  "keeps I Q (Finished x) \<longleftrightarrow> Q x"
| "keeps I Q (Section p f) \<longleftrightarrow>
     (\<forall>s. case map_prod id (keeps I Q) (f s) of (s', rest) \<Rightarrow> I s \<longrightarrow> I s' \<and> rest)"

lemma keeps_Section [simp]:
  "keeps I Q (Section p f) \<longleftrightarrow> (\<forall>s. I s \<longrightarrow> I (fst (f s)) \<and> keeps I Q (snd (f s)))"
  by (simp add: case_prod_beta)

declare keeps.simps(2) [simp del]

lemma keeps_bind:
  "keeps I P t \<Longrightarrow> (\<And>x. P x \<Longrightarrow> keeps I Q (k x)) \<Longrightarrow> keeps I Q (bind_task t k)"
  by (induction t rule: task_induct) simp_all

lemma keeps_one_section:
  "keeps I Q (one_section p g) \<longleftrightarrow> (\<forall>s. I s \<longrightarrow> I (snd (g s)) \<and> Q (fst (g s)))"
  "keeps I Q (locked l g) \<longleftrightarrow> (\<forall>s. I s \<longrightarrow> I (snd (g s)) \<and> Q (fst (g s)))"
  "keeps I Q (sync g) \<longleftrightarrow> (\<forall>s. I s \<longrightarrow> I (snd (g s)) \<and> Q (fst (g s)))"
  by (simp_all add: one_section_def locked_def sync_def case_prod_beta Let_def)

lemma keeps_weaken: "keeps I P t \<Longrightarrow> (\<And>x. P x \<Longrightarrow> Q x) \<Longrightarrow> keeps I Q t"
  by (induction t rule: task_induct) simp_all

definition call_keeps :: "('i relay \<Rightarrow> bool) \<Rightarrow> 'i call \<Rightarrow> bool" where
  "call_keeps I c \<longleftrightarrow> (case c of None \<Rightarrow> True | Some (line, t) \<Rightarrow> keeps I (\<lambda>_. True) t)"

lemma call_keeps_simps [simp]:
  "call_keeps I None" "call_keeps I (Some (line, t)) \<longleftrightarrow> keeps I (\<lambda>_. True) t"
  by (simp_all add: call_keeps_def)

lemma call_keeps_in_call: "keeps I (\<lambda>_. True) t \<Longrightarrow> call_keeps I (in_call line t)"
  by (auto simp: in_call_def simp del: keeps_Section split: task.split)

lemma call_keeps_advance:
  assumes "call_keeps I c" and "I r"
  shows "call_keeps I (fst (advance c r)) \<and> I (snd (advance c r))"
  using assms
  by (induction c r rule: advance.induct) (auto simp: case_prod_beta intro!: call_keeps_in_call)

section \<open>Calls send nothing that is served here\<close>

abbreviation safely ::
  "('a) serde_scheme \<Rightarrow> mcp_server_config list \<Rightarrow> ('b \<Rightarrow> bool) \<Rightarrow> (workspace_interceptor relay, 'b) task \<Rightarrow> bool" where
  "safely E servers \<equiv> keeps (relay_safe E servers)"

lemma safe_updates [simp]:
  "relay_safe E servers (r\<lparr>ids := b\<rparr>) = relay_safe E servers r"
  "relay_safe E servers (r\<lparr>handshake := h\<rparr>) = relay_safe E servers r"
  "relay_safe E servers (r\<lparr>correlator_of := c\<rparr>) = relay_safe E servers r"
  "relay_safe E servers (r\<lparr>sessions := t\<rparr>) = relay_safe E servers r"
  "relay_safe E servers r \<Longrightarrow> relay_safe E servers (r\<lparr>unanswered := filter P (unanswered r)\<rparr>)"
  by (auto simp: relay_safe_def)

lemma safely_send: "(d = AgentToClient \<Longrightarrow> for_a_browser E servers l) \<Longrightarrow> Q () \<Longrightarrow> safely E servers Q (send_task d l)"
  by (simp add: send_task_def keeps_one_section safe_send_line)

lemma safely_notify: "Q () \<Longrightarrow> safely E servers Q (notify_task E m v)"
  by (auto simp: notify_task_def notification_def intro!: safely_send for_a_browser_frame split: sum.split)

lemma safely_announce: "Q () \<Longrightarrow> safely E servers Q (announce_task E m b)"
  by (auto simp: announce_task_def keeps_one_section case_prod_beta Let_def
      intro!: keeps_bind [where P = "\<lambda>_. True"] safely_notify)

lemma safely_reask: "Q () \<Longrightarrow> safely E servers Q (reask_task E)"
proof -
  assume "Q ()"
  then have lines: "list_all (for_a_browser E servers) ls \<Longrightarrow> safely E servers Q (reask_lines ls)" for ls
    by (induction ls) (simp_all add: safe_send_line)
  show ?thesis
    by (auto simp: reask_task_def relay_safe_def list_all_iff intro!: lines for_a_browser_frame)
qed

lemma safely_extension: "safely E servers (\<lambda>_. True) (handle_extension_task E f)"
proof -
  have "\<not> served servers (replay_reply E g i ss)" for g i ss
    using replay_reply_id [of E g i ss] by (cases "replay_reply E g i ss") auto
  then have replayed: "safely E servers (\<lambda>answer. \<not> served servers answer)
      (one_section p (\<lambda>r. (replay_reply E g i (sessions r), r)))" for p g i
    by (simp add: keeps_one_section)
  have sent: "safely E servers (\<lambda>_. True)
      (bind_task (send_task AgentToClient (to_line E answer)) (\<lambda>_. reask_task E))"
    if "\<not> served servers answer" for answer
    using that by (auto intro!: keeps_bind [where P = "\<lambda>_. True"] safely_send safely_reask for_a_browser_frame)
  show ?thesis
    by (auto simp: handle_extension_task_def frame_error_def split: frame.split
        intro!: keeps_bind [OF replayed] sent safely_send for_a_browser_frame)
qed

lemma safely_recording: "safely E servers (\<lambda>_. True) (answer_from_recording_task E f)"
  by (auto simp: answer_from_recording_task_def keeps_one_section case_prod_beta Let_def
      split: frame.split option.split
      intro!: keeps_bind [where P = "\<lambda>_. True"] safely_send safely_announce for_a_browser_frame)

lemma safely_observing:
  "safely E servers (\<lambda>_. True) (rebind_task d f)"
  "safely E servers (\<lambda>_. True) (add_servers_task E d f)"
  "safely E servers (\<lambda>_. True) (observe_task E d f)"
  by (auto simp: rebind_task_def add_servers_task_def observe_task_def ended_turn_task_def forget_questions_task_def
      settle_task_def keep_task_def keeps_one_section case_prod_beta Let_def simp del: observe.simps
      split: direction.split frame.split option.split response_payload.split
      intro!: keeps_bind [where P = "\<lambda>_. True"])

lemma safely_ask:
  "safely (wired E) servers
     (\<lambda>disp. d = AgentToClient \<longrightarrow> disp \<noteq> Intercept \<longrightarrow> disp = Forward \<and> \<not> served servers f)
     (ask_interceptor_task (wired E) d f)"
proof -
  let ?Q = "\<lambda>disp. d = AgentToClient \<longrightarrow> disp \<noteq> Intercept \<longrightarrow> disp = Forward \<and> \<not> served servers f"
  let ?ask = "\<lambda>r. (case d of ClientToAgent \<Rightarrow> intercept_client E | AgentToClient \<Rightarrow> intercept_agent E)
    (interceptor r) f"
  have wires: "(case d of ClientToAgent \<Rightarrow> on_client_frame (wired E) | AgentToClient \<Rightarrow> on_agent_frame (wired E)) =
      (case d of ClientToAgent \<Rightarrow> intercept_client E | AgentToClient \<Rightarrow> intercept_agent E)"
    by (cases d) simp_all
  have silent: "fst (snd (?ask r)) = []" for r
    by (cases d; cases f; simp add: intercept_client_def intercept_agent_def case_prod_beta Let_def
        split: option.split)
  have "ask_interceptor (wired E) d f r = (fst (?ask r), r\<lparr>interceptor := snd (snd (?ask r))\<rparr>)" for r
    by (simp add: ask_wired case_prod_beta Let_def)
  from ask_decides [OF this] have "?Q (fst (?ask r)) \<and> relay_safe (wired E) servers (r\<lparr>interceptor := snd (snd (?ask r))\<rparr>)"
    if "relay_safe (wired E) servers r" for r
    using that by blast
  with silent show ?thesis
    unfolding ask_interceptor_task_def
    by (intro keeps_bind [where P = "\<lambda>(disp, out). out = [] \<and> ?Q disp"])
       (auto simp: keeps_one_section wires case_prod_beta Let_def)
qed

lemma safely_forward:
  assumes "d = AgentToClient \<Longrightarrow> \<not> served servers f"
  shows "safely E servers (\<lambda>_. True) (forward_task E d f ends)"
  using assms
  by (auto simp: forward_task_def keeps_one_section case_prod_beta Let_def
      split: direction.split frame.split option.split
      intro!: keeps_bind [where P = "\<lambda>_. True"] safely_send safely_notify for_a_browser_frame)

lemma safely_dispose:
  assumes "d = AgentToClient \<longrightarrow> disp \<noteq> Intercept \<longrightarrow> disp = Forward \<and> \<not> served servers f"
  shows "safely E servers (\<lambda>_. True) (dispose_task E d f label ends disp)"
proof (cases disp)
  case Forward
  then have "d = AgentToClient \<Longrightarrow> \<not> served servers f" using assms by simp
  then have "relay_safe E servers r \<Longrightarrow> d = AgentToClient \<Longrightarrow> relay_safe E servers (r\<lparr>unanswered := unanswered r @ [f]\<rparr>)"
    for r by (auto simp: relay_safe_def)
  with Forward \<open>d = AgentToClient \<Longrightarrow> \<not> served servers f\<close> show ?thesis
    by (auto simp: dispose_task_def announce_after_task_def keeps_one_section split: option.split
        intro!: keeps_bind [where P = "\<lambda>_. True"] safely_forward safely_announce)
next
  case (Rewrite g)
  with assms show ?thesis by (cases d) (auto simp: dispose_task_def intro!: safely_forward)
next
  case Intercept
  then show ?thesis by (simp add: dispose_task_def safely_notify)
qed

lemma safely_handle: "safely (wired E) servers (\<lambda>_. True) (handle_task (wired E) d line)"
proof -
  have "safely (wired E) servers (\<lambda>_. True) (relay_frame_task (wired E) d f)" for f
    unfolding relay_frame_task_def
    by (auto intro!: keeps_bind [OF safely_observing(1)] keeps_bind [OF safely_observing(2)]
        keeps_bind [OF safely_observing(3)] keeps_bind [OF safely_ask] safely_dispose)
  then show ?thesis
    by (auto simp: handle_task_def for_a_browser_def split: sum.split
        intro!: safely_send safely_extension keeps_bind [OF safely_recording])
qed

section \<open>The browser is never asked\<close>

definition all_safe ::
  "(workspace_interceptor, 'a) relay_env_scheme \<Rightarrow> mcp_server_config list \<Rightarrow> workspace_interceptor live \<Rightarrow> bool" where
  "all_safe E servers v \<longleftrightarrow> relay_safe (wired E) servers (live_relay v) \<and>
     (\<forall>c \<in> insert (agent_call v) (reader_calls v). call_keeps (relay_safe (wired E) servers) c)"

lemma call_safe_begin: "call_keeps (relay_safe (wired E) servers) (begin_call (wired E) d line)"
  unfolding begin_call_def by (rule call_keeps_in_call) (rule safely_handle)

lemma all_safe_calls:
  assumes "all_safe E servers v"
  shows "\<forall>c \<in> insert (agent_call (live_step (wired E) v ev)) (reader_calls (live_step (wired E) v ev)).
    call_keeps (relay_safe (wired E) servers) c"
proof
  let ?ok = "call_keeps (relay_safe (wired E) servers)"
  have on: "?ok (fst (advance c (live_relay v)))" if "?ok c" for c
    using call_keeps_advance [OF that] assms by (simp add: all_safe_def)
  fix c assume "c \<in> insert (agent_call (live_step (wired E) v ev)) (reader_calls (live_step (wired E) v ev))"
  then consider "c = agent_call (live_step (wired E) v ev)" | "c \<in> insert None (taken_up (wired E) v ev \<union> reader_calls v)"
    using reader_calls_step [of "wired E" v ev] by blast
  then show "?ok c"
  proof cases
    case 1
    with assms on [of "agent_call v"] show ?thesis
      by (simp add: all_safe_def agent_call_step call_safe_begin split: live_event.split)
  next
    case 2
    with assms show ?thesis
      by (cases ev) (auto simp: all_safe_def call_safe_begin split: if_splits intro!: on dest!: reader_calls_nth)
  qed
qed

lemma sink_safe_detach: "sink_safe E servers s \<Longrightarrow> sink_safe E servers (sink_detach g s)"
  using sink_safe_ops(2) [of E servers s "Detach g"] by simp

lemma safe_attach_step:
  "relay_safe E servers (live_relay v) \<Longrightarrow> relay_safe E servers (live_relay (attach_step E k v))"
  using sink_safe_detach [of E servers "to_browser_sink (live_relay v)"]
  by (auto simp: attach_step_def notice_def case_prod_beta Let_def close_channel_step relay_safe_def
      notify_browser_eq intro!: sink_safe_ops sink_safe_notify simp del: sink_step.simps
      split: stage.split option.split)

lemma all_safe_step:
  assumes "all_safe E servers v" and "of_the_relay ev"
  shows "all_safe E servers (live_step (wired E) v ev)"
proof -
  have safe: "relay_safe (wired E) servers (live_relay v)" using assms(1) by (simp add: all_safe_def)
  have on: "relay_safe (wired E) servers (snd (advance c (live_relay v)))" if "c \<in> insert (agent_call v) (reader_calls v)" for c
    using call_keeps_advance [of "relay_safe (wired E) servers" c] safe assms(1) that by (auto simp: all_safe_def)
  have "relay_safe (wired E) servers (live_relay (live_step (wired E) v ev))"
  proof (cases ev)
    case (Proceed k)
    with safe show ?thesis by (simp add: safe_attach_step)
  next
    case (RunsReader k)
    with safe on reader_calls_nth [of k v] show ?thesis by (simp add: case_prod_beta)
  next
    case (WriterGone n)
    have "sink_safe (wired E) servers (sink_step (to_browser_sink (live_relay v)) (WriterEnds n))"
      using safe by (intro sink_safe_ops(2)) (simp_all add: relay_safe_def)
    with safe WriterGone show ?thesis by (simp add: relay_safe_def del: sink_step.simps)
  qed (use safe on assms(2) in \<open>simp_all add: case_prod_beta moves_wait_ends agent_gone_def\<close>)
  with all_safe_calls [OF assms(1), of ev] show ?thesis by (simp add: all_safe_def del: live_step.simps)
qed

definition sends_safe :: "mcp_server_config list \<Rightarrow> (direction \<times> frame) list list \<Rightarrow> bool" where
  "sends_safe servers outs \<longleftrightarrow> (\<forall>out \<in> set outs. \<forall>f. (AgentToClient, f) \<in> set out \<longrightarrow> \<not> served servers f)"

lemma all_safe_set_relay:
  "all_safe E servers v \<Longrightarrow> relay_safe (wired E) servers r \<Longrightarrow> all_safe E servers (set_relay r v)"
  by (simp add: all_safe_def)

lemma live_safe_step:
  assumes "live_sys_step E C s s'" and "all_safe E servers (ls_live s)" and "sends_safe servers (ls_sends s)"
  shows "all_safe E servers (ls_live s') \<and> sends_safe servers (ls_sends s')"
  using assms(1)
proof cases
  case (Relay_Moves ev)
  then show ?thesis using assms(2,3) by (simp add: all_safe_step del: live_step.simps)
next
  case (Diagnostics x)
  have "relay_safe (wired E) servers (notify_browser E AGENT_STDERR x (live_relay (ls_live s)))"
    using assms(2) by (simp add: all_safe_def wired_safe safe_notify)
  with Diagnostics assms(2,3) show ?thesis by (simp add: with_relay_def all_safe_set_relay)
next
  case (Work op out d i)
  let ?w = "(ls_disk s, interceptor (live_relay (ls_live s)))"
  have "h_configured (wi_mcp i) = h_configured (wi_mcp (interceptor (live_relay (ls_live s))))"
    using step_configured_same [of E C op ?w] Work(3) by simp
  then have "all_safe E servers (set_relay ((live_relay (ls_live s))\<lparr>interceptor := i\<rparr>) (ls_live s))"
    using assms(2) by (intro all_safe_set_relay) (simp_all add: all_safe_def relay_safe_def)
  moreover have "\<not> served servers f" if "(AgentToClient, f) \<in> set out" for f
    using background_lines [OF Work(2), of f E C ?w] Work(3) that by simp
  ultimately show ?thesis using Work(1) assms(3) by (auto simp: with_relay_def sends_safe_def)
next
  case (Sending k d f out)
  have pending: "(d, f) # out \<in> set (ls_sends s)" using Sending(2,3) nth_mem by fastforce
  have "relay_safe (wired E) servers (send_line d (to_line E f) (live_relay (ls_live s)))"
    using pending assms(2,3)
    by (auto simp: wired_safe all_safe_def sends_safe_def intro!: safe_send_line for_a_browser_frame)
  moreover have "sends_safe servers ((ls_sends s)[k := out])"
    using pending assms(3) set_update_subset_insert [of "ls_sends s" k out] unfolding sends_safe_def
    by (smt (verit) insert_iff list.set_intros(2) subset_iff)
  ultimately show ?thesis using Sending(1) assms(2) by (simp add: with_relay_def all_safe_set_relay)
next
  case (Other_Programs d)
  with assms(2,3) show ?thesis by simp
qed

lemma safe_boot_live:
  "all_safe E servers (ls_live (boot_live d roots cwd servers proc info)) \<and>
   sends_safe servers (ls_sends (boot_live d roots cwd servers proc info))"
  using safe_boot [of E servers d roots cwd info]
  by (simp add: boot_live_def boot_def start_def new_live_def all_safe_def reader_calls_def sends_safe_def
      wired_safe live_relay_def del: live_relay_fields)

text \<open>
  C21: Whatever the agent, the browsers, the interceptor's tasks and other programs do, and however
  their sections and lines interleave, calls cut short included: no line any socket is ever sent
  is a request the server answers itself. What is sent is the line of a frame that is no such
  request, or a line that is no frame at all, passed on as it came.
\<close>

theorem browsers_are_never_asked:
  assumes "live_runs_to E C (boot_live d roots cwd servers proc info) s"
  shows "\<forall>ch \<in> set (channels (to_browser_sink (live_relay (ls_live s)))). \<forall>l \<in> set (ch_lines ch).
    (\<exists>f. l = to_line E f \<and> \<not> served servers f) \<or> (\<exists>e. parse E l = Inl e)"
proof -
  have "all_safe E servers (ls_live s) \<and> sends_safe servers (ls_sends s)"
    using assms
    by (induction rule: rtranclp_induct) (simp_all add: safe_boot_live live_safe_step)
  then show ?thesis by (simp add: all_safe_def wired_safe relay_safe_def sink_safe_def for_a_browser_def)
qed

section \<open>An example\<close>

lemma live_runs_of_the_relay:
  "list_all of_the_relay evs \<Longrightarrow> live_runs_to E C s (s\<lparr>ls_live := live_run (wired E) (ls_live s) evs\<rparr>)"
proof (induction evs arbitrary: s)
  case (Cons ev evs)
  let ?s = "s\<lparr>ls_live := live_step (wired E) (ls_live s) ev\<rparr>"
  have "live_sys_step E C s ?s" using Cons.prems by (intro Relay_Moves) simp
  moreover have "live_runs_to E C ?s (?s\<lparr>ls_live := live_run (wired E) (ls_live ?s) evs\<rparr>)"
    using Cons.IH [of ?s] Cons.prems by (simp del: live_step.simps)
  ultimately show ?case by (simp del: live_step.simps add: converse_rtranclp_into_rtranclp [of "live_sys_step E C" s ?s])
qed simp

definition booted :: live_system where
  "booted = boot_live demo_disk [''/w''] ''/w'' [] demo_process demo_info"

definition attached :: live_system where
  "attached = booted\<lparr>ls_live := live_run (wired (system_env [] [])) (ls_live booted)
     (Arrive # replicate 9 (Proceed 0))\<rparr>"

lemma attached_runs: "live_runs_to (system_env [] []) C booted (with_relay (notify_browser (system_env [] []) AGENT_STDERR x) attached)"
proof -
  have "list_all of_the_relay (Arrive # replicate 9 (Proceed 0))" by (simp add: list_all_iff)
  then have "live_runs_to (system_env [] []) C booted attached"
    unfolding attached_def by (rule live_runs_of_the_relay)
  then show ?thesis by (rule rtranclp.rtrancl_into_rtrancl) (rule Diagnostics)
qed

lemma attached_channels: "channels (to_browser_sink (live_relay (ls_live attached))) = [\<lparr>ch_lines = [], ch_closed = False\<rparr>]"
  "sender (to_browser_sink (live_relay (ls_live attached))) = Some 0"
proof -
  let ?E = "wired (system_env [] [])" and ?c = "conn (ls_live booted)"
  let ?v = "live_step ?E (ls_live booted) Arrive"
  have "at_stage 0 AwaitIds ?c None ?v"
    by (simp add: at_stage_def booted_def boot_live_def new_live_def new_socket_def)
  moreover have reader: "reader ?c = None" by (simp add: booted_def boot_live_def new_live_def start_def)
  moreover obtain g n c' where c': "attach_begin ?E ?c = (g, n, c')" by (metis prod_cases3)
  ultimately have "at_stage 0 (Serving g n) c' (Some 0) (live_run ?E ?v (replicate 9 (Proceed 0)))"
    by (simp add: attach_uninterrupted del: live_step.simps)
  then have "to_browser_sink (live_relay (ls_live attached)) = to_browser_sink (relay_of c')"
    by (simp add: attached_def at_stage_def live_relay_def del: live_step.simps live_relay_fields)
  moreover have "to_browser_sink (relay_of c') = snd (snd (sink_attach new_sink))"
    using c' reader
    by (auto simp: attach_begin_def attach_swap_def attach_reset_def Let_def case_prod_beta booted_def boot_live_def
        new_live_def start_def new_relay_def)
  ultimately show "channels (to_browser_sink (live_relay (ls_live attached))) = [\<lparr>ch_lines = [], ch_closed = False\<rparr>]"
    "sender (to_browser_sink (live_relay (ls_live attached))) = Some 0"
    by (simp_all add: sink_attach_def new_sink_def Let_def)
qed

theorem browsers_are_never_asked_witness:
  "let E = system_env [] []; s = with_relay (notify_browser E AGENT_STDERR (JString ''x'')) attached
   in map ch_lines (channels (to_browser_sink (live_relay (ls_live s)))) =
        [[to_line E (Notification AGENT_STDERR (Some ''{}''))]] \<and>
      list_all (\<lambda>ch. list_all (\<lambda>l. (\<exists>f. l = to_line E f \<and> \<not> served [] f) \<or> (\<exists>e. parse E l = Inl e))
        (ch_lines ch)) (channels (to_browser_sink (live_relay (ls_live s))))"
proof -
  have "map ch_lines (channels (to_browser_sink (live_relay (ls_live
      (with_relay (notify_browser (system_env [] []) AGENT_STDERR (JString ''x'')) attached))))) =
    [[to_line (system_env [] []) (Notification AGENT_STDERR (Some ''{}''))]]"
    by (simp add: with_relay_def notify_browser_eq notify_sink_def notification_def sink_send_def attached_channels)
  then show ?thesis
    unfolding Let_def list_all_iff
    by (intro conjI) (assumption, rule browsers_are_never_asked [OF attached_runs [unfolded booted_def]])
qed

end
