(* ===== verification/Pool.thy ===== *)
theory Pool
  imports Relay_Demo Disk
begin

text \<open>
  The pool of agents in \<open>crates/mjx-acp-server/src/main.rs\<close>: agents that outlive their
  sockets, keyed by the id a browser passes back, with the request that opens a socket,
  the task that serves it and the reaper. A connection that no task and no map refers to is
  still a cell here; in the source it is dropped, and its process with it (\<open>kill_on_drop\<close>).
  A pooled agent is shared between the map and the
  tasks that serve its sockets, so agents are cells and the map holds their numbers.
  Instants and durations are natural numbers. The catalog, the operating system, the fresh
  uuid and the interceptor's own constructor and \<open>stop\<close> are arguments.
\<close>

section \<open>State\<close>

record 'i pooled =
  p_agent_id :: string
  p_cwd :: path
  p_connection :: "'i connection"
  p_idle_since :: "nat option"

record 'i pool =
  connections :: "(string, nat) hmap"
  agents_running :: "'i pooled list"

definition new_pool :: "'i pool" where
  "new_pool = \<lparr>connections = [], agents_running = []\<rparr>"

text \<open>\<open>PathBuf\<close> equality compares components; a leading dot is one, any other is not.\<close>

definition path_parts :: "path \<Rightarrow> bool \<times> string list" where
  "path_parts p =
     (is_absolute_path p,
      (if p = ''.'' \<or> starts_with p ''./'' then [''.''] else []) @ components p)"

definition idle_for :: "nat \<Rightarrow> 'i pooled \<Rightarrow> nat option" where
  "idle_for now p = map_option (\<lambda>since. now - since) (p_idle_since p)"

definition mark_attached :: "'i pooled \<Rightarrow> 'i pooled" where
  "mark_attached p = p\<lparr>p_idle_since := None\<rparr>"

definition mark_idle :: "nat \<Rightarrow> 'i pooled \<Rightarrow> 'i pooled" where
  "mark_idle now p = p\<lparr>p_idle_since := Some now\<rparr>"

definition modify_agent :: "nat \<Rightarrow> ('i pooled \<Rightarrow> 'i pooled) \<Rightarrow> 'i pool \<Rightarrow> 'i pool" where
  "modify_agent n f p = p\<lparr>agents_running := (agents_running p)[n := f (agents_running p ! n)]\<rparr>"

section \<open>Connections\<close>

definition pool_resume :: "'i pool \<Rightarrow> string \<Rightarrow> string \<Rightarrow> path \<Rightarrow> nat option" where
  "pool_resume p i agent cwd =
     (case hm_get (connections p) i of
        None \<Rightarrow> None
      | Some n \<Rightarrow>
          let a = agents_running p ! n
          in if p_agent_id a = agent \<and> path_parts (p_cwd a) = path_parts cwd then Some n else None)"

definition pool_insert :: "string \<Rightarrow> nat \<Rightarrow> 'i pool \<Rightarrow> 'i pool" where
  "pool_insert i n p = p\<lparr>connections := hm_insert i n (connections p)\<rparr>"

definition pool_remove :: "string \<Rightarrow> 'i pool \<Rightarrow> nat option \<times> 'i pool" where
  "pool_remove i p = (hm_get (connections p) i, p\<lparr>connections := hm_remove i (connections p)\<rparr>)"

definition take_all :: "'i pool \<Rightarrow> nat list \<times> 'i pool" where
  "take_all p = (map snd (connections p), p\<lparr>connections := []\<rparr>)"

definition expired :: "nat \<Rightarrow> nat \<Rightarrow> 'i pooled \<Rightarrow> bool" where
  "expired now ttl a \<longleftrightarrow> is_finished (p_connection a) \<or>
     (case idle_for now a of None \<Rightarrow> False | Some idle \<Rightarrow> ttl \<le> idle)"

definition take_expired :: "nat \<Rightarrow> nat \<Rightarrow> 'i pool \<Rightarrow> (string \<times> nat) list \<times> 'i pool" where
  "take_expired now ttl p =
     (let gone = map fst (filter (\<lambda>(i, n). expired now ttl (agents_running p ! n)) (connections p))
      in (List.map_filter (\<lambda>i. map_option (\<lambda>n. (i, n)) (hm_get (connections p) i)) gone,
          p\<lparr>connections := foldl (\<lambda>m i. hm_remove i m) (connections p) gone\<rparr>))"

section \<open>Shutting an agent down\<close>

text \<open>The handle \<open>connection_shutdown\<close> takes goes to \<open>handle_shutdown\<close>, which ends the process.\<close>

definition shutdown :: "('i \<Rightarrow> 'i) \<Rightarrow> 'i pooled \<Rightarrow> 'i pooled" where
  "shutdown stop a =
     a\<lparr>p_connection := fst (connection_shutdown stop (p_connection a))\<rparr>"

definition shutdown_all :: "('i \<Rightarrow> 'i) \<Rightarrow> 'i pool \<Rightarrow> 'i pool" where
  "shutdown_all stop p =
     (let (ns, p1) = take_all p in foldl (\<lambda>p n. modify_agent n (shutdown stop) p) p1 ns)"

text \<open>One sweep of \<open>reap_idle_connections\<close>, which runs only when the ttl is not zero.\<close>

definition reap :: "('i \<Rightarrow> 'i) \<Rightarrow> nat \<Rightarrow> nat \<Rightarrow> 'i pool \<Rightarrow> 'i pool" where
  "reap stop now ttl p =
     (if ttl = 0 then p
      else let (taken, p1) = take_expired now ttl p
           in foldl (\<lambda>p (i, n). modify_agent n (shutdown stop) p) p1 taken)"

definition reap_interval :: "nat \<Rightarrow> nat" where
  "reap_interval ttl = max (min ttl 15) 1"

section \<open>Opening a socket\<close>

record connect =
  cn_agent :: string
  cn_cwd :: "string option"
  cn_resume :: "string option"

datatype ws_reply =
    UnknownAgent string
  | CwdForbidden string
  | NotStarted string string
  | Serve string nat
  | Panic

text \<open>The working directory a request asks for, refused when it is outside the roots.\<close>

definition requested_cwd :: "'a config_env \<Rightarrow> ('a, 'o) config \<Rightarrow> connect \<Rightarrow> ws_reply + path" where
  "requested_cwd C cfg c =
     (case cn_cwd c of
        Some d \<Rightarrow> if is_within_roots C cfg d then Inr d else Inl (CwdForbidden d)
      | None \<Rightarrow> (case default_cwd cfg of None \<Rightarrow> Inl Panic | Some d \<Rightarrow> Inr d))"

text \<open>A new agent, put into the pool unless resuming is turned off.\<close>

definition start_agent ::
  "('a, 'o) config \<Rightarrow> (string \<times> string) list \<Rightarrow> string \<Rightarrow> nat \<Rightarrow> 'i \<Rightarrow> string \<Rightarrow> agent_command \<Rightarrow> path \<Rightarrow>
   agent_process \<Rightarrow> 'i pool \<Rightarrow> ws_reply \<times> 'i pool" where
  "start_agent cfg names uuid now i agent command cwd process p =
     (let info = \<lparr>ai_agent_id = agent,
            ai_name = (case map_of names agent of None \<Rightarrow> agent | Some m \<Rightarrow> m),
            ai_command = display_command command, ai_cwd = cwd, ai_connection_id = uuid,
            ai_resumed = False, ai_mcp_servers = []\<rparr>;
          n = length (agents_running p);
          a = \<lparr>p_agent_id = agent, p_cwd = cwd, p_connection = start i process info (mcp_servers cfg),
               p_idle_since = Some now\<rparr>;
          p1 = p\<lparr>agents_running := agents_running p @ [a]\<rparr>
      in (Serve uuid n, if resume_ttl cfg \<noteq> 0 then pool_insert uuid n p1 else p1))"

definition websocket ::
  "'a config_env \<Rightarrow> ('a, 'o) config \<Rightarrow> (string \<Rightarrow> agent_command option) \<Rightarrow> (string \<times> string) list \<Rightarrow>
   process_os \<Rightarrow> string \<Rightarrow> nat \<Rightarrow> (path \<Rightarrow> 'i) \<Rightarrow> connect \<Rightarrow> 'i pool \<Rightarrow> ws_reply \<times> 'i pool" where
  "websocket C cfg resolve names os uuid now mk c p =
     (case resolve (cn_agent c) of
        None \<Rightarrow> (UnknownAgent (cn_agent c), p)
      | Some command \<Rightarrow>
          (case requested_cwd C cfg c of
             Inl refusal \<Rightarrow> (refusal, p)
           | Inr cwd \<Rightarrow>
               (case Option.bind (cn_resume c) (\<lambda>i. pool_resume p i (cn_agent c) cwd) of
                  Some n \<Rightarrow> (Serve (case cn_resume c of None \<Rightarrow> [] | Some i \<Rightarrow> i) n, p)
                | None \<Rightarrow>
                    (case spawn_agent os command cwd of
                       Inl e \<Rightarrow> (NotStarted (cn_agent c) (error_chain e), p)
                     | Inr process \<Rightarrow>
                         start_agent cfg names uuid now (mk cwd) (cn_agent c) command cwd process p))))"

section \<open>Serving a socket\<close>

definition serve_begin ::
  "('i, 'z) relay_env_scheme \<Rightarrow> nat \<Rightarrow> 'i pool \<Rightarrow> 64 word \<times> nat \<times> 'i pool" where
  "serve_begin E n p =
     (let a = mark_attached (agents_running p ! n);
          (g, ch, c) = attach_begin E (p_connection a)
      in (g, ch, modify_agent n (\<lambda>_. a\<lparr>p_connection := c\<rparr>) p))"

definition serve_end ::
  "('i \<Rightarrow> 'i) \<Rightarrow> string \<Rightarrow> nat \<Rightarrow> 64 word \<Rightarrow> nat \<Rightarrow> bool \<Rightarrow> nat \<Rightarrow> 'i pool \<Rightarrow> detached \<times> 'i pool" where
  "serve_end stop i n g ch reader_ended now p =
     (let a = agents_running p ! n;
          why = detached_by reader_ended g (p_connection a);
          p1 = modify_agent n (\<lambda>_. mark_idle now (a\<lparr>p_connection := attach_end g ch why (p_connection a)\<rparr>)) p
      in (why,
          if why = AgentGone
          then (case pool_remove i p1 of
                  (None, p2) \<Rightarrow> p2
                | (Some m, p2) \<Rightarrow> modify_agent m (shutdown stop) p2)
          else p1))"

section \<open>What the pool promises\<close>

lemma hm_get_foldl_remove:
  "hm_get (foldl (\<lambda>m i. hm_remove i m) m gone) j = (if j \<in> set gone then None else hm_get m j)"
  by (induction gone arbitrary: m) auto

lemma sweep_lemma:
  assumes "hm_ok (connections p)"
  shows "(\<forall>i n. (i, n) \<in> set (fst (take_expired now ttl p)) \<longleftrightarrow>
      hm_get (connections p) i = Some n \<and> expired now ttl (agents_running p ! n)) \<and>
    (\<forall>i. hm_get (connections (snd (take_expired now ttl p))) i =
      (case hm_get (connections p) i of
         None \<Rightarrow> None
       | Some n \<Rightarrow> if expired now ttl (agents_running p ! n) then None else Some n))"
proof -
  let ?gone = "map fst (filter (\<lambda>(i, n). expired now ttl (agents_running p ! n)) (connections p))"
  have gone: "i \<in> set ?gone \<longleftrightarrow> (\<exists>n. hm_get (connections p) i = Some n \<and> expired now ttl (agents_running p ! n))" for i
    using assms by (force simp: hm_ok_def)
  have taken: "fst (take_expired now ttl p) =
      List.map_filter (\<lambda>i. map_option (\<lambda>n. (i, n)) (hm_get (connections p) i)) ?gone"
    and left: "connections (snd (take_expired now ttl p)) = foldl (\<lambda>m i. hm_remove i m) (connections p) ?gone"
    by (simp_all add: take_expired_def Let_def)
  have "(i, n) \<in> set (fst (take_expired now ttl p)) \<longleftrightarrow>
      i \<in> set ?gone \<and> hm_get (connections p) i = Some n" for i n
    unfolding taken List.map_filter_def by force
  then show ?thesis
    unfolding left hm_get_foldl_remove gone by (auto split: option.split)
qed

text \<open>
  C19: A socket is only ever given an agent started for what it asks: the agent it names, in the
  directory it names, which is inside a root or the default one; either it is the one its
  resume id names, and the pool is as it was, or it is a new one with nobody attached.
\<close>

theorem sockets_get_the_agent_they_ask_for:
  assumes "websocket C cfg resolve names os uuid now mk c p = (Serve i n, p')"
  shows "\<exists>cwd. requested_cwd C cfg c = Inr cwd \<and>
    p_agent_id (agents_running p' ! n) = cn_agent c \<and>
    path_parts (p_cwd (agents_running p' ! n)) = path_parts cwd \<and>
    (cn_resume c = Some i \<and> hm_get (connections p) i = Some n \<and> p' = p \<or>
     i = uuid \<and> n = length (agents_running p) \<and> agents_running p' = agents_running p @ [agents_running p' ! n] \<and>
     \<not> connection_attached (p_connection (agents_running p' ! n)))"
proof -
  obtain cwd where cwd: "requested_cwd C cfg c = Inr cwd"
    using assms
    by (auto simp: websocket_def requested_cwd_def split: option.splits sum.splits if_splits)
  show ?thesis
  proof (cases "Option.bind (cn_resume c) (\<lambda>i. pool_resume p i (cn_agent c) cwd)")
    case None
    with assms cwd obtain command process where
      "start_agent cfg names uuid now (mk cwd) (cn_agent c) command cwd process p = (Serve i n, p')"
      by (auto simp: websocket_def split: option.splits sum.splits)
    with cwd show ?thesis
      by (auto simp: start_agent_def pool_insert_def start_def new_relay_def new_sink_def
          connection_attached_def is_attached_def Let_def split: if_splits)
  next
    case (Some m)
    then obtain j where "cn_resume c = Some j" "pool_resume p j (cn_agent c) cwd = Some m"
      by (auto simp: bind_eq_Some_conv)
    with assms Some cwd show ?thesis
      by (auto simp: websocket_def pool_resume_def Let_def split: option.splits if_splits)
  qed
qed

section \<open>Reaping and attached browsers\<close>

datatype 'i pool_event =
    SocketOpened nat
  | SocketClosed string nat "64 word" nat bool nat
  | Sweep nat
  | AgentDied nat
  | AgentStarted string "'i pooled"

text \<open>Whom a closing socket concerns; no socket of this agent closes.\<close>

fun closes :: "nat \<Rightarrow> 'i pool_event \<Rightarrow> bool" where
  "closes n (SocketClosed i m g ch r now) \<longleftrightarrow> m = n"
| "closes n _ \<longleftrightarrow> False"

fun pool_step ::
  "('i, 'z) relay_env_scheme \<Rightarrow> ('i \<Rightarrow> 'i) \<Rightarrow> nat \<Rightarrow> 'i pool \<Rightarrow> 'i pool_event \<Rightarrow> 'i pool" where
  "pool_step E stop ttl p (SocketOpened n) = snd (snd (serve_begin E n p))"
| "pool_step E stop ttl p (SocketClosed i n g ch r now) = snd (serve_end stop i n g ch r now p)"
| "pool_step E stop ttl p (Sweep now) = reap stop now ttl p"
| "pool_step E stop ttl p (AgentDied n) =
     modify_agent n (\<lambda>a. a\<lparr>p_connection := agent_gone (p_connection a)\<rparr>) p"
| "pool_step E stop ttl p (AgentStarted i a) =
     pool_insert i (length (agents_running p)) (p\<lparr>agents_running := agents_running p @ [a]\<rparr>)"

definition pool_run ::
  "('i, 'z) relay_env_scheme \<Rightarrow> ('i \<Rightarrow> 'i) \<Rightarrow> nat \<Rightarrow> 'i pool \<Rightarrow> 'i pool_event list \<Rightarrow> 'i pool" where
  "pool_run E stop ttl p evs = foldl (pool_step E stop ttl) p evs"

section \<open>What a sweep takes\<close>

lemma hm_ok_foldl_remove: "hm_ok m \<Longrightarrow> hm_ok (foldl (\<lambda>m i. hm_remove i m) m gone)"
  by (induction gone arbitrary: m) (auto intro: inv_intros)

lemma connections_modify [simp]: "connections (modify_agent n f p) = connections p"
  by (simp add: modify_agent_def)

lemma connections_sweep:
  "connections (foldl (\<lambda>p (i, m). modify_agent m (shutdown stop) p) p taken) = connections p"
  by (induction taken arbitrary: p) auto

lemma pool_step_ok: "hm_ok (connections p) \<Longrightarrow> hm_ok (connections (pool_step E stop ttl p ev))"
  by (cases ev)
    (auto simp: serve_begin_def serve_end_def reap_def take_expired_def pool_remove_def pool_insert_def
      connections_sweep case_prod_beta Let_def split: option.split intro: inv_intros hm_ok_foldl_remove)

lemma pool_run_ok: "hm_ok (connections p) \<Longrightarrow> hm_ok (connections (pool_run E stop ttl p evs))"
  unfolding pool_run_def by (induction evs arbitrary: p) (simp_all add: pool_step_ok)

text \<open>
  Whatever has happened to the pool, a sweep takes exactly the agents that have gone or have
  had nobody watching for the whole ttl, each with the id it is registered by, and leaves
  every other one registered as it was.
\<close>

theorem sweep_takes_the_expired:
  "let p = pool_run E stop ttl0 new_pool evs
   in (\<forall>i n. (i, n) \<in> set (fst (take_expired now ttl p)) \<longleftrightarrow>
      hm_get (connections p) i = Some n \<and> expired now ttl (agents_running p ! n)) \<and>
    (\<forall>i. hm_get (connections (snd (take_expired now ttl p))) i =
      (case hm_get (connections p) i of
         None \<Rightarrow> None
       | Some n \<Rightarrow> if expired now ttl (agents_running p ! n) then None else Some n))"
  unfolding Let_def by (rule sweep_lemma, rule pool_run_ok) (simp add: new_pool_def inv_intros)

definition watched :: "nat \<Rightarrow> 'i pool \<Rightarrow> bool" where
  "watched n p \<longleftrightarrow> n < length (agents_running p) \<and> p_idle_since (agents_running p ! n) = None"

lemma watched_modify:
  "watched n p \<Longrightarrow> (m = n \<longrightarrow> p_idle_since (f (agents_running p ! n)) = None) \<Longrightarrow> watched n (modify_agent m f p)"
  by (cases "m = n") (simp_all add: watched_def modify_agent_def)

lemma watched_shutdown: "watched n p \<Longrightarrow> watched n (modify_agent m (shutdown stop) p)"
  by (rule watched_modify) (simp_all add: watched_def shutdown_def)

lemma watched_sweep:
  "watched n p \<Longrightarrow> watched n (foldl (\<lambda>p (i, m). modify_agent m (shutdown stop) p) p taken)"
  by (induction taken arbitrary: p) (auto simp: watched_shutdown)

lemma watched_reap:
  assumes "watched n p"
  shows "watched n (reap stop now ttl p)"
proof (cases "ttl = 0")
  case False
  have "watched n (snd (take_expired now ttl p))"
    using assms by (simp add: watched_def take_expired_def Let_def)
  from watched_sweep [OF this] False show ?thesis by (simp add: reap_def case_prod_beta Let_def)
qed (simp add: reap_def assms)

lemma watched_step: "watched n p \<Longrightarrow> \<not> closes n ev \<Longrightarrow> watched n (pool_step E stop ttl p ev)"
proof (cases ev)
  case (SocketOpened m)
  moreover assume "watched n p"
  ultimately show ?thesis
    by (auto simp: serve_begin_def mark_attached_def case_prod_beta Let_def intro: watched_modify)
next
  case (SocketClosed i m g ch r now)
  moreover assume w: "watched n p" and "\<not> closes n ev"
  ultimately have "watched n (modify_agent m f p)" for f
    by (intro watched_modify) simp_all
  then have "watched n p1 \<Longrightarrow> watched n (p1\<lparr>connections := c\<rparr>)" for p1 :: "'a pool" and c
    by (simp add: watched_def)
  with \<open>\<And>f. watched n (modify_agent m f p)\<close> SocketClosed show ?thesis
    by (auto simp: serve_end_def pool_remove_def watched_shutdown Let_def split: option.split)
next
  case (Sweep now)
  moreover assume "watched n p"
  ultimately show ?thesis by (simp add: watched_reap)
next
  case (AgentDied m)
  assume w: "watched n p"
  then have "p_idle_since (agents_running p ! n) = None" by (simp add: watched_def)
  then show ?thesis unfolding AgentDied pool_step.simps by (intro watched_modify w) simp
next
  case (AgentStarted i a)
  moreover assume "watched n p"
  ultimately show ?thesis by (simp add: watched_def pool_insert_def nth_append)
qed

lemma watched_run: "watched n p \<Longrightarrow> \<forall>ev \<in> set evs. \<not> closes n ev \<Longrightarrow> watched n (pool_run E stop ttl p evs)"
  unfolding pool_run_def by (induction evs arbitrary: p) (simp_all add: watched_step)

text \<open>
  An agent whose socket has opened is safe from the reaper until a socket of it closes: whatever
  else happens in the pool, a sweep at any later time leaves it, as long as it is running.
\<close>

theorem attached_agents_are_not_reaped:
  fixes E :: "('i, 'z) relay_env_scheme" and stop :: "'i \<Rightarrow> 'i" and ttl :: nat
  assumes "n < length (agents_running p)" and "\<forall>ev \<in> set evs. \<not> closes n ev"
  defines "p1 \<equiv> pool_run E stop ttl p (SocketOpened n # evs)"
  shows "\<not> is_finished (p_connection (agents_running p1 ! n)) \<longrightarrow>
    \<not> expired now ttl' (agents_running p1 ! n)"
proof -
  have "watched n (pool_step E stop ttl p (SocketOpened n))"
    using assms(1)
    by (simp add: serve_begin_def mark_attached_def modify_agent_def watched_def case_prod_beta Let_def)
  from watched_run [OF this assms(2)] have "watched n p1" by (simp add: p1_def pool_run_def)
  then show ?thesis by (simp add: watched_def expired_def idle_for_def)
qed

text \<open>
  When a second socket takes an agent over, the first one's task marks the agent idle on its
  way out, although the second is attached: the agent is alive and has a browser, and the
  first sweep after the ttl shuts it down.
\<close>

theorem taken_over_agents_are_reaped:
  fixes E :: "('i, 'z) relay_env_scheme" and stop :: "'i \<Rightarrow> 'i" and now :: nat
  assumes "hm_ok (connections p)" and "hm_get (connections p) i = Some n" and "n < length (agents_running p)"
    and "agent_alive (p_connection (agents_running p ! n))" and "0 < ttl"
  defines "first \<equiv> serve_begin E n p"
  defines "second \<equiv> serve_begin E n (snd (snd first))"
  defines "left \<equiv> serve_end stop i n (fst first) (fst (snd first)) True now (snd (snd second))"
  defines "swept \<equiv> reap stop (now + ttl) ttl (snd left)"
  shows "fst left = TakenOver \<and>
    connection_attached (p_connection (agents_running (snd left) ! n)) \<and>
    agent_alive (p_connection (agents_running (snd left) ! n)) \<and>
    hm_get (connections swept) i = None \<and> \<not> agent_alive (p_connection (agents_running swept ! n))"
proof -
  let ?c = "p_connection (agents_running p ! n)"
  obtain g ch c1 where a1: "attach_begin E ?c = (g, ch, c1)" by (metis prod_cases3)
  obtain g' ch' c2 where a2: "attach_begin E c1 = (g', ch', c2)" by (metis prod_cases3)
  note outcome = takeover_outcome [OF a1 a2]
  have first: "fst first = g" "fst (snd first) = ch" "p_connection (agents_running (snd (snd first)) ! n) = c1"
    "connections (snd (snd first)) = connections p" "n < length (agents_running (snd (snd first)))"
    using assms(3) a1 by (simp_all add: first_def serve_begin_def mark_attached_def modify_agent_def)
  have second: "p_connection (agents_running (snd (snd second)) ! n) = c2"
    "connections (snd (snd second)) = connections p" "n < length (agents_running (snd (snd second)))"
    using first a2 by (simp_all add: second_def serve_begin_def mark_attached_def modify_agent_def)
  have left: "fst left = TakenOver" "p_connection (agents_running (snd left) ! n) = c2\<lparr>watchers := watchers c2 - 1\<rparr>"
    "p_idle_since (agents_running (snd left) ! n) = Some now" "connections (snd left) = connections p"
    "n < length (agents_running (snd left))"
    using first second outcome
    by (simp_all add: left_def serve_end_def mark_idle_def modify_agent_def Let_def)
  have watched: "watchers (p_connection (agents_running (snd left) ! n)) \<noteq> 0"
    using left(2) outcome(6) by simp
  have "expired (now + ttl) ttl (agents_running (snd left) ! n)"
    using left(3) by (simp add: expired_def idle_for_def)
  then have gone: "hm_get (connections (snd (take_expired (now + ttl) ttl (snd left)))) i = None"
    and taken: "(i, n) \<in> set (fst (take_expired (now + ttl) ttl (snd left)))"
    using sweep_lemma [of "snd left" "now + ttl" ttl] assms(1,2) left(4) by simp_all
  have keep: "connections (foldl (\<lambda>p (i, m). modify_agent m (shutdown stop) p) q xs) = connections q"
    for xs and q :: "'i pool"
    by (induction xs arbitrary: q) (auto simp: modify_agent_def)
  have dead: "\<not> agent_alive (p_connection (agents_running (foldl (\<lambda>p (i, m). modify_agent m (shutdown stop) p) q xs) ! n))"
    if "n < length (agents_running q)"
      "(\<exists>j. (j, n) \<in> set xs) \<and> watchers (p_connection (agents_running q ! n)) \<noteq> 0 \<or>
       \<not> agent_alive (p_connection (agents_running q ! n))"
    for xs and q :: "'i pool"
    using that
  proof (induction xs arbitrary: q)
    case (Cons x xs)
    obtain j m where x: "x = (j, m)" by (cases x)
    from Cons.IH [of "modify_agent m (shutdown stop) q"] Cons.prems x show ?case
      by (cases "m = n")
        (auto simp: modify_agent_def shutdown_def connection_shutdown_def agent_gone_def nth_list_update Let_def)
  qed simp
  have swept: "swept = foldl (\<lambda>p (i, m). modify_agent m (shutdown stop) p)
      (snd (take_expired (now + ttl) ttl (snd left))) (fst (take_expired (now + ttl) ttl (snd left)))"
    using assms(5) by (simp add: swept_def reap_def case_prod_beta Let_def)
  have "n < length (agents_running (snd (take_expired (now + ttl) ttl (snd left))))"
    using left(5) by (simp add: take_expired_def Let_def)
  moreover have "(\<exists>j. (j, n) \<in> set (fst (take_expired (now + ttl) ttl (snd left)))) \<and>
      watchers (p_connection (agents_running (snd (take_expired (now + ttl) ttl (snd left))) ! n)) \<noteq> 0"
    using taken watched by (auto simp: take_expired_def Let_def)
  ultimately have "\<not> agent_alive (p_connection (agents_running swept ! n))"
    unfolding swept by (rule dead [OF _ disjI1])
  moreover have "hm_get (connections swept) i = None"
    unfolding swept keep by (rule gone)
  ultimately show ?thesis
    using left(1,2) outcome(1,5) assms(4) by (simp add: connection_attached_def)
qed

section \<open>Agents that die alone\<close>

text \<open>
  C20: An agent that dies with no browser attached is not seen to: the browser that comes back
  for it is given it as if it ran, nothing tells that browser that the agent has gone, and
  no sweep takes the agent while it waits.
\<close>

theorem dead_agents_are_handed_out:
  fixes E :: "('i, 'z) relay_env_scheme" and stop :: "'i \<Rightarrow> 'i" and ttl :: nat
  assumes "hm_get (connections p) i = Some n" and "n < length (agents_running p)"
    and "agent_alive (p_connection (agents_running p ! n))" and "watchers (p_connection (agents_running p ! n)) = 0"
    and "resolve (cn_agent c) \<noteq> None" and "requested_cwd C cfg c = Inr cwd" and "cn_resume c = Some i"
    and "p_agent_id (agents_running p ! n) = cn_agent c"
    and "path_parts (p_cwd (agents_running p ! n)) = path_parts cwd"
  defines "p1 \<equiv> pool_step E stop ttl p (AgentDied n)"
  defines "p2 \<equiv> pool_step E stop ttl p1 (SocketOpened n)"
  shows "websocket C cfg resolve names os uuid now mk c p1 = (Serve i n, p1) \<and>
    \<not> is_finished (p_connection (agents_running p2 ! n)) \<and>
    connection_attached (p_connection (agents_running p2 ! n)) \<and>
    \<not> expired now' ttl' (agents_running p2 ! n)"
proof -
  have p1: "p1 = p"
    using assms(4) by (simp add: p1_def modify_agent_def agent_gone_def)
  have "websocket C cfg resolve names os uuid now mk c p1 = (Serve i n, p1)"
    using assms(1,5-9) unfolding p1 by (auto simp: websocket_def pool_resume_def Let_def)
  moreover have "p_connection (agents_running p2 ! n) =
      snd (snd (attach_begin E (p_connection (agents_running p ! n))))" "p_idle_since (agents_running p2 ! n) = None"
    using assms(2) by (simp_all add: p2_def p1 serve_begin_def mark_attached_def modify_agent_def case_prod_beta Let_def)
  moreover have "agent_alive (snd (snd (attach_begin E k))) = agent_alive k"
      "connection_attached (snd (snd (attach_begin E k)))" for k :: "'i connection"
    by (simp_all add: attach_begin_eq connection_attached_def is_attached_def nth_append Let_def)
  ultimately show ?thesis using assms(3) by (simp add: is_finished_def expired_def idle_for_def)
qed

section \<open>Concrete pools\<close>

definition demo_agent :: "unit pooled" where
  "demo_agent = \<lparr>p_agent_id = ''mock'', p_cwd = ''/w'', p_connection = start () demo_process demo_info [],
     p_idle_since = Some 0\<rparr>"

definition demo_pool :: "unit pool" where
  "demo_pool = \<lparr>connections = [(''c1'', 0)], agents_running = [demo_agent]\<rparr>"

definition pool_config :: "(string, string) config" where
  "pool_config = \<lparr>base_dir = ''/'', bind = [], workspace_roots = [''/w''], registry_url = [],
     cache_dir = ''/c'', agents = [], mcp_servers = [], resume_ttl = 300\<rparr>"

definition demo_command :: agent_command where
  "demo_command = \<lparr>ac_program = ''mock'', ac_args = [], ac_env = []\<rparr>"

definition demo_os :: process_os where
  "demo_os = \<lparr>inherited_env = [], launch = (\<lambda>_ _ _ _. Inr 7)\<rparr>"

definition demo_connect :: connect where
  "demo_connect = \<lparr>cn_agent = ''mock'', cn_cwd = None, cn_resume = Some ''c1''\<rparr>"

theorem sockets_get_the_agent_they_ask_for_witness:
  "\<exists>cwd. requested_cwd demo_config_env pool_config demo_connect = Inr cwd \<and>
    path_parts (p_cwd demo_agent) = path_parts cwd"
proof -
  have "websocket demo_config_env pool_config (\<lambda>_. Some demo_command) [] demo_os ''u'' 0 (\<lambda>_. ())
      demo_connect demo_pool = (Serve ''c1'' 0, demo_pool)"
    by (simp add: websocket_def requested_cwd_def demo_connect_def pool_config_def default_cwd_def
        pool_resume_def demo_pool_def demo_agent_def Let_def)
  from sockets_get_the_agent_they_ask_for [OF this] show ?thesis
    by (auto simp: demo_pool_def)
qed

theorem dead_agents_are_handed_out_witness:
  "websocket demo_config_env pool_config (\<lambda>_. Some demo_command) [] demo_os ''u'' 0 (\<lambda>_. ()) demo_connect
     (pool_step (demo_env Forward [] []) id 5 demo_pool (AgentDied 0)) =
   (Serve ''c1'' 0, pool_step (demo_env Forward [] []) id 5 demo_pool (AgentDied 0))"
  by (rule dead_agents_are_handed_out [where cwd = "''/w''", THEN conjunct1])
    (simp_all add: demo_pool_def demo_agent_def start_def demo_connect_def requested_cwd_def pool_config_def default_cwd_def)

lemmas demo_pool_simps = demo_pool_def demo_agent_def start_def

theorem attached_agents_are_not_reaped_witness:
  "let p1 = pool_run (demo_env Forward [] []) id 5 demo_pool [SocketOpened 0, Sweep 9]
   in agent_alive (p_connection (agents_running p1 ! 0)) \<and> \<not> expired 10000 5 (agents_running p1 ! 0)"
proof -
  let ?p = "pool_run (demo_env Forward [] []) id 5 demo_pool [SocketOpened 0, Sweep 9]"
  have safe: "\<not> is_finished (p_connection (agents_running ?p ! 0)) \<longrightarrow> \<not> expired 10000 5 (agents_running ?p ! 0)"
    by (rule attached_agents_are_not_reaped) (simp_all add: demo_pool_def)
  have "agent_alive (p_connection (agents_running ?p ! 0))"
    by (simp add: pool_run_def serve_begin_def attach_begin_eq mark_attached_def modify_agent_def
        demo_pool_simps reap_def take_expired_def expired_def is_finished_def idle_for_def
        List.map_filter_def Let_def)
  with safe show ?thesis by (simp add: Let_def is_finished_def)
qed

theorem taken_over_agents_are_reaped_witness:
  "let E = demo_env Forward [] [];
       (g, ch, p1) = serve_begin E 0 demo_pool;
       (_, _, p2) = serve_begin E 0 p1;
       (why, p3) = serve_end id ''c1'' 0 g ch True 7 p2
   in why = TakenOver \<and> connection_attached (p_connection (agents_running p3 ! 0)) \<and>
      \<not> agent_alive (p_connection (agents_running (reap id 12 5 p3) ! 0))"
  using taken_over_agents_are_reaped [where p = demo_pool and i = "''c1''" and n = 0 and ttl = 5 and
      E = "demo_env Forward [] []" and stop = id and now = 7]
  by (simp add: demo_pool_simps hm_ok_def case_prod_beta Let_def)

end
