(* ===== verification/Catalog.thy ===== *)
theory Catalog
  imports Agent_Process Workspace_Props "HOL-Library.Product_Lexorder" "HOL-Library.Multiset"
begin

text \<open>
  \<open>crates/mjx-agent-catalog/src\<close>: the registry document and the command each way of
  distributing an agent gives (\<open>registry.rs\<close>), and the catalog: the agents of the
  configuration file, then those of the registry, whether each can be started, and the
  command an id stands for (\<open>lib.rs\<close>). The HTTP client and the JSON of the cached document
  are parameters; the file system is theory \<open>Disk\<close>.
\<close>

section \<open>The registry document\<close>

record package_distribution =
  pd_package :: string
  pd_args :: "string list"
  pd_env :: "(string \<times> string) list"

record binary_distribution =
  bd_archive :: string
  bd_cmd :: string
  bd_args :: "string list"
  bd_env :: "(string \<times> string) list"
  bd_sha256 :: "string option"

record distribution =
  di_npx :: "package_distribution option"
  di_uvx :: "package_distribution option"
  di_binary :: "(string \<times> binary_distribution) list"

record registry_agent =
  ra_id :: string
  ra_name :: string
  ra_description :: "string option"
  ra_version :: "string option"
  ra_icon :: "string option"
  ra_distribution :: distribution

record registry_document =
  rd_version :: string
  rd_agents :: "registry_agent list"

definition ascii_digit :: "char \<Rightarrow> bool" where
  "ascii_digit c \<longleftrightarrow> 48 \<le> (of_char c :: nat) \<and> (of_char c :: nat) \<le> 57"

definition number_part :: "string \<Rightarrow> bool" where
  "number_part p \<longleftrightarrow> p \<noteq> [] \<and> list_all ascii_digit p"

definition semver_core :: "string \<Rightarrow> string" where
  "semver_core v = takeWhile (\<lambda>c. c \<noteq> CHR ''-'' \<and> c \<noteq> CHR ''+'') v"

definition is_semver :: "string \<Rightarrow> bool" where
  "is_semver v \<longleftrightarrow>
     (case split_on (CHR ''.'') (semver_core v) of
        [major, minor, patch] \<Rightarrow> number_part major \<and> number_part minor \<and> number_part patch
      | _ \<Rightarrow> False)"

definition bounded_npm_package_spec :: "string \<Rightarrow> string" where
  "bounded_npm_package_spec spec =
     (case rsplit_once (CHR ''@'') spec of
        None \<Rightarrow> spec
      | Some (package, version) \<Rightarrow>
          if package = [] \<or> \<not> is_semver version then spec
          else package @ ''@0.0.0 - '' @ version)"

definition to_command :: "distribution \<Rightarrow> agent_command option" where
  "to_command d =
     (case di_npx d of
        Some npx \<Rightarrow> Some \<lparr>ac_program = ''npx'',
          ac_args = [''-y'', bounded_npm_package_spec (pd_package npx)] @ pd_args npx, ac_env = pd_env npx\<rparr>
      | None \<Rightarrow>
          (case di_uvx d of
             Some uvx \<Rightarrow> Some \<lparr>ac_program = ''uvx'', ac_args = [pd_package uvx] @ pd_args uvx,
                               ac_env = pd_env uvx\<rparr>
           | None \<Rightarrow> None))"

text \<open>\<open>std::env::consts\<close> are the platform's: two arguments.\<close>

definition host_target :: "string \<Rightarrow> string \<Rightarrow> string" where
  "host_target os arch = (if os = ''macos'' then ''darwin'' else os) @ ''-'' @ arch"

definition binary_for_this_host :: "string \<Rightarrow> string \<Rightarrow> distribution \<Rightarrow> binary_distribution option" where
  "binary_for_this_host os arch d = map_of (di_binary d) (host_target os arch)"

section \<open>The catalog\<close>

datatype availability =
    Ready
  | MissingProgram string
  | NeedsManualInstall

fun is_ready :: "availability \<Rightarrow> bool" where
  "is_ready Ready = True"
| "is_ready _ = False"

record agent_entry =
  ae_id :: string
  ae_name :: string
  ae_description :: "string option"
  ae_icon :: "string option"
  ae_availability :: availability
  ae_command :: "string list option"
  ae_is_local_override :: bool

record agent_override =
  ao_id :: string
  ao_name :: string
  ao_description :: "string option"
  ao_command :: string
  ao_args :: "string list"
  ao_env :: "(string \<times> string) list"

record catalog =
  c_overrides :: "agent_override list"
  c_registry :: "registry_document option"
  c_base_dir :: path

definition new_catalog :: "path \<Rightarrow> agent_override list \<Rightarrow> registry_document option \<Rightarrow> catalog" where
  "new_catalog base overrides registry =
     \<lparr>c_overrides = overrides, c_registry = registry, c_base_dir = base\<rparr>"

text \<open>The machine as the catalog sees it: the files, and the variable \<open>PATH\<close>.\<close>

record machine_env =
  me_disk :: disk
  me_path :: "string option"

text \<open>\<open>Path::is_file\<close>, on a path as its names below a directory.\<close>

definition file_at :: "disk \<Rightarrow> names \<Rightarrow> names \<Rightarrow> bool" where
  "file_at d from ns =
     (case walk d False MAX_LINKS from ns of
        None \<Rightarrow> False
      | Some p \<Rightarrow> (case node_at d p of Some (File s) \<Rightarrow> True | _ \<Rightarrow> False))"

text \<open>Where a path starts: the root, or the process's working directory.\<close>

definition starting_at :: "disk \<Rightarrow> path \<Rightarrow> names" where
  "starting_at d p = (if is_absolute_path p then [] else process_cwd d)"

text \<open>\<open>with_extension("cmd")\<close> on the last name.\<close>

definition file_stem :: "string \<Rightarrow> string" where
  "file_stem n =
     (case rsplit_once (CHR ''.'') n of
        None \<Rightarrow> n | Some (stem, ext) \<Rightarrow> if stem = [] then n else stem)"

definition with_cmd :: "names \<Rightarrow> names" where
  "with_cmd ns = (case file_name ns of None \<Rightarrow> ns | Some n \<Rightarrow> butlast ns @ [file_stem n @ ''.cmd''])"

definition found_in :: "disk \<Rightarrow> string \<Rightarrow> path \<Rightarrow> bool" where
  "found_in d program dir =
     (let candidate = components dir @ components program
      in program \<noteq> [] \<and> file_at d (starting_at d dir) candidate \<or> file_at d (starting_at d dir) (with_cmd candidate))"

definition program_exists :: "machine_env \<Rightarrow> string \<Rightarrow> bool" where
  "program_exists M program =
     (if is_absolute_path program \<or> CHR ''/'' \<in> set program
      then \<not> ends_with program ''/'' \<and> file_at (me_disk M) (starting_at (me_disk M) program) (components program)
      else case me_path M of
             None \<Rightarrow> False
           | Some paths \<Rightarrow> list_ex (found_in (me_disk M) program) (split_on (CHR '':'') paths))"

definition availability_of :: "machine_env \<Rightarrow> agent_command \<Rightarrow> availability" where
  "availability_of M c =
     (if program_exists M (ac_program c) then Ready else MissingProgram (ac_program c))"

definition resolve_program :: "catalog \<Rightarrow> string \<Rightarrow> string" where
  "resolve_program c program =
     (if CHR ''/'' \<in> set program then path_join (c_base_dir c) program else program)"

definition override_command :: "catalog \<Rightarrow> agent_override \<Rightarrow> agent_command" where
  "override_command c over =
     \<lparr>ac_program = resolve_program c (ao_command over), ac_args = ao_args over, ac_env = ao_env over\<rparr>"

definition override_entry :: "machine_env \<Rightarrow> catalog \<Rightarrow> agent_override \<Rightarrow> agent_entry" where
  "override_entry M c over =
     (let command = override_command c over
      in \<lparr>ae_id = ao_id over, ae_name = ao_name over, ae_description = ao_description over, ae_icon = None,
          ae_availability = availability_of M command, ae_command = Some (display_command command),
          ae_is_local_override = True\<rparr>)"

definition registry_entry :: "machine_env \<Rightarrow> registry_agent \<Rightarrow> agent_entry" where
  "registry_entry M a =
     (let command = to_command (ra_distribution a)
      in \<lparr>ae_id = ra_id a, ae_name = ra_name a, ae_description = ra_description a, ae_icon = ra_icon a,
          ae_availability = (case command of Some cmd \<Rightarrow> availability_of M cmd | None \<Rightarrow> NeedsManualInstall),
          ae_command = map_option display_command command, ae_is_local_override = False\<rparr>)"

definition registry_agents :: "catalog \<Rightarrow> registry_agent list" where
  "registry_agents c = (case c_registry c of None \<Rightarrow> [] | Some r \<Rightarrow> rd_agents r)"

text \<open>The second loop of \<open>entries\<close>: an id that is already there is passed over.\<close>

fun add_registry :: "machine_env \<Rightarrow> registry_agent list \<Rightarrow> agent_entry list \<Rightarrow> agent_entry list" where
  "add_registry M [] es = es"
| "add_registry M (a # as) es =
     add_registry M as
       (if list_ex (\<lambda>e. ae_id e = ra_id a) es then es else es @ [registry_entry M a])"

definition picker_key :: "agent_entry \<Rightarrow> bool \<times> bool" where
  "picker_key e = (\<not> is_ready (ae_availability e), \<not> ae_is_local_override e)"

definition unsorted_entries :: "machine_env \<Rightarrow> catalog \<Rightarrow> agent_entry list" where
  "unsorted_entries M c = add_registry M (registry_agents c) (map (override_entry M c) (c_overrides c))"

definition entries :: "machine_env \<Rightarrow> catalog \<Rightarrow> agent_entry list" where
  "entries M c = sort_key picker_key (unsorted_entries M c)"

definition resolve :: "catalog \<Rightarrow> string \<Rightarrow> agent_command option" where
  "resolve c i =
     (case find (\<lambda>o'. ao_id o' = i) (c_overrides c) of
        Some over \<Rightarrow> Some (override_command c over)
      | None \<Rightarrow>
          (case c_registry c of
             None \<Rightarrow> None
           | Some r \<Rightarrow>
               (case find (\<lambda>a. ra_id a = i) (rd_agents r) of
                  None \<Rightarrow> None | Some a \<Rightarrow> to_command (ra_distribution a))))"

section \<open>Fetching the registry\<close>

text \<open>What serde makes of a document in the cache.\<close>

record registry_env =
  print_document :: "registry_document \<Rightarrow> json_error + string"
  read_document :: "string \<Rightarrow> json_error + registry_document"

definition write_cache ::
  "registry_env \<Rightarrow> names \<Rightarrow> registry_document \<Rightarrow> disk \<Rightarrow> (string + unit) \<times> disk" where
  "write_cache R file doc d =
     (case (case parent_of file of None \<Rightarrow> Some d | Some parent \<Rightarrow> create_dir_all d parent) of
        None \<Rightarrow> (Inl ''create_dir_all'', d)
      | Some d1 \<Rightarrow>
          (case print_document R doc of
             Inl e \<Rightarrow> (Inl e, d1)
           | Inr content \<Rightarrow>
               (case write_file d1 file content of
                  None \<Rightarrow> (Inl ''write'', d1) | Some d2 \<Rightarrow> (Inr (), d2))))"

text \<open>
  \<open>fetched\<close> is what the network gave. The cache directory is canonical names; a failure to
  write the cache is only logged.
\<close>

definition fetch_registry ::
  "registry_env \<Rightarrow> string + registry_document \<Rightarrow> names \<Rightarrow> disk \<Rightarrow> registry_document option \<times> disk" where
  "fetch_registry R fetched cache d =
     (let file = cache @ [''registry.json'']
      in case fetched of
           Inr doc \<Rightarrow> (Some doc, snd (write_cache R file doc d))
         | Inl _ \<Rightarrow>
             (case read_to_string d file of
                None \<Rightarrow> (None, d)
              | Some content \<Rightarrow>
                  (case read_document R content of Inl _ \<Rightarrow> (None, d) | Inr doc \<Rightarrow> (Some doc, d))))"

section \<open>The order of the picker\<close>

text \<open>The registry's agents that get an entry: the first of each id not seen before.\<close>

fun firsts :: "string list \<Rightarrow> registry_agent list \<Rightarrow> registry_agent list" where
  "firsts seen [] = []"
| "firsts seen (a # as) =
     (if ra_id a \<in> set seen then firsts seen as else a # firsts (seen @ [ra_id a]) as)"

lemma entry_ids [simp]:
  "ae_id (override_entry M c over) = ao_id over" "ae_id (registry_entry M a) = ra_id a"
  "ae_is_local_override (override_entry M c over)" "\<not> ae_is_local_override (registry_entry M a)"
  by (simp_all add: override_entry_def registry_entry_def Let_def)

lemma add_registry_eq: "add_registry M as es = es @ map (registry_entry M) (firsts (map ae_id es) as)"
proof (induction as arbitrary: es)
  case (Cons a as)
  have "list_ex (\<lambda>e. ae_id e = ra_id a) es \<longleftrightarrow> ra_id a \<in> set (map ae_id es)"
    by (induction es) auto
  then show ?case using Cons by simp
qed simp

lemma unsorted_eq:
  "unsorted_entries M c = map (override_entry M c) (c_overrides c) @
     map (registry_entry M) (firsts (map ao_id (c_overrides c)) (registry_agents c))"
  by (simp add: unsorted_entries_def add_registry_eq o_def)

lemma mset_four: "mset xs = mset (filter (\<lambda>x. P x \<and> Q x) xs) + mset (filter (\<lambda>x. P x \<and> \<not> Q x) xs) +
    mset (filter (\<lambda>x. \<not> P x \<and> Q x) xs) + mset (filter (\<lambda>x. \<not> P x \<and> \<not> Q x) xs)"
  by (induction xs) auto

lemma sort_two_flags:
  "sort_key (\<lambda>x. (\<not> P x, \<not> Q x)) xs =
     filter (\<lambda>x. P x \<and> Q x) xs @ filter (\<lambda>x. P x \<and> \<not> Q x) xs @
     filter (\<lambda>x. \<not> P x \<and> Q x) xs @ filter (\<lambda>x. \<not> P x \<and> \<not> Q x) xs"
  (is "sort_key ?f xs = ?ys")
proof (rule properties_for_sort_key)
  show "mset ?ys = mset xs"
    using mset_four [of xs P Q] by (simp add: add.assoc)
  show "filter (\<lambda>x. ?f k = ?f x) ?ys = filter (\<lambda>x. ?f k = ?f x) xs" if "k \<in> set ?ys" for k
    by (cases "P k"; cases "Q k") (simp_all add: conj_commute)
  show "sorted (map ?f ?ys)"
  proof -
    have const: "sorted (map ?f ys)" if "\<And>y. y \<in> set ys \<Longrightarrow> ?f y = k" for ys k
      using that by (induction ys) auto
    show ?thesis
      using const [of "filter (\<lambda>x. P x \<and> Q x) xs" "(False, False)"]
        const [of "filter (\<lambda>x. P x \<and> \<not> Q x) xs" "(False, True)"]
        const [of "filter (\<lambda>x. \<not> P x \<and> Q x) xs" "(True, False)"]
        const [of "filter (\<lambda>x. \<not> P x \<and> \<not> Q x) xs" "(True, True)"]
      by (auto simp: sorted_append)
  qed
qed

text \<open>
  The picker's order: what can be started first, and of that what the configuration file
  names before what the registry offers; within each of the four groups the order of the
  file, or of the registry, is kept. The registry gives one entry per id, its first, and
  none for an id the file names.
\<close>

theorem picker_order:
  "entries M c =
     (let file = map (override_entry M c) (c_overrides c);
          registry = map (registry_entry M) (firsts (map ao_id (c_overrides c)) (registry_agents c));
          ready = \<lambda>e. is_ready (ae_availability e)
      in filter ready file @ filter ready registry @
         filter (\<lambda>e. \<not> ready e) file @ filter (\<lambda>e. \<not> ready e) registry)"
proof -
  let ?file = "map (override_entry M c) (c_overrides c)"
  let ?registry = "map (registry_entry M) (firsts (map ao_id (c_overrides c)) (registry_agents c))"
  have local: "filter (\<lambda>e. P e \<and> ae_is_local_override e) (?file @ ?registry) = filter P ?file"
    and remote: "filter (\<lambda>e. P e \<and> \<not> ae_is_local_override e) (?file @ ?registry) = filter P ?registry" for P
    by (simp_all add: filter_map o_def)
  have key: "picker_key = (\<lambda>e. (\<not> is_ready (ae_availability e), \<not> ae_is_local_override e))"
    by (rule ext) (simp add: picker_key_def)
  show ?thesis
    using local [of "\<lambda>e. is_ready (ae_availability e)"] local [of "\<lambda>e. \<not> is_ready (ae_availability e)"]
      remote [of "\<lambda>e. is_ready (ae_availability e)"] remote [of "\<lambda>e. \<not> is_ready (ae_availability e)"]
    by (simp only: entries_def key sort_two_flags unsorted_eq Let_def)
qed

section \<open>What is shown is what runs\<close>

lemma firsts_spec:
  "set (map ra_id (firsts seen as)) = set (map ra_id as) - set seen \<and> distinct (map ra_id (firsts seen as)) \<and>
   (\<forall>a \<in> set (firsts seen as). find (\<lambda>b. ra_id b = ra_id a) as = Some a)"
proof (induction as arbitrary: seen)
  case (Cons a as)
  show ?case
  proof (cases "ra_id a \<in> set seen")
    case True
    have "ra_id b \<noteq> ra_id a" if "b \<in> set (firsts seen as)" for b
      using Cons [of seen] imageI [OF that, of ra_id] True by auto
    with Cons [of seen] True show ?thesis by auto
  next
    case False
    have "ra_id b \<noteq> ra_id a" if "b \<in> set (firsts (seen @ [ra_id a]) as)" for b
      using Cons [of "seen @ [ra_id a]"] imageI [OF that, of ra_id] by auto
    with Cons [of "seen @ [ra_id a]"] False show ?thesis by auto
  qed
qed simp

lemma find_distinct:
  "distinct (map f xs) \<Longrightarrow> x \<in> set xs \<Longrightarrow> find (\<lambda>y. f y = f x) xs = Some x"
  by (induction xs) (auto simp: rev_image_eqI)

lemma resolve_override:
  "find (\<lambda>o'. ao_id o' = i) (c_overrides c) = Some over \<Longrightarrow> resolve c i = Some (override_command c over)"
  by (simp add: resolve_def)

lemma resolve_registry:
  "i \<notin> set (map ao_id (c_overrides c)) \<Longrightarrow>
     resolve c i = Option.bind (find (\<lambda>a. ra_id a = i) (registry_agents c)) (\<lambda>a. to_command (ra_distribution a))"
proof -
  assume "i \<notin> set (map ao_id (c_overrides c))"
  then have "find (\<lambda>o'. ao_id o' = i) (c_overrides c) = None" by (auto simp: find_None_iff)
  then show ?thesis
    by (simp add: resolve_def registry_agents_def split: option.split)
qed

lemma unsorted_ids:
  "map ae_id (unsorted_entries M c) = map ao_id (c_overrides c) @
     map ra_id (firsts (map ao_id (c_overrides c)) (registry_agents c))"
  by (simp add: unsorted_eq o_def)

lemma set_entries: "set (entries M c) = set (unsorted_entries M c)"
  by (simp add: entries_def)

text \<open>An entry tells the truth of an id: the command it shows, and whether that can be started.\<close>

definition truthful :: "machine_env \<Rightarrow> catalog \<Rightarrow> agent_entry \<Rightarrow> bool" where
  "truthful M c e \<longleftrightarrow>
     ae_command e = map_option display_command (resolve c (ae_id e)) \<and>
     ae_availability e = (case resolve c (ae_id e) of
        None \<Rightarrow> NeedsManualInstall | Some cmd \<Rightarrow> availability_of M cmd)"

lemma catalog_agrees:
  assumes "distinct (map ao_id (c_overrides c))"
  shows "distinct (map ae_id (entries M c)) \<and> (\<forall>e \<in> set (entries M c). truthful M c e) \<and>
    (\<forall>i. resolve c i \<noteq> None \<longrightarrow> i \<in> set (map ae_id (entries M c)))"
proof (intro conjI ballI allI impI)
  let ?ids = "map ao_id (c_overrides c)"
  note firsts = firsts_spec [of ?ids "registry_agents c"]
  have "distinct (map ae_id (unsorted_entries M c))"
    unfolding unsorted_ids using assms firsts by auto
  then show "distinct (map ae_id (entries M c))"
    by (metis entries_def mset_map mset_sort mset_eq_imp_distinct_iff)
  fix e assume "e \<in> set (entries M c)"
  then consider over where "over \<in> set (c_overrides c)" "e = override_entry M c over"
    | a where "a \<in> set (firsts ?ids (registry_agents c))" "e = registry_entry M a"
    by (auto simp: set_entries unsorted_eq)
  then show "truthful M c e"
  proof cases
    case 1
    with find_distinct [OF assms 1(1)] resolve_override [of "ao_id over" c over] show ?thesis
      by (simp add: truthful_def) (simp add: override_entry_def Let_def)
  next
    case 2
    then have new: "ra_id a \<notin> set ?ids" and found: "find (\<lambda>b. ra_id b = ra_id a) (registry_agents c) = Some a"
      using firsts by auto
    have "resolve c (ra_id a) = to_command (ra_distribution a)"
      using found by (simp add: resolve_registry [OF new])
    with 2 show ?thesis
      by (simp add: truthful_def) (simp add: registry_entry_def Let_def)
  qed
next
  fix i assume i: "resolve c i \<noteq> None"
  let ?ids = "map ao_id (c_overrides c)"
  have "i \<in> set ?ids \<union> set (map ra_id (registry_agents c))"
  proof (rule ccontr)
    assume no: "i \<notin> set ?ids \<union> set (map ra_id (registry_agents c))"
    then have "find (\<lambda>a. ra_id a = i) (registry_agents c) = None" by (auto simp: find_None_iff)
    with no i show False using resolve_registry [of i c] by simp
  qed
  then have "i \<in> set (map ae_id (unsorted_entries M c))"
    unfolding unsorted_ids using firsts_spec [of ?ids "registry_agents c"] by auto
  then show "i \<in> set (map ae_id (entries M c))" by (simp add: set_entries)
qed

text \<open>
  C32: The two views of the catalog agree when the file gives each agent an id of its own: the
  picker has one entry per id, shows for it exactly the command that choosing it starts,
  says it is ready exactly when that program is there, and offers every id that can be
  started.
\<close>

theorem picker_and_resolve_agree:
  assumes "distinct (map ao_id (c_overrides c))"
  shows "distinct (map ae_id (entries M c)) \<and> (\<forall>e \<in> set (entries M c). truthful M c e) \<and>
    (\<forall>i. resolve c i \<noteq> None \<longrightarrow> i \<in> set (map ae_id (entries M c)))"
  using assms by (rule catalog_agrees)

definition demo_override :: "string \<Rightarrow> string \<Rightarrow> agent_override" where
  "demo_override i command = \<lparr>ao_id = i, ao_name = i, ao_description = None, ao_command = command,
     ao_args = [], ao_env = []\<rparr>"

definition demo_machine :: machine_env where
  "demo_machine = \<lparr>me_disk = demo_disk, me_path = Some ''/w''\<rparr>"

theorem picker_and_resolve_agree_witness:
  "list_all (truthful demo_machine (new_catalog ''/w'' [demo_override ''a'' ''a'', demo_override ''b'' ''none''] None))
     (entries demo_machine (new_catalog ''/w'' [demo_override ''a'' ''a'', demo_override ''b'' ''none''] None))"
  using picker_and_resolve_agree [of "new_catalog ''/w'' [demo_override ''a'' ''a'', demo_override ''b'' ''none''] None"
      demo_machine]
  by (simp add: new_catalog_def demo_override_def list_all_iff)

text \<open>
  Without that the two disagree: of two entries of the file with the same id the picker
  shows both, each with its own command, and choosing either starts the first.
\<close>

theorem second_override_never_runs:
  assumes "c_overrides c = xs @ a # ys @ b # zs" and "ao_id a = ao_id b" and "ao_id a \<notin> set (map ao_id xs)"
  shows "override_entry M c a \<in> set (entries M c) \<and> override_entry M c b \<in> set (entries M c) \<and>
    ae_command (override_entry M c b) = Some (display_command (override_command c b)) \<and>
    resolve c (ae_id (override_entry M c b)) = Some (override_command c a)"
proof -
  have "find (\<lambda>o'. ao_id o' = ao_id b) (xs @ a # ys @ b # zs) = Some a"
    using assms(2,3) by (induction xs) auto
  then have "resolve c (ao_id b) = Some (override_command c a)"
    by (intro resolve_override) (simp add: assms(1))
  then show ?thesis
    by (simp add: set_entries unsorted_eq assms(1)) (simp add: override_entry_def Let_def)
qed

theorem second_override_never_runs_witness:
  "resolve (new_catalog ''/w'' [demo_override ''a'' ''one'', demo_override ''a'' ''two''] None) ''a'' =
     Some (override_command (new_catalog ''/w'' [demo_override ''a'' ''one'', demo_override ''a'' ''two''] None)
             (demo_override ''a'' ''one''))"
  using second_override_never_runs [of "new_catalog ''/w'' [demo_override ''a'' ''one'', demo_override ''a'' ''two''] None"
      "[]" "demo_override ''a'' ''one''" "[]" "demo_override ''a'' ''two''" "[]" demo_machine]
  by (simp add: new_catalog_def demo_override_def)

section \<open>Package specifications\<close>

lemma range_not_semver: "\<not> is_semver (''0.0.0 - '' @ v)"
proof -
  have "semver_core (''0.0.0 - '' @ v) = ''0.0.0 ''" by (simp add: semver_core_def)
  moreover have "split_on (CHR ''.'') ''0.0.0 '' = [''0'', ''0'', ''0 '']" by simp
  moreover have "\<not> number_part ''0 ''" by (simp add: number_part_def ascii_digit_def)
  ultimately show ?thesis by (simp add: is_semver_def)
qed

text \<open>
  Only a package with a name and a version of three numbers is given a range, whose upper
  end is that version; anything else, a tag, a range, a scope without a version, is passed
  on as it is, so a specification that has been bounded once stays as it is.
\<close>

theorem bounding_is_idempotent:
  "bounded_npm_package_spec (bounded_npm_package_spec spec) = bounded_npm_package_spec spec \<and>
   (bounded_npm_package_spec spec = spec \<or>
    (\<exists>package version. spec = package @ ''@'' @ version \<and> package \<noteq> [] \<and> is_semver version \<and>
       bounded_npm_package_spec spec = package @ ''@0.0.0 - '' @ version))"
proof (cases "rsplit_once (CHR ''@'') spec")
  case None
  then have "bounded_npm_package_spec spec = spec" unfolding bounded_npm_package_spec_def by (simp only: option.case)
  then show ?thesis by simp
next
  case (Some pv)
  obtain package version where pv: "pv = (package, version)" by (cases pv)
  have spec: "spec = package @ CHR ''@'' # version" "CHR ''@'' \<notin> set version"
    using Some pv by (simp_all add: rsplit_once_Some)
  show ?thesis
  proof (cases "package = [] \<or> \<not> is_semver version")
    case True
    with Some pv have "bounded_npm_package_spec spec = spec"
      unfolding bounded_npm_package_spec_def by (simp only: option.case prod.case if_True)
    then show ?thesis by simp
  next
    case False
    then have bounded: "bounded_npm_package_spec spec = package @ CHR ''@'' # (''0.0.0 - '' @ version)"
      using Some pv by (simp add: bounded_npm_package_spec_def)
    have "rsplit_once (CHR ''@'') (package @ CHR ''@'' # (''0.0.0 - '' @ version)) =
        Some (package, ''0.0.0 - '' @ version)"
      using spec(2) by (simp only: rsplit_once_Some) simp
    then have "bounded_npm_package_spec (package @ CHR ''@'' # (''0.0.0 - '' @ version)) =
        package @ CHR ''@'' # (''0.0.0 - '' @ version)"
      using range_not_semver [of version] by (simp add: bounded_npm_package_spec_def)
    with bounded spec(1) False show ?thesis by auto
  qed
qed

section \<open>Working offline\<close>

lemma read_written:
  assumes "real_dir d (butlast p)" and "p \<noteq> []" and "''..'' \<notin> set p" and "p \<notin> set (denies d)"
    and "is_utf8 content"
  shows "read_to_string (d\<lparr>nodes := hm_insert p (File content) (nodes d)\<rparr>) p = Some content"
proof -
  let ?d = "d\<lparr>nodes := hm_insert p (File content) (nodes d)\<rparr>"
  have p: "p = butlast p @ [last p]" using assms(2) by simp
  have "take k (butlast p) \<noteq> p" for k
  proof -
    have "length (take k (butlast p)) < length p" using assms(2) by (cases p rule: rev_cases) auto
    then show ?thesis by (metis less_irrefl)
  qed
  then have "node_at ?d (take k (butlast p)) = node_at d (take k (butlast p))" for k
    by (simp add: node_at_def)
  then have "real_dir ?d (butlast p)" using assms(1) by (simp add: real_dir_def)
  then have "canonical ?d p = Some p"
    unfolding canonical_def using assms(2,3) by (intro walk_file [where s = content]) (simp_all add: node_at_def)
  then show ?thesis using assms(2,4,5) by (simp add: read_to_string_def node_at_def)
qed

text \<open>
  A server that starts without the network has the registry it last fetched: as long as
  the cache directory is a plain one and what serde printed it can read back, the document
  fetched today is the one every later failed fetch falls back to, and falling back
  changes nothing on the disk.
\<close>

theorem offline_uses_the_last_registry:
  assumes "real_dir d cache" and "''..'' \<notin> set cache" and "cache @ [''registry.json''] \<notin> set (denies d)"
    and "case node_at d (cache @ [''registry.json'']) of None \<Rightarrow> True | Some n \<Rightarrow> \<exists>s. n = File s"
    and "print_document R doc = Inr content" and "read_document R content = Inr doc" and "is_utf8 content"
  shows "let (today, d1) = fetch_registry R (Inr doc) cache d
     in today = Some doc \<and> fetch_registry R (Inl e) cache d1 = (Some doc, d1)"
proof -
  let ?p = "cache @ [''registry.json'']"
  let ?d = "d\<lparr>nodes := hm_insert ?p (File content) (nodes d)\<rparr>"
  have no_link: "\<not> (\<exists>a t. node_at d ?p = Some (Link a t))" and no_dir: "node_at d ?p \<noteq> Some Dir"
    using assms(4) by auto
  have "write_file d ?p content = Some ?d"
    using write_file_real [of ?p d content] assms(1,2,3) no_link no_dir by simp
  then have "write_cache R ?p doc d = (Inr (), ?d)"
    using create_dir_all_real [OF assms(1)] assms(5) by (simp add: write_cache_def parent_of_def)
  moreover have "read_to_string ?d ?p = Some content"
    by (rule read_written) (use assms in simp_all)
  ultimately show ?thesis
    using assms(6) by (simp add: fetch_registry_def)
qed

definition demo_registry :: registry_env where
  "demo_registry = \<lparr>print_document = (\<lambda>doc. Inr (rd_version doc)),
     read_document = (\<lambda>s. Inr \<lparr>rd_version = s, rd_agents = []\<rparr>)\<rparr>"

theorem offline_uses_the_last_registry_witness:
  "let (today, d1) = fetch_registry demo_registry (Inr \<lparr>rd_version = ''1'', rd_agents = []\<rparr>) [''w''] demo_disk
   in fetch_registry demo_registry (Inl ''offline'') [''w''] d1 = (Some \<lparr>rd_version = ''1'', rd_agents = []\<rparr>, d1)"
proof -
  have "real_dir demo_disk [''w'']" by (auto simp: real_dir_def node_at_def demo_disk_def le_Suc_eq)
  from offline_uses_the_last_registry [OF this, of demo_registry "\<lparr>rd_version = ''1'', rd_agents = []\<rparr>" "''1''" "''offline''"]
  show ?thesis by (simp add: demo_registry_def demo_disk_def node_at_def is_utf8_def case_prod_beta Let_def)
qed

end
