(* ===== verification/Server.thy ===== *)
theory Server
  imports Pool Catalog System
begin

text \<open>
  The rest of \<open>crates/mjx-acp-server/src/main.rs\<close>, with \<open>Config::load\<close>: what is decided
  before the server listens, and what each route answers out of the configuration, the
  catalog, the disk and the pool. Parsing the command line and TOML, the router and the
  listener are not modelled.
\<close>

section \<open>Addresses\<close>

datatype ip_addr = V4 "8 word" "8 word" "8 word" "8 word" | V6 "16 word list"

record socket_addr =
  sa_ip :: ip_addr
  sa_port :: "16 word"

text \<open>\<open>IpAddr::is_loopback\<close>: 127.0.0.0/8, and ::1.\<close>

fun is_loopback :: "ip_addr \<Rightarrow> bool" where
  "is_loopback (V4 a b c d) = (a = 127)"
| "is_loopback (V6 segments) = (segments = [0, 0, 0, 0, 0, 0, 0, 1])"

section \<open>Starting\<close>

type_synonym server_config = "(socket_addr, agent_override) config"

record args =
  arg_config :: path
  arg_bind :: "string option"
  arg_web_dir :: "path option"
  i_know_this_is_unauthenticated :: bool

datatype startup_error =
    CouldNotRead path string
  | CouldNotParse path string
  | BadConfig config_error
  | BadBind string
  | RefusingToBind ip_addr

text \<open>What reading the configuration file gives.\<close>

datatype file_read = FileText string | NoSuchFile | ReadFailed string

definition strip_slashes :: "path \<Rightarrow> path" where
  "strip_slashes p = rev (dropWhile (\<lambda>c. c = CHR ''/'') (rev p))"

text \<open>\<open>Path::parent\<close>.\<close>

definition parent_path :: "path \<Rightarrow> path option" where
  "parent_path p =
     (let q = strip_slashes p
      in if q = [] then None
         else case rsplit_once (CHR ''/'') q of
                None \<Rightarrow> Some []
              | Some (dir, name) \<Rightarrow> Some (if strip_slashes dir = [] then ''/'' else strip_slashes dir))"

definition default_raw :: "'o raw_config" where
  "default_raw = \<lparr>raw_bind = None, raw_resume_ttl_secs = None, raw_roots = [], raw_registry_url = None,
     raw_cache_dir = None, raw_agents = [], raw_mcp_servers = []\<rparr>"

definition config_dir :: "'a config_env \<Rightarrow> path \<Rightarrow> path" where
  "config_dir C p =
     (let dir = (case parent_path p of None \<Rightarrow> ''.'' | Some d \<Rightarrow> if d = [] then ''.'' else d)
      in case canonicalize C dir of None \<Rightarrow> ''.'' | Some d \<Rightarrow> d)"

definition load_config ::
  "'a config_env \<Rightarrow> (string \<Rightarrow> string + 'o raw_config) \<Rightarrow> file_read \<Rightarrow> path \<Rightarrow>
   startup_error + ('a, 'o) config" where
  "load_config C toml content p =
     (case (case content of
              FileText t \<Rightarrow> (case toml t of Inl e \<Rightarrow> Inl (CouldNotParse p e) | Inr r \<Rightarrow> Inr r)
            | NoSuchFile \<Rightarrow> Inr default_raw
            | ReadFailed e \<Rightarrow> Inl (CouldNotRead p e)) of
        Inl e \<Rightarrow> Inl e
      | Inr raw \<Rightarrow> (case from_raw C raw (config_dir C p) of Inl e \<Rightarrow> Inl (BadConfig e) | Inr c \<Rightarrow> Inr c))"

record 'i app_state =
  as_config :: server_config
  as_catalog :: catalog
  as_pool :: "'i pool"

text \<open>The override of \<open>--bind\<close>, and the refusal.\<close>

definition bind_address :: "socket_addr config_env \<Rightarrow> args \<Rightarrow> server_config \<Rightarrow> startup_error + server_config" where
  "bind_address C a cfg =
     (case (case arg_bind a of
              None \<Rightarrow> Inr cfg
            | Some b \<Rightarrow> (case parse_addr C b of None \<Rightarrow> Inl (BadBind b) | Some addr \<Rightarrow> Inr (cfg\<lparr>bind := addr\<rparr>))) of
        Inl e \<Rightarrow> Inl e
      | Inr cfg1 \<Rightarrow>
          if \<not> is_loopback (sa_ip (bind cfg1)) \<and> \<not> i_know_this_is_unauthenticated a
          then Inl (RefusingToBind (sa_ip (bind cfg1))) else Inr cfg1)"

text \<open>\<open>main\<close> up to the listener; \<open>fetched\<close> is what the network gave for the registry.\<close>

definition start_up ::
  "socket_addr config_env \<Rightarrow> (string \<Rightarrow> string + agent_override raw_config) \<Rightarrow> registry_env \<Rightarrow>
   args \<Rightarrow> file_read \<Rightarrow> string + registry_document \<Rightarrow> disk \<Rightarrow>
   (startup_error + path \<times> 'i app_state) \<times> disk" where
  "start_up C toml R a content fetched d =
     (case load_config C toml content (arg_config a) of
        Inl e \<Rightarrow> (Inl e, d)
      | Inr cfg0 \<Rightarrow>
          (case bind_address C a cfg0 of
             Inl e \<Rightarrow> (Inl e, d)
           | Inr cfg \<Rightarrow>
               let (registry, d1) = fetch_registry R fetched (components (cache_dir cfg)) d
               in (Inr (case arg_web_dir a of None \<Rightarrow> path_join (base_dir cfg) ''web/dist'' | Some w \<Rightarrow> w,
                        \<lparr>as_config = cfg, as_catalog = new_catalog (base_dir cfg) (agents cfg) registry,
                         as_pool = new_pool\<rparr>), d1)))"

section \<open>What the routes answer\<close>

fun availability_json :: "availability \<Rightarrow> json" where
  "availability_json Ready = JObject [(''state'', JString ''ready'')]"
| "availability_json (MissingProgram p) =
     JObject [(''state'', JString ''missingProgram''), (''program'', JString p)]"
| "availability_json NeedsManualInstall = JObject [(''state'', JString ''needsManualInstall'')]"

definition agent_entry_json :: "agent_entry \<Rightarrow> json" where
  "agent_entry_json e = JObject
     ([(''id'', JString (ae_id e)), (''name'', JString (ae_name e))] @
      skip_none ''description'' JString (ae_description e) @ skip_none ''icon'' JString (ae_icon e) @
      [(''availability'', availability_json (ae_availability e))] @
      skip_none ''command'' strings (ae_command e) @
      [(''isLocalOverride'', JBool (ae_is_local_override e))])"

definition list_agents :: "machine_env \<Rightarrow> 'i app_state \<Rightarrow> json" where
  "list_agents M st = JArray (map agent_entry_json (entries M (as_catalog st)))"

definition list_workspaces :: "'i app_state \<Rightarrow> json" where
  "list_workspaces st = JArray (map (\<lambda>root. JObject
     [(''path'', JString root),
      (''name'', JString (case file_name (components root) of None \<Rightarrow> root | Some n \<Rightarrow> n))])
     (workspace_roots (as_config st)))"








text \<open>
  \<open>HeaderValue::to_str\<close> is \<open>None\<close> unless every byte is visible ASCII or a tab; what is
  trimmed of such a string is spaces and tabs.
\<close>

definition header_text :: "string \<Rightarrow> string option" where
  "header_text h =
     (if list_all (\<lambda>c. 32 \<le> (of_char c :: nat) \<and> (of_char c :: nat) < 127 \<or> c = CHR 0x09) h
      then Some h else None)"

definition trim_header :: "string \<Rightarrow> string" where
  "trim_header s =
     (let space = \<lambda>c. c = CHR 0x20 \<or> c = CHR 0x09
      in rev (dropWhile space (rev (dropWhile space s))))"

definition requested_subprotocol :: "string option \<Rightarrow> string option" where
  "requested_subprotocol header =
     Option.bind (Option.bind header header_text)
       (\<lambda>h. find (\<lambda>p. p \<noteq> []) (map trim_header (split_on (CHR '','') h)))"

text \<open>\<open>websocket\<close> of theory \<open>Pool\<close>, on the catalog and with the interceptor the code gives it.\<close>

definition agent_names :: "machine_env \<Rightarrow> catalog \<Rightarrow> (string \<times> string) list" where
  "agent_names M c = map (\<lambda>e. (ae_id e, ae_name e)) (entries M c)"

definition open_socket ::
  "socket_addr config_env \<Rightarrow> machine_env \<Rightarrow> process_os \<Rightarrow> string \<Rightarrow> nat \<Rightarrow>
   connect \<Rightarrow> string option \<Rightarrow> workspace_interceptor app_state \<Rightarrow>
   string option \<times> ws_reply \<times> workspace_interceptor app_state" where
  "open_socket C M os uuid now c header st =
     (let cfg = as_config st;
          (answer, p) = websocket C cfg (resolve (as_catalog st)) (agent_names M (as_catalog st)) os uuid now
            (\<lambda>cwd. start_interceptor (new_interceptor (workspace_roots cfg) cwd (mcp_servers cfg)))
            c (as_pool st)
      in (requested_subprotocol header, answer, st\<lparr>as_pool := p\<rparr>))"

text \<open>The messages of a socket that are lines for the relay.\<close>

datatype ws_message = TextMessage string | CloseMessage | OtherMessage | TransportError

fun incoming_line :: "ws_message \<Rightarrow> string option" where
  "incoming_line (TextMessage t) = (if is_blank t then Some [] else Some t)"
| "incoming_line CloseMessage = None"
| "incoming_line TransportError = None"
| "incoming_line OtherMessage = Some []"

definition incoming :: "ws_message list \<Rightarrow> string list" where
  "incoming ms = filter (\<lambda>l. l \<noteq> []) (List.map_filter incoming_line ms)"

record connection_summary =
  cs_agent_id :: string
  cs_cwd :: string
  cs_attached :: bool
  cs_idle_seconds :: "nat option"
  cs_pid :: "32 word option"

text \<open>Instants are seconds.\<close>

definition summary_of :: "nat \<Rightarrow> 'i pool \<Rightarrow> nat \<Rightarrow> connection_summary" where
  "summary_of now p n =
     (let a = agents_running p ! n
      in \<lparr>cs_agent_id = p_agent_id a, cs_cwd = p_cwd a, cs_attached = connection_attached (p_connection a),
          cs_idle_seconds = idle_for now a, cs_pid = agent_pid (p_connection a)\<rparr>)"

definition list_connections :: "nat \<Rightarrow> 'i app_state \<Rightarrow> connection_summary list" where
  "list_connections now st = map (\<lambda>(i, n). summary_of now (as_pool st) n) (connections (as_pool st))"

section \<open>Who can reach it\<close>

text \<open>
  A server that starts listens on a loopback address, whatever the file or the command line
  said, unless its operator has said that they know: the address is the command line's
  where it gives one, otherwise the file's. And nothing has been fetched or written when
  it refuses.
\<close>

theorem only_loopback_by_default:
  assumes "start_up C toml R a content fetched d = (started, d')"
  shows "case started of
      Inr (web, st) \<Rightarrow>
        (is_loopback (sa_ip (bind (as_config st))) \<or> i_know_this_is_unauthenticated a) \<and>
        (case arg_bind a of
           Some b \<Rightarrow> parse_addr C b = Some (bind (as_config st))
         | None \<Rightarrow> (case load_config C toml content (arg_config a) of
                       Inr cfg \<Rightarrow> as_config st = cfg | Inl e \<Rightarrow> False))
    | Inl e \<Rightarrow> d' = d"
  using assms
  by (auto simp: start_up_def bind_address_def case_prod_beta Let_def
      split: sum.splits option.splits if_splits)

definition demo_args :: args where
  "demo_args = \<lparr>arg_config = ''mjx.toml'', arg_bind = Some ''0.0.0.0:80'', arg_web_dir = None,
     i_know_this_is_unauthenticated = False\<rparr>"

definition any_address :: "socket_addr config_env" where
  "any_address = \<lparr>parse_addr = (\<lambda>s. Some \<lparr>sa_ip = (if s = DEFAULT_BIND then V4 127 0 0 1 else V4 0 0 0 0), sa_port = 80\<rparr>),
     env_var = (\<lambda>_. None), canonicalize = (\<lambda>p. Some p)\<rparr>"

lemma refused_demo:
  "start_up any_address toml R demo_args NoSuchFile fetched d = (Inl (RefusingToBind (V4 0 0 0 0)), d)"
  by (simp add: start_up_def load_config_def from_raw_def default_raw_def bind_address_def demo_args_def
      any_address_def DEFAULT_BIND_def Let_def)

theorem only_loopback_by_default_witness:
  "snd (start_up any_address (\<lambda>t. Inl t) demo_registry demo_args NoSuchFile (Inl ''offline'') demo_disk) = demo_disk"
  using only_loopback_by_default [OF refused_demo]
  by (simp add: refused_demo)

section \<open>What a browser may see\<close>


definition demo_state :: "workspace_interceptor app_state" where
  "demo_state = \<lparr>as_config = \<lparr>base_dir = ''/w'', bind = \<lparr>sa_ip = V4 127 0 0 1, sa_port = 80\<rparr>,
       workspace_roots = [''/w''], registry_url = [], cache_dir = ''/w'', agents = [], mcp_servers = [],
       resume_ttl = 300\<rparr>,
     as_catalog = new_catalog ''/w'' [demo_override ''a'' ''a''] None, as_pool = new_pool\<rparr>"


text \<open>
  The list of connections gives no connection id away: it is the same whatever ids the
  pool has its agents under.
\<close>

theorem summaries_tell_no_ids:
  "list_connections now
     (st\<lparr>as_pool := (as_pool st)\<lparr>connections := map (\<lambda>(i, n). (rename i, n)) (connections (as_pool st))\<rparr>\<rparr>) =
   list_connections now st"
  by (simp add: list_connections_def summary_of_def case_prod_beta Let_def)

section \<open>What the picker shows is what is started\<close>

lemma entry_name:
  assumes "distinct (map ao_id (c_overrides c))" and "e \<in> set (entries M c)"
  shows "map_of (agent_names M c) (ae_id e) = Some (ae_name e)"
proof -
  have "distinct (map ae_id (entries M c))" using catalog_agrees [OF assms(1)] by blast
  then have "distinct (map fst (agent_names M c))" by (simp add: agent_names_def o_def)
  moreover have "(ae_id e, ae_name e) \<in> set (agent_names M c)"
    using assms(2) by (force simp: agent_names_def)
  ultimately show ?thesis by simp
qed

text \<open>
  Choosing an entry of the picker starts what the entry shows: an agent that must be
  installed first is refused as unknown; for any other the command shown is the one run,
  in the directory asked for, and it is that command and the entry's name the browser is
  told; where it cannot be started the pool is as it was.
\<close>

theorem picker_starts_what_it_shows:
  assumes "distinct (map ao_id (c_overrides (as_catalog st)))" and "e \<in> set (entries M (as_catalog st))"
    and "cn_agent c = ae_id e" and "cn_resume c = None" and "requested_cwd C (as_config st) c = Inr cwd"
    and "open_socket C M os uuid now c header st = (proto, answer, st')"
  shows "case resolve (as_catalog st) (ae_id e) of
      None \<Rightarrow> ae_availability e = NeedsManualInstall \<and> answer = UnknownAgent (ae_id e) \<and> st' = st
    | Some cmd \<Rightarrow> ae_command e = Some (display_command cmd) \<and>
        (case spawn_agent os cmd cwd of
           Inl err \<Rightarrow> answer = NotStarted (ae_id e) (error_chain err) \<and> st' = st
         | Inr process \<Rightarrow> \<exists>a. answer = Serve uuid (length (agents_running (as_pool st))) \<and>
             agents_running (as_pool st') = agents_running (as_pool st) @ [a] \<and>
             ai_command (agent_info_of (relay_of (p_connection a))) = display_command cmd \<and>
             ai_name (agent_info_of (relay_of (p_connection a))) = ae_name e \<and> p_cwd a = cwd \<and>
             handle_of (p_connection a) = Some process)"
proof -
  have truth: "truthful M (as_catalog st) e" using catalog_agrees [OF assms(1)] assms(2) by blast
  note name = entry_name [OF assms(1,2)]
  show ?thesis
  proof (cases "resolve (as_catalog st) (ae_id e)")
    case None
    with truth assms(3,6) show ?thesis by (auto simp: truthful_def open_socket_def websocket_def)
  next
    case (Some cmd)
    then have shown: "ae_command e = Some (display_command cmd)" using truth by (simp add: truthful_def)
    show ?thesis
    proof (cases "spawn_agent os cmd cwd")
      case (Inl err)
      with Some shown assms(3-6) show ?thesis by (auto simp: open_socket_def websocket_def)
    next
      case (Inr u)
      with Some shown assms(3-6) name show ?thesis
        by (auto simp: open_socket_def websocket_def start_agent_def pool_insert_def start_def new_relay_def Let_def
            split: if_splits)
    qed
  qed
qed

lemma demo_entry:
  "override_entry demo_machine (as_catalog demo_state) (demo_override ''a'' ''a'') \<in>
     set (entries demo_machine (as_catalog demo_state))"
  by (simp add: set_entries unsorted_eq demo_state_def new_catalog_def)

theorem picker_starts_what_it_shows_witness:
  "case open_socket any_address demo_machine demo_os ''u'' 0
       \<lparr>cn_agent = ''a'', cn_cwd = None, cn_resume = None\<rparr> None demo_state of
     (proto, answer, st') \<Rightarrow> answer = Serve ''u'' 0"
proof -
  let ?c = "\<lparr>cn_agent = ''a'', cn_cwd = None, cn_resume = None\<rparr>"
  obtain proto answer st' where run:
    "open_socket any_address demo_machine demo_os ''u'' 0 ?c None demo_state = (proto, answer, st')"
    by (rule prod_cases3)
  have found: "resolve (as_catalog demo_state) ''a'' = Some (override_command (as_catalog demo_state) (demo_override ''a'' ''a''))"
    by (simp add: resolve_def demo_state_def new_catalog_def demo_override_def)
  have cwd: "requested_cwd any_address (as_config demo_state) ?c = Inr ''/w''"
    by (simp add: requested_cwd_def default_cwd_def demo_state_def)
  have ids: "distinct (map ao_id (c_overrides (as_catalog demo_state)))"
    by (simp add: demo_state_def new_catalog_def)
  have runs: "spawn_agent demo_os cmd d = Inr \<lparr>ap_pid = 7, ap_ended = None\<rparr>" for cmd d
    by (simp add: spawn_agent_def demo_os_def)
  from picker_starts_what_it_shows [OF ids demo_entry _ _ cwd run] found run show ?thesis
    by (simp add: demo_override_def runs) (simp add: demo_state_def new_pool_def)
qed

section \<open>The subprotocol\<close>

text \<open>
  What is echoed is the first protocol offered that is not blank, trimmed, so a browser
  that offers anything gets one it offered; a header that is not text, or offers nothing,
  gets none.
\<close>

theorem echoed_protocol_was_offered:
  "case requested_subprotocol header of
     None \<Rightarrow> (\<forall>h t. header = Some h \<longrightarrow> header_text h = Some t \<longrightarrow>
        (\<forall>p \<in> set (split_on (CHR '','') t). trim_header p = []))
   | Some p \<Rightarrow> p \<noteq> [] \<and> (\<exists>h t before offered after. header = Some h \<and> header_text h = Some t \<and>
        split_on (CHR '','') t = before @ offered # after \<and> p = trim_header offered \<and>
        (\<forall>b \<in> set before. trim_header b = []))"
proof (cases "requested_subprotocol header")
  case None
  then have "trim_header p = []"
    if "header = Some h" "header_text h = Some t" "p \<in> set (split_on (CHR '','') t)" for h t p
    using that by (auto simp: requested_subprotocol_def find_None_iff)
  then show ?thesis by (auto simp: None)
next
  case (Some p)
  then obtain h t where h: "header = Some h" "header_text h = Some t"
    and p: "find (\<lambda>p. p \<noteq> []) (map trim_header (split_on (CHR '','') t)) = Some p"
    by (auto simp: requested_subprotocol_def bind_eq_Some_conv)
  have "find P (map f xs) = Some y \<Longrightarrow>
      P y \<and> (\<exists>before x after. xs = before @ x # after \<and> y = f x \<and> (\<forall>b \<in> set before. \<not> P (f b)))"
    for P and f :: "string \<Rightarrow> string" and xs y
  proof (induction xs)
    case (Cons x xs)
    show ?case
    proof (cases "P (f x)")
      case True
      with Cons.prems have "P y \<and> x # xs = [] @ x # xs \<and> y = f x \<and> (\<forall>b \<in> set []. \<not> P (f b))" by simp
      then show ?thesis by blast
    next
      case False
      with Cons obtain before z after where "P y" "xs = before @ z # after" "y = f z" "\<forall>b \<in> set before. \<not> P (f b)"
        by auto
      with False have "P y \<and> x # xs = (x # before) @ z # after \<and> y = f z \<and>
          (\<forall>b \<in> set (x # before). \<not> P (f b))" by simp
      then show ?thesis by blast
    qed
  qed simp
  from this [OF p] h show ?thesis unfolding Some option.case by blast
qed

end
