(* ===== verification/Paths.thy ===== *)
theory Paths
  imports Disk Utf8
begin

text \<open>
  \<open>crates/mjx-acp-thread/src/paths.rs\<close>: spellings of paths without a file system, and the
  number parsing of the standard library it uses. A path is its text.
\<close>

section \<open>Numbers\<close>

definition decimal_digit :: "char \<Rightarrow> bool" where
  "decimal_digit c \<longleftrightarrow> 48 \<le> (of_char c :: nat) \<and> (of_char c :: nat) < 58"

text \<open>\<open>str::parse::<u32>\<close>: an optional plus sign, digits, and no overflow.\<close>

definition parse_u32 :: "string \<Rightarrow> 32 word option" where
  "parse_u32 s =
     (let ds = (case strip_prefix ''+'' s of None \<Rightarrow> s | Some r \<Rightarrow> r)
      in if ds \<noteq> [] \<and> list_all decimal_digit ds \<and> undec ds < 2 ^ 32
         then Some (of_nat (undec ds)) else None)"

definition dec_u32 :: "32 word \<Rightarrow> string" where
  "dec_u32 n = dec (unat n)"

definition checked_pred :: "32 word \<Rightarrow> 32 word option" where
  "checked_pred n = (if n = 0 then None else Some (n - 1))"

definition saturating_pred :: "32 word \<Rightarrow> 32 word" where
  "saturating_pred n = (if n = 0 then 0 else n - 1)"

lemma dec_decimal: "list_all decimal_digit (dec n)"
  using dec_digits by (auto simp: list_all_iff decimal_digit_def)

lemma strip_plus_dec [simp]: "strip_prefix ''+'' (dec n) = None"
proof -
  obtain c s where d: "dec n = c # s" by (cases "dec n") auto
  then have "decimal_digit c" using dec_decimal [of n] by simp
  then have "c \<noteq> CHR ''+''" by (auto simp: decimal_digit_def)
  with d show ?thesis by (simp add: strip_prefix_def starts_with_def)
qed

lemma parse_dec_u32 [simp]: "parse_u32 (dec_u32 n) = Some n"
  using dec_decimal [of "unat n"] unsigned_less [of n, where ?'a = nat]
  by (simp add: parse_u32_def dec_u32_def)

lemma pred_succ:
  fixes n :: "32 word"
  assumes "n \<noteq> -1"
  shows "checked_pred (n + 1) = Some n"
proof -
  have "n + 1 \<noteq> 0" using assms by (metis add.commute add_eq_0_iff)
  then show ?thesis by (simp add: checked_pred_def)
qed

lemma checked_pred_bound:
  assumes "checked_pred n = Some m"
  shows "m \<noteq> -1"
  using assms by (auto simp: checked_pred_def split: if_splits)

lemma saturating_pred_bound: "saturating_pred n \<noteq> -1"
  by (auto simp: saturating_pred_def)

section \<open>Styles\<close>

datatype path_style = Unix | Windows

definition ascii_upper :: "char \<Rightarrow> bool" where
  "ascii_upper c \<longleftrightarrow> 65 \<le> (of_char c :: nat) \<and> (of_char c :: nat) \<le> 90"

definition ascii_lower :: "char \<Rightarrow> bool" where
  "ascii_lower c \<longleftrightarrow> 97 \<le> (of_char c :: nat) \<and> (of_char c :: nat) \<le> 122"

definition ascii_alphabetic :: "char \<Rightarrow> bool" where
  "ascii_alphabetic c \<longleftrightarrow> ascii_upper c \<or> ascii_lower c"

definition to_ascii_uppercase :: "char \<Rightarrow> char" where
  "to_ascii_uppercase c = (if ascii_lower c then char_of (of_char c - 32 :: nat) else c)"

abbreviation backslash :: char where
  "backslash \<equiv> CHR 0x5C"

definition has_drive_prefix :: "string \<Rightarrow> bool" where
  "has_drive_prefix p = (case p of drive # c # _ \<Rightarrow> c = CHR '':'' \<and> ascii_alphabetic drive | _ \<Rightarrow> False)"

definition is_absolute :: "string \<Rightarrow> path_style \<Rightarrow> bool" where
  "is_absolute p style =
     (case style of
        Unix \<Rightarrow> starts_with p ''/''
      | Windows \<Rightarrow> starts_with p ''/'' \<or> starts_with p [backslash] \<or> has_drive_prefix p)"

section \<open>Positions\<close>

record path_with_position =
  pp_path :: string
  pp_row :: "32 word option"
  pp_column :: "32 word option"

definition parse_position :: "string \<Rightarrow> path_with_position" where
  "parse_position input =
     (let bare = \<lparr>pp_path = input, pp_row = None, pp_column = None\<rparr>
      in case rsplit_once (CHR '':'') input of
           None \<Rightarrow> bare
         | Some (before, last_part) \<Rightarrow>
             (case parse_u32 last_part of
                None \<Rightarrow> bare
              | Some n \<Rightarrow>
                  (case Option.bind (rsplit_once (CHR '':'') before)
                          (\<lambda>(rest, middle). map_option (\<lambda>m. (rest, m)) (parse_u32 middle)) of
                     Some (rest, m) \<Rightarrow> \<lparr>pp_path = rest, pp_row = Some m, pp_column = Some n\<rparr>
                   | None \<Rightarrow> \<lparr>pp_path = before, pp_row = Some n, pp_column = None\<rparr>)))"

text \<open>The suffix a position is written as.\<close>

definition position_suffix :: "32 word option \<Rightarrow> 32 word option \<Rightarrow> string" where
  "position_suffix row column =
     (case row of None \<Rightarrow> []
      | Some r \<Rightarrow> '':'' @ dec_u32 r @ (case column of None \<Rightarrow> [] | Some c \<Rightarrow> '':'' @ dec_u32 c))"

lemma dec_no_colon: "CHR '':'' \<notin> set (dec_u32 n)"
  using dec_decimal [of "unat n"] by (auto simp: dec_u32_def list_all_iff decimal_digit_def)

lemma rsplit_last:
  "c \<notin> set b \<Longrightarrow> rsplit_once c (a @ c # b) = Some (a, b)"
  by (simp add: rsplit_once_Some)

text \<open>
  A position written after a path is read back, row and column, whatever the path is, as
  long as the path does not itself end in a number after a colon; without a position such
  a path is read as it is. A Windows drive is never taken for one.
\<close>

theorem position_round_trip:
  assumes "case rsplit_once (CHR '':'') p of None \<Rightarrow> True | Some (a, b) \<Rightarrow> parse_u32 b = None"
    and "row = None \<longrightarrow> column = None"
  shows "parse_position (p @ position_suffix row column) = \<lparr>pp_path = p, pp_row = row, pp_column = column\<rparr>"
proof -
  have tail: "Option.bind (rsplit_once (CHR '':'') p)
      (\<lambda>(rest, middle). map_option (\<lambda>m. (rest, m)) (parse_u32 middle)) = None"
  proof (cases "rsplit_once (CHR '':'') p")
    case None
    show ?thesis unfolding None by (simp only: Option.bind.simps)
  next
    case (Some ab)
    with assms(1) show ?thesis
      unfolding Some by (cases ab) simp
  qed
  have one: "rsplit_once (CHR '':'') (q @ CHR '':'' # dec_u32 n) = Some (q, dec_u32 n)" for q n
    using dec_no_colon by (rule rsplit_last)
  show ?thesis
  proof (cases row)
    case None
    with assms(2) have none: "p @ position_suffix row column = p" "column = None"
      by (simp_all add: position_suffix_def)
    have "parse_position p = \<lparr>pp_path = p, pp_row = None, pp_column = None\<rparr>"
    proof (cases "rsplit_once (CHR '':'') p")
      case None
      show ?thesis unfolding parse_position_def Let_def None by simp
    next
      case (Some ab)
      with assms(1) have "parse_u32 (snd ab) = None" by (cases ab) simp
      then show ?thesis unfolding parse_position_def Let_def Some by (cases ab) simp
    qed
    then show ?thesis unfolding none(1) using none(2) \<open>row = None\<close> by simp
  next
    case (Some r)
    show ?thesis
    proof (cases column)
      case None
      then show ?thesis
        using Some tail one [of p r] by (simp add: parse_position_def position_suffix_def)
    next
      case (Some c)
      then show ?thesis
        using \<open>row = Some r\<close> one [of "p @ CHR '':'' # dec_u32 r" c] one [of p r]
        by (simp add: parse_position_def position_suffix_def)
    qed
  qed
qed

theorem position_round_trip_witness:
  "parse_position (''C:'' @ [backslash] @ ''a.rs'' @ position_suffix (Some 10) (Some 2)) =
     \<lparr>pp_path = ''C:'' @ [backslash] @ ''a.rs'', pp_row = Some 10, pp_column = Some 2\<rparr>"
proof -
  have split: "rsplit_once (CHR '':'') (''C:'' @ [backslash] @ ''a.rs'') = Some (''C'', backslash # ''a.rs'')"
    by (simp add: rsplit_once_Some)
  have "parse_u32 (backslash # ''a.rs'') = None"
    by (simp add: parse_u32_def strip_prefix_def starts_with_def decimal_digit_def)
  with split position_round_trip [of "''C:'' @ [backslash] @ ''a.rs''" "Some 10" "Some 2"] show ?thesis
    by simp
qed

end
