(* ===== verification/Mention.thy ===== *)
theory Mention
  imports Paths Json
begin

text \<open>
  \<open>crates/mjx-acp-thread/src/mention.rs\<close>: what a mention points at, the parser of its URI,
  the parser of a hyperlink an agent wrote, and the printer. The crates \<open>url\<close> and
  \<open>percent-encoding\<close> are the parameter \<open>url_lib\<close>; a path is its text.
\<close>

section \<open>The URL crates\<close>

record 'u url_lib =
  parse_url :: "string \<Rightarrow> string + 'u"
  scheme :: "'u \<Rightarrow> string"
  url_path :: "'u \<Rightarrow> string"
  fragment :: "'u \<Rightarrow> string option"
  query_pairs :: "'u \<Rightarrow> (string \<times> string) list"
  set_path :: "'u \<Rightarrow> string \<Rightarrow> 'u"
  append_pair :: "'u \<Rightarrow> string \<Rightarrow> string \<Rightarrow> 'u"
  set_fragment :: "'u \<Rightarrow> string \<Rightarrow> 'u"
  url_text :: "'u \<Rightarrow> string"
  decode_utf8 :: "string \<Rightarrow> string option"

text \<open>
  \<open>decode_utf8 s\<close> is \<open>percent_decode_str(s).decode_utf8().ok()\<close>. The message of a failed
  \<open>Url::parse\<close> is its \<open>to_string\<close>.
\<close>

section \<open>Results\<close>

text \<open>\<open>MentionUriError\<close>: its text, or a text followed by the \<open>{:?}\<close> of a string.\<close>

datatype mention_uri_error = Message string | Message_debug string string

type_synonym 'a parsed = "mention_uri_error + 'a"

fun and_then :: "'e + 'a \<Rightarrow> ('a \<Rightarrow> 'e + 'b) \<Rightarrow> 'e + 'b" where
  "and_then (Inl e) f = Inl e"
| "and_then (Inr x) f = f x"

definition or_message :: "string \<Rightarrow> 'a option \<Rightarrow> 'a parsed" where
  "or_message message r = (case r of None \<Rightarrow> Inl (Message message) | Some x \<Rightarrow> Inr x)"

definition with_context :: "string \<Rightarrow> 'a parsed \<Rightarrow> 'a parsed" where
  "with_context message r = (case r of Inl _ \<Rightarrow> Inl (Message message) | Inr x \<Rightarrow> Inr x)"

section \<open>What a mention points at\<close>

type_synonym line_range = "32 word \<times> 32 word"

datatype 'u mention_uri =
    File string
  | PastedImage string
  | Directory string
  | Symbol string string line_range
  | Thread string string
  | Rule json string
  | Diagnostics bool bool
  | Selection "string option" line_range "32 word option"
  | Fetch 'u
  | TerminalSelection "32 word"
  | GitDiff string
  | MergeConflict string
  | Skill string string string

definition default_include_errors :: bool where
  "default_include_errors = True"

definition user_rule :: "string \<Rightarrow> json" where
  "user_rule uuid = JObject [(''User'', JObject [(''uuid'', JString uuid)])]"

definition default_deprecated_rule_id :: json where
  "default_deprecated_rule_id = user_rule ''00000000-0000-0000-0000-000000000000''"

section \<open>The query of a URL\<close>

definition query_param :: "'u url_lib \<Rightarrow> 'u \<Rightarrow> string \<Rightarrow> string option" where
  "query_param U url name = map_of (query_pairs U url) name"

definition single_query_param :: "'u url_lib \<Rightarrow> 'u \<Rightarrow> string \<Rightarrow> string option parsed" where
  "single_query_param U url name =
     (case query_pairs U url of
        [] \<Rightarrow> Inr None
      | [(k, v)] \<Rightarrow> if k \<noteq> name then Inl (Message ''invalid query parameter'') else Inr (Some v)
      | _ \<Rightarrow> Inl (Message ''too many query pairs''))"

definition validate_query_params :: "'u url_lib \<Rightarrow> 'u \<Rightarrow> string list \<Rightarrow> unit parsed" where
  "validate_query_params U url allowed =
     (if list_all (\<lambda>(key, _). key \<in> set allowed) (query_pairs U url)
      then Inr () else Inl (Message ''invalid query parameter''))"

definition parse_column :: "string option \<Rightarrow> 32 word option" where
  "parse_column input = Option.bind (Option.bind input parse_u32) checked_pred"

section \<open>Lines\<close>

definition one_based :: "string \<Rightarrow> string \<Rightarrow> 32 word parsed" where
  "one_based what s =
     and_then (or_message what (parse_u32 s))
       (\<lambda>n. or_message ''Line numbers should be 1-based'' (checked_pred n))"

definition parse_line_range :: "string \<Rightarrow> line_range parsed" where
  "parse_line_range s =
     (let rng = (case strip_prefix ''L'' s of None \<Rightarrow> s | Some r \<Rightarrow> r);
          (start, end_of) =
            (case split_once (CHR '':'') rng of
               Some (a, b) \<Rightarrow> (a, b)
             | None \<Rightarrow>
                 (case split_once (CHR ''-'') rng of
                    Some (a, b) \<Rightarrow> (a, case strip_prefix ''L'' b of None \<Rightarrow> b | Some r \<Rightarrow> r)
                  | None \<Rightarrow> (rng, rng)))
      in and_then (one_based ''Parsing line range start'' start)
           (\<lambda>a. and_then (one_based ''Parsing line range end'' end_of) (\<lambda>b. Inr (a, b))))"

section \<open>Bare paths\<close>

definition strip_backticks :: "string \<Rightarrow> string" where
  "strip_backticks input =
     (case Option.bind (strip_prefix ''`'' input) (strip_suffix ''`'') of
        None \<Rightarrow> input | Some s \<Rightarrow> s)"

definition split_path_fragment :: "string \<Rightarrow> string \<times> string option" where
  "split_path_fragment input =
     (case split_once (CHR ''#'') input of
        None \<Rightarrow> (input, None) | Some (p, f) \<Rightarrow> (p, Some f))"

definition right_option :: "'e + 'a \<Rightarrow> 'a option" where
  "right_option r = (case r of Inl _ \<Rightarrow> None | Inr x \<Rightarrow> Some x)"

definition absolute_path_mention :: "string \<Rightarrow> string option \<Rightarrow> 'u mention_uri parsed" where
  "absolute_path_mention path_input frag =
     (case Option.bind frag (\<lambda>f. right_option (parse_line_range f)) of
        Some rng \<Rightarrow> Inr (Selection (Some path_input) rng None)
      | None \<Rightarrow>
          (let p = parse_position path_input
           in case pp_row p of
                Some row \<Rightarrow>
                  and_then (or_message ''Line numbers should be 1-based'' (checked_pred row))
                    (\<lambda>line. Inr (Selection (Some (pp_path p)) (line, line)
                                  (map_option saturating_pred (pp_column p))))
              | None \<Rightarrow> Inr (File (pp_path p))))"

definition parse_absolute_path :: "string \<Rightarrow> 'u mention_uri parsed" where
  "parse_absolute_path input =
     (let (path_input, frag) = split_path_fragment input in absolute_path_mention path_input frag)"

section \<open>Escapes and Windows spellings\<close>

definition hex_digit :: "char \<Rightarrow> nat option" where
  "hex_digit c =
     (let n = of_char c
      in if 48 \<le> n \<and> n \<le> 57 then Some (n - 48)
         else if 97 \<le> n \<and> n \<le> 102 then Some (n - 97 + 10)
         else if 65 \<le> n \<and> n \<le> 70 then Some (n - 65 + 10)
         else None)"

text \<open>The byte an escape at the front stands for, unless it is a separator.\<close>

definition escape_at :: "string \<Rightarrow> char option" where
  "escape_at bs =
     (case bs of
        p # h # l # _ \<Rightarrow>
          if p = CHR ''%'' then
            (case (hex_digit h, hex_digit l) of
               (Some high, Some low) \<Rightarrow>
                 (let byte = char_of (16 * high + low)
                  in if byte \<noteq> CHR ''/'' \<and> byte \<noteq> backslash then Some byte else None)
             | _ \<Rightarrow> None)
          else None
      | _ \<Rightarrow> None)"

function unescape :: "string \<Rightarrow> string" where
  "unescape [] = []"
| "unescape (c # s) =
     (case escape_at (c # s) of
        Some byte \<Rightarrow> byte # unescape (drop 2 s)
      | None \<Rightarrow> c # unescape s)"
  by pat_completeness auto

termination by (relation "measure length") auto

text \<open>\<open>Some\<close> is \<open>Cow::Owned\<close>, a decoding that changed the input; \<open>None\<close> borrows it.\<close>

definition decode_path_escapes :: "string \<Rightarrow> string option" where
  "decode_path_escapes input =
     (if CHR ''%'' \<notin> set input then None
      else let decoded = unescape input
           in if decoded = input then None
              else if is_utf8 decoded then Some decoded else None)"

definition slashes_back :: "string \<Rightarrow> string" where
  "slashes_back s = map (\<lambda>c. if c = CHR ''/'' then backslash else c) s"

definition join_drive :: "char \<Rightarrow> string \<Rightarrow> string" where
  "join_drive drive rest = to_ascii_uppercase drive # CHR '':'' # backslash # slashes_back rest"

definition separator :: "char \<Rightarrow> bool" where
  "separator c \<longleftrightarrow> c = CHR ''/'' \<or> c = backslash"

definition slash_drive :: "string \<Rightarrow> string option" where
  "slash_drive p =
     (case p of
        s # drive # c # d # rest \<Rightarrow>
          if s = CHR ''/'' \<and> c = CHR '':'' \<and> separator d \<and> ascii_alphabetic drive
          then Some (join_drive drive rest) else None
      | _ \<Rightarrow> None)"

definition msys_drive :: "string \<Rightarrow> string option" where
  "msys_drive p =
     (case p of
        s # drive # d # rest \<Rightarrow>
          if s = CHR ''/'' \<and> separator d \<and> ascii_lower drive
          then Some (join_drive drive rest) else None
      | _ \<Rightarrow> None)"

definition native_drive :: "string \<Rightarrow> string option" where
  "native_drive p =
     (if ascii_upper (p ! 0) \<and> CHR ''/'' \<notin> set p then None
      else Some (to_ascii_uppercase (p ! 0) # CHR '':'' # slashes_back (drop 2 p)))"

definition to_native_windows_path :: "string \<Rightarrow> string option" where
  "to_native_windows_path p =
     (case slash_drive p of
        Some native \<Rightarrow> Some native
      | None \<Rightarrow>
          (case msys_drive p of
             Some native \<Rightarrow> Some native
           | None \<Rightarrow>
               if has_drive_prefix p then native_drive p
               else if CHR ''/'' \<in> set p then Some (slashes_back p)
               else None))"

definition or_borrowed :: "string \<Rightarrow> string option \<Rightarrow> string" where
  "or_borrowed s owned = (case owned of None \<Rightarrow> s | Some t \<Rightarrow> t)"

datatype decode_percent_escapes = Yes | No

definition normalize_path_mention :: "string \<Rightarrow> path_style \<Rightarrow> decode_percent_escapes \<Rightarrow> string" where
  "normalize_path_mention input style escapes =
     (let decoded = (case escapes of Yes \<Rightarrow> or_borrowed input (decode_path_escapes input) | No \<Rightarrow> input)
      in if style \<noteq> Windows then decoded
         else or_borrowed decoded (to_native_windows_path decoded))"

definition percent_decode :: "'u url_lib \<Rightarrow> string \<Rightarrow> string" where
  "percent_decode U input = or_borrowed input (decode_utf8 U input)"

section \<open>Parsing a URI\<close>

definition parse_file :: "'u url_lib \<Rightarrow> 'u \<Rightarrow> string \<Rightarrow> path_style \<Rightarrow> 'u mention_uri parsed" where
  "parse_file U url input style =
     (let trimmed = (if style = Windows then dropWhile (\<lambda>c. c = CHR ''/'') (url_path U url)
                     else url_path U url);
          decoded = percent_decode U trimmed;
          path = (if style = Windows then or_borrowed decoded (to_native_windows_path decoded)
                  else decoded)
      in case fragment U url of
           Some f \<Rightarrow>
             and_then (validate_query_params U url [''symbol'', ''column''])
               (\<lambda>_. let rng = (case parse_line_range f of Inl _ \<Rightarrow> (1, 1) | Inr r \<Rightarrow> r);
                        column = parse_column (query_param U url ''column'')
                    in case query_param U url ''symbol'' of
                         Some name \<Rightarrow> Inr (Symbol path name rng)
                       | None \<Rightarrow> Inr (Selection (Some path) rng column))
         | None \<Rightarrow> if ends_with input ''/'' then Inr (Directory path) else Inr (File path))"

text \<open>A query of exactly one parameter that must be there, or of at most one with a default.\<close>

definition required_param :: "'u url_lib \<Rightarrow> 'u \<Rightarrow> string \<Rightarrow> string \<Rightarrow> string parsed" where
  "required_param U url name missing =
     and_then (single_query_param U url name) (or_message missing)"

definition optional_param :: "'u url_lib \<Rightarrow> 'u \<Rightarrow> string \<Rightarrow> string \<Rightarrow> string parsed" where
  "optional_param U url name other =
     and_then (single_query_param U url name) (\<lambda>v. Inr (or_borrowed other v))"

definition thread_of_uri :: "'u url_lib \<Rightarrow> 'u \<Rightarrow> string \<Rightarrow> 'u mention_uri parsed" where
  "thread_of_uri U url thread_id =
     and_then (required_param U url ''name'' ''Missing thread name'') (\<lambda>name. Inr (Thread thread_id name))"

definition rule_of_uri :: "'u url_lib \<Rightarrow> 'u \<Rightarrow> string \<Rightarrow> 'u mention_uri parsed" where
  "rule_of_uri U url rule_id =
     and_then (required_param U url ''name'' ''Missing rule name'')
       (\<lambda>name. Inr (Rule (if rule_id = [] then default_deprecated_rule_id else user_rule rule_id) name))"

fun diagnostics_params :: "bool \<Rightarrow> bool \<Rightarrow> (string \<times> string) list \<Rightarrow> 'u mention_uri parsed" where
  "diagnostics_params errs warnings [] = Inr (Diagnostics errs warnings)"
| "diagnostics_params errs warnings ((key, v) # pairs) =
     (if key = ''include_warnings'' then diagnostics_params errs (v = ''true'') pairs
      else if key = ''include_errors'' then diagnostics_params (v = ''true'') warnings pairs
      else Inl (Message ''invalid query parameter''))"

definition untitled_of_uri :: "'u url_lib \<Rightarrow> 'u \<Rightarrow> 'u mention_uri parsed" where
  "untitled_of_uri U url =
     and_then (or_message ''Missing fragment for untitled buffer selection'' (fragment U url))
       (\<lambda>f. and_then (parse_line_range f)
         (\<lambda>rng. and_then (validate_query_params U url [''column''])
           (\<lambda>_. Inr (Selection None rng (parse_column (query_param U url ''column''))))))"

definition symbol_of_uri :: "'u url_lib \<Rightarrow> 'u \<Rightarrow> string \<Rightarrow> 'u mention_uri parsed" where
  "symbol_of_uri U url name =
     and_then (or_message ''Missing fragment for untitled buffer selection'' (fragment U url))
       (\<lambda>f. and_then (parse_line_range f)
         (\<lambda>rng. and_then (required_param U url ''path'' ''Missing path for symbol'')
           (\<lambda>path. Inr (Symbol path name rng))))"

definition selection_of_uri :: "'u url_lib \<Rightarrow> 'u \<Rightarrow> 'u mention_uri parsed" where
  "selection_of_uri U url =
     and_then (validate_query_params U url [''path'', ''column''])
       (\<lambda>_. and_then (or_message ''Missing fragment for selection'' (fragment U url))
         (\<lambda>f. and_then (parse_line_range f)
           (\<lambda>rng. and_then (or_message ''Missing path for selection'' (query_param U url ''path''))
             (\<lambda>path. Inr (Selection (Some path) rng (parse_column (query_param U url ''column'')))))))"

definition terminal_of_uri :: "'u url_lib \<Rightarrow> 'u \<Rightarrow> 'u mention_uri parsed" where
  "terminal_of_uri U url =
     and_then (optional_param U url ''lines'' ''0'')
       (\<lambda>v. Inr (TerminalSelection (case parse_u32 v of None \<Rightarrow> 0 | Some n \<Rightarrow> n)))"

text \<open>The loop over a skill's parameters: what it has seen of each so far.\<close>

fun skill_params ::
  "string option \<Rightarrow> string option \<Rightarrow> string option \<Rightarrow> (string \<times> string) list \<Rightarrow> 'u mention_uri parsed"
where
  "skill_params name source path [] =
     and_then (or_message ''missing skill name'' name)
       (\<lambda>n. and_then (or_message ''missing skill source'' source)
         (\<lambda>s. and_then (or_message ''missing skill file path'' path) (\<lambda>p. Inr (Skill n s p))))"
| "skill_params name source path ((key, v) # pairs) =
     (if key = ''name'' then
        (if name \<noteq> None then Inl (Message ''duplicate skill name query parameter'')
         else skill_params (Some v) source path pairs)
      else if key = ''source'' then
        (if source \<noteq> None then Inl (Message ''duplicate skill source query parameter'')
         else skill_params name (Some v) path pairs)
      else if key = ''path'' then
        (if path \<noteq> None then Inl (Message ''duplicate skill file path query parameter'')
         else skill_params name source (Some v) pairs)
      else Inl (Message ''invalid query parameter''))"

text \<open>The paths of the \<open>zed\<close> scheme that are only prefixes of what may stand there.\<close>

definition parse_zed_prefix :: "'u url_lib \<Rightarrow> 'u \<Rightarrow> string \<Rightarrow> string \<Rightarrow> 'u mention_uri parsed" where
  "parse_zed_prefix U url input path =
     (if starts_with path ''/agent/file'' then
        and_then (required_param U url ''path'' ''Missing path for file'') (\<lambda>p. Inr (File p))
      else if starts_with path ''/agent/directory'' then
        and_then (required_param U url ''path'' ''Missing path for directory'') (\<lambda>p. Inr (Directory p))
      else if starts_with path ''/agent/selection'' then selection_of_uri U url
      else if starts_with path ''/agent/terminal-selection'' then terminal_of_uri U url
      else if starts_with path ''/agent/git-diff'' then
        and_then (optional_param U url ''base'' ''main'') (\<lambda>b. Inr (GitDiff b))
      else if starts_with path ''/agent/merge-conflict'' then
        and_then (optional_param U url ''path'' []) (\<lambda>p. Inr (MergeConflict p))
      else if starts_with path ''/agent/skill'' then skill_params None None None (query_pairs U url)
      else Inl (Message_debug ''invalid zed url: '' input))"

definition parse_zed :: "'u url_lib \<Rightarrow> 'u \<Rightarrow> string \<Rightarrow> 'u mention_uri parsed" where
  "parse_zed U url input =
     (let path = url_path U url
      in case strip_prefix ''/agent/thread/'' path of
           Some thread_id \<Rightarrow> thread_of_uri U url thread_id
         | None \<Rightarrow>
      (case strip_prefix ''/agent/rule/'' path of
           Some rule_id \<Rightarrow> rule_of_uri U url rule_id
         | None \<Rightarrow>
      if path = ''/agent/diagnostics'' then
        diagnostics_params default_include_errors False (query_pairs U url)
      else if starts_with path ''/agent/pasted-image'' then
        and_then (optional_param U url ''name'' ''Image'') (\<lambda>n. Inr (PastedImage n))
      else if starts_with path ''/agent/untitled-buffer'' then untitled_of_uri U url
      else (case strip_prefix ''/agent/symbol/'' path of
           Some name \<Rightarrow> symbol_of_uri U url name
         | None \<Rightarrow> parse_zed_prefix U url input path)))"

definition bare_path :: "string \<Rightarrow> path_style \<Rightarrow> bool" where
  "bare_path input style \<longleftrightarrow> is_absolute input style \<and> \<not> contains input ''://''"

definition parse_mention :: "'u url_lib \<Rightarrow> string \<Rightarrow> path_style \<Rightarrow> 'u mention_uri parsed" where
  "parse_mention U raw_input style =
     (let input = strip_backticks raw_input
      in if bare_path input style
         then with_context (''Invalid absolute path mention URI: '' @ input) (parse_absolute_path input)
         else case parse_url U input of
                Inl e \<Rightarrow> Inl (Message e)
              | Inr url \<Rightarrow>
                  (if scheme U url = ''file'' then parse_file U url input style
                   else if scheme U url = ''zed'' then parse_zed U url input
                   else if scheme U url = ''http'' \<or> scheme U url = ''https'' then Inr (Fetch url)
                   else Inl (Message_debug ''unrecognized scheme '' (scheme U url))))"

section \<open>Hyperlinks\<close>

definition bare_path_target :: "string \<Rightarrow> path_style \<Rightarrow> string option" where
  "bare_path_target raw_input style =
     (let input = strip_backticks raw_input in if bare_path input style then Some input else None)"

definition parse_hyperlink_path ::
  "string \<Rightarrow> path_style \<Rightarrow> decode_percent_escapes \<Rightarrow> 'u mention_uri parsed"
where
  "parse_hyperlink_path input style escapes =
     (let (path_input, frag) = split_path_fragment input
      in absolute_path_mention (normalize_path_mention path_input style escapes) frag)"

definition parse_hyperlink :: "'u url_lib \<Rightarrow> string \<Rightarrow> path_style \<Rightarrow> 'u mention_uri parsed" where
  "parse_hyperlink U input style =
     (case bare_path_target input style of
        Some target \<Rightarrow>
          with_context (''Invalid hyperlink path target: '' @ input)
            (parse_hyperlink_path target style Yes)
      | None \<Rightarrow> parse_mention U input style)"

definition parse_hyperlink_literal :: "string \<Rightarrow> path_style \<Rightarrow> 'u mention_uri option" where
  "parse_hyperlink_literal input style =
     Option.bind (bare_path_target input style)
       (\<lambda>target. if decode_path_escapes (fst (split_path_fragment target)) = None then None
                 else right_option (parse_hyperlink_path target style No))"

section \<open>Printing\<close>

definition unwrap_url :: "'u url_lib \<Rightarrow> string \<Rightarrow> 'u option" where
  "unwrap_url U s = right_option (parse_url U s)"

definition lines_fragment :: "line_range \<Rightarrow> string" where
  "lines_fragment rng = ''L'' @ dec_u32 (fst rng + 1) @ '':'' @ dec_u32 (snd rng + 1)"

definition rule_uuid :: "json \<Rightarrow> string" where
  "rule_uuid v =
     or_borrowed [] (Option.bind (Option.bind (json_get v ''User'') (\<lambda>u. json_get u ''uuid'')) as_str)"

definition append_column :: "'u url_lib \<Rightarrow> 32 word option \<Rightarrow> 'u \<Rightarrow> 'u" where
  "append_column U column url =
     (case column of None \<Rightarrow> url | Some c \<Rightarrow> append_pair U url ''column'' (dec_u32 (c + 1)))"

definition directory_path :: "string \<Rightarrow> string" where
  "directory_path p = (if \<not> ends_with p ''/'' \<and> \<not> ends_with p [backslash] then p @ ''/'' else p)"

text \<open>\<open>None\<close> is the panic of an \<open>unwrap\<close>; the additions wrap as in a release build.\<close>

fun to_uri :: "'u url_lib \<Rightarrow> 'u mention_uri \<Rightarrow> 'u option" where
  "to_uri U (File p) = map_option (\<lambda>u. set_path U u p) (unwrap_url U ''file:///'')"
| "to_uri U (PastedImage name) =
     map_option (\<lambda>u. append_pair U u ''name'' name) (unwrap_url U ''zed:///agent/pasted-image'')"
| "to_uri U (Directory p) =
     map_option (\<lambda>u. set_path U u (directory_path p)) (unwrap_url U ''file:///'')"
| "to_uri U (Symbol p name rng) =
     map_option (\<lambda>u. set_fragment U (append_pair U (set_path U u p) ''symbol'' name) (lines_fragment rng))
       (unwrap_url U ''file:///'')"
| "to_uri U (Selection (Some p) rng column) =
     map_option (\<lambda>u. set_fragment U (append_column U column (set_path U u p)) (lines_fragment rng))
       (unwrap_url U ''file:///'')"
| "to_uri U (Selection None rng column) =
     map_option
       (\<lambda>u. set_fragment U (append_column U column (set_path U u ''/agent/untitled-buffer''))
              (lines_fragment rng))
       (unwrap_url U ''zed:///'')"
| "to_uri U (Thread thread_id name) =
     map_option (\<lambda>u. append_pair U (set_path U u (''/agent/thread/'' @ thread_id)) ''name'' name)
       (unwrap_url U ''zed:///'')"
| "to_uri U (Rule v name) =
     map_option (\<lambda>u. append_pair U (set_path U u (''/agent/rule/'' @ rule_uuid v)) ''name'' name)
       (unwrap_url U ''zed:///'')"
| "to_uri U (Diagnostics errs warnings) =
     map_option
       (\<lambda>u. let u1 = set_path U u ''/agent/diagnostics'';
                u2 = (if warnings then append_pair U u1 ''include_warnings'' ''true'' else u1)
            in if errs then u2 else append_pair U u2 ''include_errors'' ''false'')
       (unwrap_url U ''zed:///'')"
| "to_uri U (Fetch url) = Some url"
| "to_uri U (TerminalSelection n) =
     map_option (\<lambda>u. append_pair U u ''lines'' (dec_u32 n)) (unwrap_url U ''zed:///agent/terminal-selection'')"
| "to_uri U (GitDiff base) =
     map_option (\<lambda>u. append_pair U u ''base'' base) (unwrap_url U ''zed:///agent/git-diff'')"
| "to_uri U (MergeConflict p) =
     map_option (\<lambda>u. append_pair U u ''path'' p) (unwrap_url U ''zed:///agent/merge-conflict'')"
| "to_uri U (Skill name source p) =
     map_option
       (\<lambda>u. append_pair U (append_pair U (append_pair U (set_path U u ''/agent/skill'') ''name'' name)
              ''source'' source) ''path'' p)
       (unwrap_url U ''zed:///'')"

section \<open>Labels\<close>

definition last_name :: "string \<Rightarrow> string" where
  "last_name p = or_borrowed [] (file_name (components p))"

definition selection_name :: "string option \<Rightarrow> line_range \<Rightarrow> string" where
  "selection_name p rng =
     or_borrowed ''Untitled'' (Option.bind p (\<lambda>p. file_name (components p))) @ '' ('' @
     dec_u32 (fst rng + 1) @ '':'' @ dec_u32 (snd rng + 1) @ '')''"

definition line_range_suffix :: "line_range \<Rightarrow> string" where
  "line_range_suffix rng =
     (let start = fst rng + 1; end_of = snd rng + 1
      in if start = end_of then '':'' @ dec_u32 start
         else '':'' @ dec_u32 start @ ''-'' @ dec_u32 end_of)"

fun mention_abs_path :: "'u mention_uri \<Rightarrow> string option" where
  "mention_abs_path (File p) = Some p"
| "mention_abs_path (Directory p) = Some p"
| "mention_abs_path (Symbol p _ _) = Some p"
| "mention_abs_path (Selection p _ _) = p"
| "mention_abs_path (Skill _ _ p) = Some p"
| "mention_abs_path _ = None"

fun mention_name :: "'u url_lib \<Rightarrow> 'u mention_uri \<Rightarrow> string" where
  "mention_name U (File p) = last_name p"
| "mention_name U (Directory p) = last_name p"
| "mention_name U (PastedImage n) = n"
| "mention_name U (Symbol _ n _) = n"
| "mention_name U (Thread _ n) = n"
| "mention_name U (Rule _ n) = n"
| "mention_name U (Diagnostics _ _) = ''Diagnostics''"
| "mention_name U (TerminalSelection n) =
     (if n = 1 then ''Terminal (1 line)'' else ''Terminal ('' @ dec_u32 n @ '' lines)'')"
| "mention_name U (GitDiff b) = ''Branch Diff ('' @ b @ '')''"
| "mention_name U (MergeConflict p) = ''Merge Conflict ('' @ last_name p @ '')''"
| "mention_name U (Selection p rng _) = selection_name p rng"
| "mention_name U (Fetch url) = url_text U url"
| "mention_name U (Skill n _ _) = n"

definition spanned :: "string \<Rightarrow> line_range \<Rightarrow> string" where
  "spanned p rng = p @ '':'' @ dec_u32 (fst rng) @ ''-'' @ dec_u32 (snd rng)"

fun tooltip_text :: "'u mention_uri \<Rightarrow> string option" where
  "tooltip_text (File p) = Some p"
| "tooltip_text (Directory p) = Some p"
| "tooltip_text (Symbol p _ rng) = Some (spanned p rng)"
| "tooltip_text (Selection (Some p) rng _) = Some (spanned p rng)"
| "tooltip_text (Skill _ _ p) = Some p"
| "tooltip_text _ = None"

definition as_link :: "'u url_lib \<Rightarrow> 'u mention_uri \<Rightarrow> string option" where
  "as_link U m =
     map_option (\<lambda>u. ''[@'' @ mention_name U m @ '']('' @ url_text U u @ '')'') (to_uri U m)"

end
