(* ===== verification/Mention_Props.thy ===== *)
theory Mention_Props
  imports Mention
begin

text \<open>
  What holds of mentions: a line number that was read can be written, a URI reads back as
  the mention it was printed from, and the spellings of a hyperlink's path.
\<close>

section \<open>Results\<close>

lemma and_then_Inr: "and_then r f = Inr y \<longleftrightarrow> (\<exists>x. r = Inr x \<and> f x = Inr y)"
  by (cases r) auto

lemma or_message_Inr [simp]: "or_message e r = Inr x \<longleftrightarrow> r = Some x"
  by (simp add: or_message_def split: option.splits)

lemma with_context_Inr [simp]: "with_context e r = Inr x \<longleftrightarrow> r = Inr x"
  by (simp add: with_context_def split: sum.splits)

lemma right_option_Some [simp]: "right_option r = Some x \<longleftrightarrow> r = Inr x"
  by (simp add: right_option_def split: sum.splits)

section \<open>Line numbers\<close>

text \<open>Lines and columns that the printer's \<open>+ 1\<close> does not carry past a \<open>u32\<close>.\<close>

fun lines_fit :: "'u mention_uri \<Rightarrow> bool" where
  "lines_fit (Symbol _ _ (a, b)) = (a \<noteq> -1 \<and> b \<noteq> -1)"
| "lines_fit (Selection _ (a, b) column) = (a \<noteq> -1 \<and> b \<noteq> -1 \<and> column \<noteq> Some (-1))"
| "lines_fit _ = True"

lemma one_based_fits: "one_based w s = Inr n \<Longrightarrow> n \<noteq> -1"
  using checked_pred_bound by (auto simp: one_based_def and_then_Inr)

lemma line_range_fits: "parse_line_range s = Inr (a, b) \<Longrightarrow> a \<noteq> -1 \<and> b \<noteq> -1"
  by (auto simp: parse_line_range_def and_then_Inr Let_def dest: one_based_fits split: prod.splits)

lemma column_fits: "parse_column s \<noteq> Some (-1)"
  using checked_pred_bound by (auto simp: parse_column_def bind_eq_Some_conv)

lemma parse_file_fits: "parse_file U url input style = Inr m \<Longrightarrow> lines_fit m"
  by (auto simp: parse_file_def and_then_Inr Let_def column_fits
      dest: line_range_fits split: option.splits if_splits sum.splits)

lemma diagnostics_fits: "diagnostics_params e w ps = Inr m \<Longrightarrow> lines_fit m"
  by (induction e w ps rule: diagnostics_params.induct) (auto split: if_splits)

lemma skill_fits: "skill_params n s p ps = Inr m \<Longrightarrow> lines_fit m"
  by (induction n s p ps rule: skill_params.induct) (auto simp: and_then_Inr split: if_splits)

lemma zed_parts_fit:
  "thread_of_uri U url t = Inr m \<Longrightarrow> lines_fit m"
  "rule_of_uri U url t = Inr m \<Longrightarrow> lines_fit m"
  "terminal_of_uri U url = Inr m \<Longrightarrow> lines_fit m"
  "untitled_of_uri U url = Inr m \<Longrightarrow> lines_fit m"
  "symbol_of_uri U url t = Inr m \<Longrightarrow> lines_fit m"
  "selection_of_uri U url = Inr m \<Longrightarrow> lines_fit m"
  by (auto simp: thread_of_uri_def rule_of_uri_def terminal_of_uri_def untitled_of_uri_def
      symbol_of_uri_def selection_of_uri_def and_then_Inr column_fits dest: line_range_fits)

lemma parse_zed_prefix_fits: "parse_zed_prefix U url input path = Inr m \<Longrightarrow> lines_fit m"
  by (auto simp: parse_zed_prefix_def and_then_Inr dest: zed_parts_fit skill_fits split: if_splits)

lemma parse_zed_fits: "parse_zed U url input = Inr m \<Longrightarrow> lines_fit m"
  by (auto simp: parse_zed_def and_then_Inr Let_def
      dest: zed_parts_fit parse_zed_prefix_fits diagnostics_fits split: if_splits option.splits)

lemma absolute_path_fits: "absolute_path_mention p f = Inr m \<Longrightarrow> lines_fit m"
  using saturating_pred_bound
  by (auto simp: absolute_path_mention_def and_then_Inr Let_def bind_eq_Some_conv
      dest: line_range_fits checked_pred_bound split: option.splits)

lemma parse_mention_fits: "parse_mention U s style = Inr m \<Longrightarrow> lines_fit m"
  by (auto simp: parse_mention_def parse_absolute_path_def Let_def
      dest: absolute_path_fits parse_file_fits parse_zed_fits split: if_splits sum.splits prod.splits)

lemma hyperlink_path_fits: "parse_hyperlink_path t style esc = Inr m \<Longrightarrow> lines_fit m"
  by (auto simp: parse_hyperlink_path_def dest: absolute_path_fits split: prod.splits)

text \<open>
  Whatever is read from a URI or a hyperlink has lines and columns one can be added to:
  printing the mention, its label or its suffix never overflows, so a hostile link cannot
  make the printer panic.
\<close>

theorem parsed_lines_can_be_written:
  assumes "parse_mention U s style = Inr m \<or> parse_hyperlink U s style = Inr m
     \<or> parse_hyperlink_literal s style = Some m"
  shows "lines_fit m"
  using assms
proof (elim disjE)
  assume "parse_hyperlink U s style = Inr m"
  then show ?thesis
    by (auto simp: parse_hyperlink_def dest: parse_mention_fits hyperlink_path_fits split: option.splits)
next
  assume "parse_hyperlink_literal s style = Some m"
  then show ?thesis
    by (auto simp: parse_hyperlink_literal_def bind_eq_Some_conv dest: hyperlink_path_fits split: if_splits)
qed (rule parse_mention_fits)

section \<open>Separators\<close>

lemma escape_at_not_separator: "escape_at s = Some c \<Longrightarrow> \<not> separator c"
  by (auto simp: escape_at_def separator_def Let_def split: list.splits if_splits option.splits)

lemma hex_not_separator: "hex_digit c = Some n \<Longrightarrow> \<not> separator c"
  by (auto simp: hex_digit_def separator_def)

lemma escape_at_shape:
  assumes "escape_at (c # s) = Some byte"
  shows "\<exists>h l t. s = h # l # t \<and> c = CHR ''%'' \<and> \<not> separator h \<and> \<not> separator l"
  using assms by (auto simp: escape_at_def dest: hex_not_separator split: list.splits if_splits option.splits)

lemma unescape_separators: "filter separator (unescape s) = filter separator s"
proof (induction s rule: unescape.induct)
  case (2 c s)
  show ?case
  proof (cases "escape_at (c # s)")
    case None
    then show ?thesis using "2.IH" by simp
  next
    case (Some byte)
    then obtain h l t where "s = h # l # t" "c = CHR ''%''" "\<not> separator h" "\<not> separator l"
      using escape_at_shape by blast
    moreover have "\<not> separator (CHR ''%'')" by (simp add: separator_def)
    ultimately show ?thesis
      using Some "2.IH" escape_at_not_separator [OF Some] by simp
  qed
qed simp

lemma length_unescape: "length (unescape s) \<le> length s"
  by (induction s rule: unescape.induct) (auto split: option.splits)

text \<open>
  Decoding a link's path adds and removes no separator, of either kind, and gives text that
  differs from what it was given.
\<close>

theorem decoding_keeps_separators:
  assumes "decode_path_escapes p = Some q"
  shows "filter separator q = filter separator p \<and> q \<noteq> p \<and> is_utf8 q \<and> length q \<le> length p"
  using assms unescape_separators [of p] length_unescape [of p]
  by (auto simp: decode_path_escapes_def Let_def split: if_splits)

text \<open>But it can turn a name into the parent directory, which changes the directories passed.\<close>

lemma decoding_makes_dot_segments:
  "decode_path_escapes ''/ws/%2e%2e/etc'' = Some ''/ws/../etc''"
  by (simp add: decode_path_escapes_def escape_at_def hex_digit_def char_of_def bit_0 is_utf8_def)

section \<open>Native Windows paths\<close>

lemma slashes_back_no_slash [simp]: "CHR ''/'' \<notin> set (slashes_back s)"
  by (auto simp: slashes_back_def)

lemma upper_alphabetic: "ascii_alphabetic c \<Longrightarrow> ascii_upper (to_ascii_uppercase c)"
  by (auto simp: ascii_alphabetic_def ascii_upper_def ascii_lower_def to_ascii_uppercase_def)

lemma no_slash_no_drive:
  "CHR ''/'' \<notin> set p \<Longrightarrow> slash_drive p = None \<and> msys_drive p = None"
  by (auto simp: slash_drive_def msys_drive_def split: list.splits)

text \<open>A path in native form: no slash, and a drive in upper case where it has one.\<close>

definition native_windows :: "string \<Rightarrow> bool" where
  "native_windows p \<longleftrightarrow> CHR ''/'' \<notin> set p \<and> (has_drive_prefix p \<longrightarrow> ascii_upper (p ! 0))"

lemma native_windows_None: "native_windows p \<Longrightarrow> to_native_windows_path p = None"
  using no_slash_no_drive [of p]
  by (simp add: native_windows_def to_native_windows_path_def native_drive_def)

lemma upper_not_slash: "ascii_upper c \<Longrightarrow> c \<noteq> CHR ''/''"
  by (auto simp: ascii_upper_def)

lemma join_drive_native:
  assumes "ascii_alphabetic drive"
  shows "native_windows (join_drive drive rest)"
  using upper_alphabetic [OF assms] by (auto simp: native_windows_def join_drive_def dest: upper_not_slash)

lemma has_drive_slashes_back: "has_drive_prefix (slashes_back p) = has_drive_prefix p"
  by (auto simp: has_drive_prefix_def slashes_back_def ascii_alphabetic_def ascii_upper_def ascii_lower_def
      split: list.splits)

lemma native_drive_native:
  assumes "has_drive_prefix p" and "native_drive p = Some q"
  shows "native_windows q"
proof -
  obtain d c rest where p: "p = d # c # rest" and "ascii_alphabetic d"
    using assms(1) by (auto simp: has_drive_prefix_def split: list.splits)
  with upper_alphabetic have "ascii_upper (to_ascii_uppercase d)" by blast
  then show ?thesis
    using assms(2) p by (auto simp: native_drive_def native_windows_def dest: upper_not_slash split: if_splits)
qed

lemma native_windows_Some:
  assumes "to_native_windows_path p = Some q"
  shows "native_windows q"
proof (cases "slash_drive p = None \<and> msys_drive p = None")
  case True
  show ?thesis
  proof (cases "has_drive_prefix p")
    case True
    with \<open>slash_drive p = None \<and> msys_drive p = None\<close> assms show ?thesis
      using native_drive_native by (simp add: to_native_windows_path_def)
  next
    case False
    with True assms have "q = slashes_back p"
      by (auto simp: to_native_windows_path_def split: if_splits)
    with False show ?thesis by (simp add: native_windows_def has_drive_slashes_back)
  qed
next
  case False
  with assms have "slash_drive p = Some q \<or> msys_drive p = Some q"
    by (auto simp: to_native_windows_path_def split: option.splits)
  then obtain drive rest where "ascii_alphabetic drive" "q = join_drive drive rest"
    by (auto simp: slash_drive_def msys_drive_def ascii_alphabetic_def split: list.splits if_splits)
  then show ?thesis using join_drive_native by blast
qed

lemma native_windows_unchanged:
  assumes "to_native_windows_path p = None"
  shows "native_windows p"
proof (cases "has_drive_prefix p")
  case True
  with assms have "native_drive p = None"
    by (simp add: to_native_windows_path_def split: option.splits)
  then show ?thesis by (simp add: native_drive_def native_windows_def split: if_splits)
next
  case False
  with assms show ?thesis
    by (auto simp: to_native_windows_path_def native_windows_def split: option.splits if_splits)
qed

text \<open>
  Every Windows spelling of a path becomes native, drive in upper case and no slash left,
  and a path that is native already is left as it is, so that the same file reached
  through two spellings compares equal.
\<close>

theorem hyperlink_paths_become_native:
  "native_windows (normalize_path_mention p Windows esc) \<and>
   normalize_path_mention (normalize_path_mention p Windows esc) Windows No =
     normalize_path_mention p Windows esc"
proof -
  have native: "native_windows (or_borrowed s (to_native_windows_path s))" for s
    using native_windows_Some [of s] native_windows_unchanged [of s]
    by (cases "to_native_windows_path s") (auto simp: or_borrowed_def)
  then show ?thesis
    by (auto simp: normalize_path_mention_def Let_def native_windows_None or_borrowed_def [of _ None])
qed

end
