(* ===== verification/Mention_Uri.thy ===== *)
theory Mention_Uri
  imports Mention_Props
begin

text \<open>
  The round trip of a mention through its URI, under what the \<open>url\<close> crate documents of the
  calls the printer and the parser make.
\<close>

section \<open>What is relied on of the URL crate\<close>



definition bases :: "(string \<times> string \<times> string) list" where
  "bases =
     [(''file:///'', ''file'', ''/''),
      (''zed:///'', ''zed'', ''/''),
      (''zed:///agent/pasted-image'', ''zed'', ''/agent/pasted-image''),
      (''zed:///agent/terminal-selection'', ''zed'', ''/agent/terminal-selection''),
      (''zed:///agent/git-diff'', ''zed'', ''/agent/git-diff''),
      (''zed:///agent/merge-conflict'', ''zed'', ''/agent/merge-conflict'')]"



section \<open>The printer's input\<close>



section \<open>Reading the text of a URL\<close>






section \<open>The setters\<close>







section \<open>What each kind of mention is read back as\<close>













section \<open>The round trip\<close>


section \<open>A URL crate\<close>

type_synonym simple_url = "string \<times> string \<times> (string \<times> string) list \<times> string option"

definition simple_text :: "simple_url \<Rightarrow> string" where
  "simple_text = (\<lambda>(s, p, q, f). s @ ''://'' @ p @ (if q = [] \<and> f = None then [] else ''?''))"

definition column_url :: simple_url where
  "column_url = (''file'', ''/a.rs'', [(''column'', ''3'')], Some ''L10:20'')"

definition simple_urls :: "simple_url url_lib" where
  "simple_urls = \<lparr>
     parse_url = (\<lambda>t. case map_of (map (\<lambda>(t, s, p). (t, (s, p, [], None))) bases @
                         [(simple_text column_url, column_url)]) t of
                       None \<Rightarrow> Inl ''relative URL without a base'' | Some u \<Rightarrow> Inr u),
     scheme = fst, url_path = fst \<circ> snd, fragment = snd \<circ> snd \<circ> snd, query_pairs = fst \<circ> snd \<circ> snd,
     set_path = (\<lambda>(s, _, q, f) p. (s, p, q, f)),
     append_pair = (\<lambda>(s, p, q, f) k v. (s, p, q @ [(k, v)], f)),
     set_fragment = (\<lambda>(s, p, q, _) f. (s, p, q, Some f)),
     url_text = simple_text, decode_utf8 = Some\<rparr>"




theorem parsed_lines_can_be_written_witness:
  "lines_fit (Selection (Some ''/a.rs'') (9, 9) (Some 4) :: simple_url mention_uri)"
proof -
  have p: "parse_position ''/a.rs:10:5'' = \<lparr>pp_path = ''/a.rs'', pp_row = Some 10, pp_column = Some 5\<rparr>"
    by (simp add: parse_position_def rsplit_once_def parse_u32_def strip_prefix_def starts_with_def
        decimal_digit_def undec_def)
  have "parse_mention simple_urls ''/a.rs:10:5'' Unix = Inr (Selection (Some ''/a.rs'') (9, 9) (Some 4))"
    by (simp add: parse_mention_def strip_backticks_def strip_prefix_def starts_with_def bare_path_def
        is_absolute_def with_context_def parse_absolute_path_def split_path_fragment_def
        absolute_path_mention_def p or_message_def checked_pred_def saturating_pred_def)
  then show ?thesis
    by (intro parsed_lines_can_be_written [of simple_urls "''/a.rs:10:5''" Unix] disjI1)
qed

theorem decoding_keeps_separators_witness:
  "filter separator ''/a b'' = filter separator ''/a%20b''"
proof -
  have "decode_path_escapes ''/a%20b'' = Some ''/a b''"
    by (simp add: decode_path_escapes_def escape_at_def hex_digit_def char_of_def bit_0 is_utf8_def)
  from decoding_keeps_separators [OF this] show ?thesis by blast
qed

end
