(* ===== verification/Mock_Act.thy ===== *)
theory Mock_Act
  imports Method
begin

text \<open>
  The tasks of \<open>crates/mjx-mock-agent\<close>: what one does to its agent and asks of its client,
  as a tree of effects. A \<open>bind\<close> is the \<open>;\<close> of an \<open>async fn\<close>, the argument of an effect's
  continuation is what the \<open>await\<close> or the load gives. \<open>run\<close> follows a tree along the
  answers it is given and keeps what happened; theory \<open>Mock_Agent\<close> runs trees against the
  agent's state, interleaved.
\<close>

section \<open>Effects\<close>

text \<open>
  A reply of the client: its error, or its result read as JSON (\<open>None\<close> where the text is
  not JSON). \<open>AskUntilCancelled\<close> gives up when the session's turn is cancelled,
  \<open>AskAndNotify\<close> is the \<open>join!\<close> of a request and a notification.
\<close>

type_synonym reply = "json_rpc_error + json option"

datatype 'a act =
    Return 'a
  | Update string json "'a act"
  | Emit string json "'a act"
  | Ask string json "reply \<Rightarrow> 'a act"
  | AskUntilCancelled string string json "reply option \<Rightarrow> 'a act"
  | AskAndNotify string json string json "'a act"
  | IsCancelled string "bool \<Rightarrow> 'a act"
  | CanElicitForm "bool \<Rightarrow> 'a act"
  | CanElicitUrl "bool \<Rightarrow> 'a act"
  | SetConfigOption string string json "json \<Rightarrow> 'a act"
  | ConfigOptions string "json \<Rightarrow> 'a act"
  | McpNotifications "64 word \<Rightarrow> 'a act"
  | LowerFlag nat "'a act"

primrec bind_act :: "'a act \<Rightarrow> ('a \<Rightarrow> 'b act) \<Rightarrow> 'b act" where
  "bind_act (Return x) f = f x"
| "bind_act (Update s u p) f = Update s u (bind_act p f)"
| "bind_act (Emit s u p) f = Emit s u (bind_act p f)"
| "bind_act (Ask m v k) f = Ask m v (\<lambda>r. bind_act (k r) f)"
| "bind_act (AskUntilCancelled s m v k) f = AskUntilCancelled s m v (\<lambda>r. bind_act (k r) f)"
| "bind_act (AskAndNotify m v n w p) f = AskAndNotify m v n w (bind_act p f)"
| "bind_act (IsCancelled s k) f = IsCancelled s (\<lambda>b. bind_act (k b) f)"
| "bind_act (CanElicitForm k) f = CanElicitForm (\<lambda>b. bind_act (k b) f)"
| "bind_act (CanElicitUrl k) f = CanElicitUrl (\<lambda>b. bind_act (k b) f)"
| "bind_act (SetConfigOption s c v k) f = SetConfigOption s c v (\<lambda>r. bind_act (k r) f)"
| "bind_act (ConfigOptions s k) f = ConfigOptions s (\<lambda>r. bind_act (k r) f)"
| "bind_act (McpNotifications k) f = McpNotifications (\<lambda>n. bind_act (k n) f)"
| "bind_act (LowerFlag n p) f = LowerFlag n (bind_act p f)"

section \<open>Following a task\<close>

text \<open>What a task is answered, and what can be seen of it.\<close>

datatype answer =
    ReplyIs reply
  | GaveUp
  | FlagIs bool
  | ValueIs json
  | CountIs "64 word"

datatype happened =
    Sent string json
  | Replayed string json
  | Asked string json answer
  | Notified string json
  | Looked string bool
  | OtherEffect

definition seen :: "happened \<Rightarrow> (happened list \<times> 'a \<times> answer list) option \<Rightarrow> (happened list \<times> 'a \<times> answer list) option" where
  "seen h = map_option (\<lambda>(hs, x). (h # hs, x))"

primrec run :: "'a act \<Rightarrow> answer list \<Rightarrow> (happened list \<times> 'a \<times> answer list) option" where
  "run (Return x) as = Some ([], x, as)"
| "run (Update s u p) as = seen (Sent s u) (run p as)"
| "run (Emit s u p) as = seen (Replayed s u) (run p as)"
| "run (Ask m v k) as =
     (case as of ReplyIs r # rest \<Rightarrow> seen (Asked m v (ReplyIs r)) (run (k r) rest) | _ \<Rightarrow> None)"
| "run (AskUntilCancelled s m v k) as =
     (case as of
        ReplyIs r # rest \<Rightarrow> seen (Asked m v (ReplyIs r)) (run (k (Some r)) rest)
      | GaveUp # rest \<Rightarrow> seen (Asked m v GaveUp) (run (k None) rest)
      | _ \<Rightarrow> None)"
| "run (AskAndNotify m v n w p) as =
     (case as of
        ReplyIs r # rest \<Rightarrow> seen (Asked m v (ReplyIs r)) (seen (Notified n w) (run p rest))
      | _ \<Rightarrow> None)"
| "run (IsCancelled s k) as =
     (case as of FlagIs b # rest \<Rightarrow> seen (Looked ''cancelled'' b) (run (k b) rest) | _ \<Rightarrow> None)"
| "run (CanElicitForm k) as =
     (case as of FlagIs b # rest \<Rightarrow> seen (Looked ''form'' b) (run (k b) rest) | _ \<Rightarrow> None)"
| "run (CanElicitUrl k) as =
     (case as of FlagIs b # rest \<Rightarrow> seen (Looked ''url'' b) (run (k b) rest) | _ \<Rightarrow> None)"
| "run (SetConfigOption s c v k) as =
     (case as of ValueIs r # rest \<Rightarrow> seen OtherEffect (run (k r) rest) | _ \<Rightarrow> None)"
| "run (ConfigOptions s k) as =
     (case as of ValueIs r # rest \<Rightarrow> seen OtherEffect (run (k r) rest) | _ \<Rightarrow> None)"
| "run (McpNotifications k) as =
     (case as of CountIs n # rest \<Rightarrow> seen OtherEffect (run (k n) rest) | _ \<Rightarrow> None)"
| "run (LowerFlag n p) as = seen OtherEffect (run p as)"

lemma seen_Some: "seen h r = Some (hs, x) \<longleftrightarrow> (\<exists>hs'. r = Some (hs', x) \<and> hs = h # hs')"
  by (cases x) (auto simp: seen_def)

lemma seen_None [simp]: "seen h r = None \<longleftrightarrow> r = None"
  by (simp add: seen_def)

lemma seen_case:
  "(case seen h r of None \<Rightarrow> None
    | Some (hs, x, rest) \<Rightarrow> map_option (\<lambda>(hs', y). (hs @ hs', y)) (F x rest)) =
   seen h (case r of None \<Rightarrow> None
    | Some (hs, x, rest) \<Rightarrow> map_option (\<lambda>(hs', y). (hs @ hs', y)) (F x rest))"
  by (auto simp: seen_def option.map_comp o_def split: option.splits intro!: arg_cong2 [where f = map_option])

lemma run_bind:
  "run (bind_act p f) as =
     (case run p as of None \<Rightarrow> None
      | Some (hs, x, rest) \<Rightarrow> map_option (\<lambda>(hs', y). (hs @ hs', y)) (run (f x) rest))"
proof (induction p arbitrary: as)
  case (Return x)
  show ?case by (cases "run (f x) as") auto
next
  case (Ask m v k)
  then show ?case by (auto simp: seen_case split: list.split answer.split)
next
  case (AskUntilCancelled s m v k)
  then show ?case by (auto simp: seen_case split: list.split answer.split)
next
  case (AskAndNotify m v n w p)
  then show ?case by (auto simp: seen_case split: list.split answer.split)
next
  case (IsCancelled s k)
  then show ?case by (auto simp: seen_case split: list.split answer.split)
next
  case (CanElicitForm k)
  then show ?case by (auto simp: seen_case split: list.split answer.split)
next
  case (CanElicitUrl k)
  then show ?case by (auto simp: seen_case split: list.split answer.split)
next
  case (SetConfigOption s c v k)
  then show ?case by (auto simp: seen_case split: list.split answer.split)
next
  case (ConfigOptions s k)
  then show ?case by (auto simp: seen_case split: list.split answer.split)
next
  case (McpNotifications k)
  then show ?case by (auto simp: seen_case split: list.split answer.split)
qed (simp_all add: seen_case)

text \<open>A run of two tasks in sequence is a run of each.\<close>

lemma run_bind_Some:
  "run (bind_act p f) as = Some (hs, y, rest) \<longleftrightarrow>
     (\<exists>hs1 x mid hs2. run p as = Some (hs1, x, mid) \<and> run (f x) mid = Some (hs2, y, rest) \<and> hs = hs1 @ hs2)"
  by (auto simp: run_bind split: option.splits)

end
