(* ===== verification/Mock_Script.thy ===== *)
theory Mock_Script
  imports Mock_Act Config Workspace Paths
begin

text \<open>
  \<open>crates/mjx-mock-agent/src/script.rs\<close>: the scripted turn, step by step, and the texts it
  is made of. \<open>beat\<close> only sleeps and is left out; where the source returns early a task
  returns early.
\<close>

section \<open>Text\<close>

definition int_text :: "int \<Rightarrow> string" where
  "int_text i = (if i < 0 then ''-'' @ dec (nat (- i)) else dec (nat i))"

definition digits :: "string \<Rightarrow> bool" where
  "digits s \<longleftrightarrow> s \<noteq> [] \<and> list_all decimal_digit s"

text \<open>\<open>Value::as_i64\<close>: a number without fraction or exponent, within range; \<open>-0\<close> is a float.\<close>

fun as_i64 :: "json \<Rightarrow> int option" where
  "as_i64 (JNumber s) =
     (case strip_prefix ''-'' s of
        Some d \<Rightarrow> if digits d \<and> d \<noteq> ''0'' \<and> undec d \<le> 2 ^ 63 then Some (- int (undec d)) else None
      | None \<Rightarrow> if digits s \<and> undec s < 2 ^ 63 then Some (int (undec s)) else None)"
| "as_i64 _ = None"

definition pad_left :: "nat \<Rightarrow> char \<Rightarrow> string \<Rightarrow> string" where
  "pad_left n c s = replicate (n - length s) c @ s"

text \<open>\<open>str::replacen(_, _, 1)\<close>, of a pattern that is not empty.\<close>

fun replace_first :: "string \<Rightarrow> string \<Rightarrow> string \<Rightarrow> string" where
  "replace_first p new [] = []"
| "replace_first p new (c # s) =
     (if starts_with (c # s) p then new @ drop (length p) (c # s) else c # replace_first p new s)"

text \<open>The words of a text, each with the white space that ends it; \<open>current\<close> is the one being read.\<close>

fun split_words :: "string \<Rightarrow> string \<Rightarrow> string list" where
  "split_words current [] = (if current = [] then [] else [current])"
| "split_words current (c # s) =
     (if c = CHR '' '' \<or> c = CHR 0x0A then (current @ [c]) # split_words [] s
      else split_words (current @ [c]) s)"

definition split_keeping_whitespace :: "string \<Rightarrow> string list" where
  "split_keeping_whitespace s = split_words [] s"

definition numbered :: "string \<Rightarrow> string" where
  "numbered contents =
     join_strings newline
       (map (\<lambda>(i, line). pad_left 4 (CHR '' '') (dec (i + 1)) @ ''  '' @ line)
         (List.enumerate 0 (take 30 (text_lines contents))))"

definition OLD_LINE :: string where
  "OLD_LINE = ''  return sorted[mid];''"

definition NEW_LINE :: string where
  "NEW_LINE = ''  return sorted.length % 2 === 0'' @ newline @
     ''    ? (sorted[mid - 1] + sorted[mid]) / 2'' @ newline @ ''    : sorted[mid];''"

definition STALE_COMMENT :: string where
  "STALE_COMMENT =
     ''  // BUG: for even-length input this returns the upper of the two middle'' @ newline @
     ''  // values instead of their average.'' @ newline"

definition patched :: "string \<Rightarrow> string \<times> string" where
  "patched contents =
     (if contains contents OLD_LINE
      then (contents, replace_first STALE_COMMENT [] (replace_first OLD_LINE NEW_LINE contents))
      else let around = \<lambda>line. ''export function median(xs) {'' @ newline @ line @ newline @ ''}'' @ newline
           in (around OLD_LINE, around NEW_LINE))"

section \<open>What the prompt says\<close>

definition or_else_str :: "string option \<Rightarrow> string option \<Rightarrow> string option" where
  "or_else_str a b = (case a of None \<Rightarrow> b | Some _ \<Rightarrow> a)"

definition prompt_piece :: "json \<Rightarrow> string option" where
  "prompt_piece b =
     or_else_str (as_str (json_index b ''text''))
       (if json_index b ''type'' = JString ''resource_link''
        then map_option (\<lambda>named. ''@'' @ named)
               (or_else_str (as_str (json_index b ''name'')) (as_str (json_index b ''uri'')))
        else None)"

definition prompt_text :: "json \<Rightarrow> string" where
  "prompt_text params =
     (case map_option (\<lambda>blocks. join_strings '' '' (List.map_filter prompt_piece blocks))
             (as_array (json_index params ''prompt'')) of
        None \<Rightarrow> ''have a look at this project''
      | Some s \<Rightarrow> if s = [] then ''have a look at this project'' else s)"

text \<open>\<open>here\<close> is the working directory of the process, where it has one.\<close>

definition script_cwd :: "string option \<Rightarrow> json \<Rightarrow> string" where
  "script_cwd here params =
     (case as_str (json_index params ''cwd'') of
        Some d \<Rightarrow> d
      | None \<Rightarrow> (case here of None \<Rightarrow> ''.'' | Some d \<Rightarrow> d))"

section \<open>Updates\<close>

definition text_content :: "string \<Rightarrow> json" where
  "text_content t = JObject [(''type'', JString ''text''), (''text'', JString t)]"

definition chunk :: "string \<Rightarrow> string \<Rightarrow> json" where
  "chunk kind t = JObject [(''sessionUpdate'', JString kind), (''content'', text_content t)]"

definition tool_call :: "string \<Rightarrow> string \<Rightarrow> string \<Rightarrow> string \<Rightarrow> (string \<times> json) list \<Rightarrow> json" where
  "tool_call i title kind status rest =
     JObject ([(''sessionUpdate'', JString ''tool_call''), (''toolCallId'', JString i),
       (''title'', JString title), (''kind'', JString kind), (''status'', JString status)] @ rest)"

definition tool_update :: "string \<Rightarrow> string \<Rightarrow> (string \<times> json) list \<Rightarrow> json" where
  "tool_update i status rest =
     JObject ([(''sessionUpdate'', JString ''tool_call_update''), (''toolCallId'', JString i),
       (''status'', JString status)] @ rest)"

definition told :: "string \<Rightarrow> string \<times> json" where
  "told t = (''content'', JArray [JObject [(''type'', JString ''content''), (''content'', text_content t)]])"

definition available_commands :: json where
  "available_commands = JObject
     [(''sessionUpdate'', JString ''available_commands_update''),
      (''availableCommands'', JArray
        [JObject [(''name'', JString ''explain''), (''description'', JString ''Explain the current file'')],
         JObject [(''name'', JString ''test''), (''description'', JString ''Run the test suite''),
           (''input'', JObject [(''hint'', JString ''optional test name filter'')])]])]"

definition plan_steps :: "(string \<times> string) list" where
  "plan_steps =
     [(''Read stats.js and find the bug'', ''high''), (''Fix the off-by-one in median()'', ''high''),
      (''Run the tests'', ''medium'')]"

definition plan :: "string list \<Rightarrow> json" where
  "plan statuses = JObject
     [(''sessionUpdate'', JString ''plan''),
      (''entries'', JArray (map (\<lambda>((content, priority), status). JObject
         [(''content'', JString content), (''priority'', JString priority), (''status'', JString status)])
         (zip plan_steps statuses)))]"

definition session_field :: "string \<Rightarrow> string \<times> json" where
  "session_field sid = (''sessionId'', JString sid)"

section \<open>Steps of a turn\<close>

definition stop_if_cancelled :: "string \<Rightarrow> string act \<Rightarrow> string act" where
  "stop_if_cancelled sid p = IsCancelled sid (\<lambda>b. if b then Return ''cancelled'' else p)"

text \<open>\<open>stream_text\<close> over the words of the text.\<close>

primrec stream_words :: "string \<Rightarrow> string list \<Rightarrow> unit act" where
  "stream_words sid [] = Return ()"
| "stream_words sid (w # ws) =
     IsCancelled sid
       (\<lambda>b. if b then Return () else Update sid (chunk ''agent_message_chunk'' w) (stream_words sid ws))"

definition stream_text :: "string \<Rightarrow> string \<Rightarrow> unit act" where
  "stream_text sid t = stream_words sid (split_keeping_whitespace t)"

text \<open>The thought, chunk by chunk; whether it was cut short.\<close>

primrec think :: "string \<Rightarrow> string list \<Rightarrow> bool act" where
  "think sid [] = Return False"
| "think sid (c # cs) =
     IsCancelled sid
       (\<lambda>b. if b then Return True else Update sid (chunk ''agent_thought_chunk'' c) (think sid cs))"

definition quote_mark :: string where
  "quote_mark = [CHR 0x22]"

definition thoughts :: "string \<Rightarrow> string list" where
  "thoughts prompt =
     [''Let me look at what the user is asking for. '', ''They said: '' @ quote_mark, prompt,
      quote_mark @ ''. '', ''I'' @ [CHR 0x27] @ ''ll read the file first, then propose a fix.'']"

text \<open>Step 3: the read, whether it was answered, and what it gave.\<close>

definition read_file :: "string \<Rightarrow> string \<Rightarrow> (bool \<times> string) act" where
  "read_file sid path =
     Update sid (tool_call ''call_read'' ''Read stats.js'' ''read'' ''in_progress''
         [(''locations'', JArray [JObject [(''path'', JString path)]]),
          (''rawInput'', JObject [(''path'', JString path)])])
       (Ask ''fs/read_text_file'' (JObject [session_field sid, (''path'', JString path)])
         (\<lambda>reply. case reply of
            Inl e \<Rightarrow>
              Update sid (tool_update ''call_read'' ''failed''
                  [told (''Could not read the file: '' @ err_message e)])
                (Return (False, []))
          | Inr v \<Rightarrow>
              let contents = (case Option.bind v (\<lambda>v. as_str (json_index v ''content'')) of
                                None \<Rightarrow> [] | Some s \<Rightarrow> s)
              in Update sid (tool_update ''call_read'' ''completed''
                     [told (numbered contents),
                      (''rawOutput'', JObject [(''bytes'', JNumber (dec (length contents)))])])
                   (Return (True, contents))))"

text \<open>Step 5: the edit, and the write that applies it where the file could be read.\<close>

definition edited :: "string \<Rightarrow> bool \<Rightarrow> unit act" where
  "edited sid wrote =
     Update sid (tool_update ''call_edit'' (if wrote then ''completed'' else ''failed'') [])
       (Update sid (plan [''completed'', ''in_progress'', ''pending'']) (Return ()))"

definition edit_file :: "string \<Rightarrow> string \<Rightarrow> bool \<Rightarrow> string \<Rightarrow> unit act" where
  "edit_file sid path read_ok contents =
     (let (old_text, new_text) = patched contents
      in Update sid (tool_call ''call_edit'' ''Fix the off-by-one in median()'' ''edit'' ''in_progress''
             [(''locations'', JArray [JObject [(''path'', JString path), (''line'', JNumber ''8'')]]),
              (''content'', JArray [JObject [(''type'', JString ''diff''), (''path'', JString path),
                 (''oldText'', JString old_text), (''newText'', JString new_text)]])])
           (if read_ok
            then Ask ''fs/write_text_file''
                   (JObject [session_field sid, (''path'', JString path), (''content'', JString new_text)])
                   (\<lambda>reply. edited sid (\<not> isl reply))
            else edited sid False))"

section \<open>The permission\<close>

definition run_title :: string where
  "run_title = ''Run `node --test`''"

definition permission_option :: "string \<Rightarrow> string \<Rightarrow> json" where
  "permission_option i name = JObject [(''optionId'', JString i), (''name'', JString name), (''kind'', JString i)]"

definition permission_params :: "string \<Rightarrow> json" where
  "permission_params sid = JObject
     [session_field sid,
      (''toolCall'', JObject
        [(''toolCallId'', JString ''call_test''), (''title'', JString run_title),
         (''kind'', JString ''execute''), (''status'', JString ''pending''),
         (''rawInput'', JObject [(''command'', JString ''node''), (''args'', JArray [JString ''--test''])])]),
      (''options'', JArray
        [permission_option ''allow_once'' ''Allow'', permission_option ''allow_always'' ''Always allow'',
         permission_option ''reject_once'' (''Don'' @ [CHR 0x27] @ ''t run it'')])]"

definition allowed :: "reply \<Rightarrow> bool" where
  "allowed reply =
     (case reply of
        Inr (Some v) \<Rightarrow>
          (let chosen = json_index v ''outcome''
           in json_index chosen ''outcome'' = JString ''selected'' \<and>
              (case as_str (json_index chosen ''optionId'') of
                 None \<Rightarrow> False | Some i \<Rightarrow> starts_with i ''allow''))
      | _ \<Rightarrow> False)"

definition ask_permission :: "string \<Rightarrow> bool act" where
  "ask_permission sid =
     Update sid (tool_call ''call_test'' run_title ''execute'' ''pending'' [])
       (Ask ''session/request_permission'' (permission_params sid) (\<lambda>reply. Return (allowed reply)))"

section \<open>The terminal\<close>

definition string_in :: "string \<Rightarrow> reply \<Rightarrow> string option" where
  "string_in key reply =
     (case reply of Inr (Some v) \<Rightarrow> as_str (json_index v key) | _ \<Rightarrow> None)"

definition exit_code_in :: "reply \<Rightarrow> int option" where
  "exit_code_in reply =
     (case reply of Inr (Some v) \<Rightarrow> as_i64 (json_index v ''exitCode'') | _ \<Rightarrow> None)"

definition terminal_params :: "string \<Rightarrow> string \<Rightarrow> json" where
  "terminal_params sid terminal = JObject [session_field sid, (''terminalId'', JString terminal)]"

definition run_in_terminal :: "string option \<Rightarrow> string \<Rightarrow> json \<Rightarrow> bool act" where
  "run_in_terminal here sid params =
     Ask ''terminal/create''
       (JObject [session_field sid, (''command'', JString ''node''), (''args'', JArray [JString ''--test'']),
          (''cwd'', JString (script_cwd here params)), (''outputByteLimit'', JNumber ''65536'')])
       (\<lambda>created. case string_in ''terminalId'' created of
          None \<Rightarrow>
            Update sid (tool_update ''call_test'' ''failed'' [told ''This client has no terminal capability.''])
              (Return False)
        | Some terminal \<Rightarrow>
            Update sid (tool_update ''call_test'' ''in_progress''
                [(''content'', JArray [JObject [(''type'', JString ''terminal''),
                    (''terminalId'', JString terminal)]])])
              (Ask ''terminal/wait_for_exit'' (terminal_params sid terminal)
                (\<lambda>reply. let code = exit_code_in reply
                  in Update sid
                       (tool_update ''call_test'' (if code = Some 0 then ''completed'' else ''failed'')
                         [(''rawOutput'', JObject [(''exitCode'',
                             case code of None \<Rightarrow> JNull | Some i \<Rightarrow> JNumber (int_text i))])])
                       (Ask ''terminal/release'' (terminal_params sid terminal)
                         (\<lambda>_. Return (code = Some 0))))))"

section \<open>The two elicitations\<close>

definition described :: "string \<Rightarrow> string \<Rightarrow> (string \<times> json) list" where
  "described kind title = [(''type'', JString kind), (''title'', JString title)]"

definition choice :: "string \<Rightarrow> string \<Rightarrow> (string \<times> json) list" where
  "choice v title = [(''const'', JString v), (''title'', JString title)]"

definition record_schema :: json where
  "record_schema = JObject
     [(''type'', JString ''object''), (''title'', JString ''Record the fix''),
      (''description'', JString ''Nothing is pushed until you say so.''),
      (''properties'', JObject
        [(''branch'', JObject (described ''string'' ''Branch'' @
            [(''description'', JString ''Where the commit goes.''), (''default'', JString ''fix/median''),
             (''minLength'', JNumber ''1''), (''maxLength'', JNumber ''80'')])),
         (''remote'', JObject (described ''string'' ''Remote'' @
            [(''oneOf'', JArray
               [JObject (choice ''origin'' ''origin'' @ [(''description'', JString ''Your fork.'')]),
                JObject (choice ''upstream'' ''upstream'' @
                  [(''description'', JString ''The shared repository.'')])])])),
         (''reviewers'', JObject (described ''array'' ''Reviewers'' @
            [(''description'', JString ''Nobody is required.''), (''maxItems'', JNumber ''2''),
             (''items'', JObject [(''anyOf'', JArray
                [JObject (choice ''ana'' ''Ana''), JObject (choice ''bo'' ''Bo''),
                 JObject (choice ''cy'' ''Cy'')])])])),
         (''attempts'', JObject (described ''integer'' ''Retries'' @
            [(''description'', JString ''How many times to retry a rejected push.''),
             (''minimum'', JNumber ''0''), (''maximum'', JNumber ''5''), (''default'', JNumber ''1'')])),
         (''timeout'', JObject (described ''number'' ''Timeout (seconds)'' @
            [(''minimum'', JNumber ''0.5''), (''maximum'', JNumber ''120.0''),
             (''default'', JNumber ''30.0'')])),
         (''squash'', JObject (described ''boolean'' ''Squash the commits'' @
            [(''default'', JBool True)]))]),
      (''required'', JArray [JString ''branch'', JString ''remote''])]"

definition form_params :: "string \<Rightarrow> json" where
  "form_params sid = JObject
     [(''mode'', JString ''form''), session_field sid, (''toolCallId'', JString ''call_edit''),
      (''message'', JString ''How should I record this fix?''), (''requestedSchema'', record_schema)]"

definition default_str :: "string \<Rightarrow> string option \<Rightarrow> string" where
  "default_str d s = (case s of None \<Rightarrow> d | Some t \<Rightarrow> t)"

definition record_summary :: "reply \<Rightarrow> string" where
  "record_summary reply =
     newline @ newline @
     (case reply of
        Inr (Some v) \<Rightarrow>
          if json_index v ''action'' = JString ''accept'' then
            (let content = json_index v ''content''
             in ''Pushing to `'' @ default_str ''origin'' (as_str (json_index content ''remote'')) @ ''/'' @
                default_str ''fix/median'' (as_str (json_index content ''branch'')) @ ''`.'')
          else if json_index v ''action'' = JString ''decline'' then ''Leaving it uncommitted, then.''
          else ''Nothing recorded.''
      | _ \<Rightarrow> ''Nothing recorded.'')"

definition ask_how_to_record :: "string \<Rightarrow> unit act" where
  "ask_how_to_record sid =
     CanElicitForm
       (\<lambda>can. if \<not> can then Return ()
              else AskUntilCancelled sid ELICITATION_CREATE (form_params sid)
                     (\<lambda>reply. case reply of
                        None \<Rightarrow> Return ()
                      | Some r \<Rightarrow> stream_text sid (record_summary r)))"

definition elicitation_field :: "string \<times> json" where
  "elicitation_field = (''elicitationId'', JString ''mock-elicitation-1'')"

definition url_params :: "string \<Rightarrow> json" where
  "url_params sid = JObject
     [(''mode'', JString ''url''), session_field sid, elicitation_field,
      (''url'', JString ''https://agentclientprotocol.com/protocol/elicitation''),
      (''message'', JString ''Read the elicitation spec, then come back.'')]"

definition confirm_out_of_band :: "string \<Rightarrow> unit act" where
  "confirm_out_of_band sid =
     CanElicitUrl
       (\<lambda>can. if \<not> can then Return ()
              else AskAndNotify ELICITATION_CREATE (url_params sid)
                     ELICITATION_COMPLETE (JObject [elicitation_field]) (Return ()))"

section \<open>The turn\<close>

definition usage_update :: json where
  "usage_update = JObject
     [(''sessionUpdate'', JString ''usage_update''), (''used'', JNumber ''4812''),
      (''size'', JNumber ''200000''),
      (''cost'', JObject [(''amount'', JNumber ''0.0143''), (''currency'', JString ''USD'')])]"

definition closing_words :: "bool \<Rightarrow> string" where
  "closing_words passed =
     newline @
     (if passed then ''All four tests pass now. The `median` fix is in place.''
      else ''The tests still aren'' @ [CHR 0x27] @ ''t green '' @ map char_of [226, 128, 148::nat] @
           '' see the terminal output above for what failed.'')"

text \<open>Steps 7 and 8, once the tests may be run.\<close>

definition test_and_record :: "string option \<Rightarrow> string \<Rightarrow> json \<Rightarrow> string act" where
  "test_and_record here sid params =
     bind_act (run_in_terminal here sid params)
       (\<lambda>passed. Update sid (plan [''completed'', ''completed'', ''completed''])
         (bind_act (stream_text sid (closing_words passed))
           (\<lambda>_. stop_if_cancelled sid
             (bind_act (ask_how_to_record sid)
               (\<lambda>_. stop_if_cancelled sid
                 (bind_act (confirm_out_of_band sid)
                   (\<lambda>_. Update sid usage_update (Return ''end_turn''))))))))"

text \<open>Step 6.\<close>

definition refused_words :: string where
  "refused_words = newline @ ''Understood, I won'' @ [CHR 0x27] @
     ''t run anything. The fix above is ready when you are.''"

definition ask_and_test :: "string option \<Rightarrow> string \<Rightarrow> json \<Rightarrow> string act" where
  "ask_and_test here sid params =
     bind_act (stream_text sid (''Let me run the tests to confirm.'' @ newline @ newline))
       (\<lambda>_. bind_act (ask_permission sid)
         (\<lambda>approved.
            if \<not> approved then
              Update sid (tool_update ''call_test'' ''failed'' [])
                (bind_act (stream_text sid refused_words)
                  (\<lambda>_. Update sid (plan [''completed'', ''completed'', ''pending'']) (Return ''end_turn'')))
            else stop_if_cancelled sid (test_and_record here sid params)))"

text \<open>Steps 4 and 5.\<close>

definition found_words :: string where
  "found_words =
     ''Found it. `median()` returns the upper middle element for even-length input '' @
     ''instead of averaging the two middle values.'' @ newline @ newline"

definition plan_and_edit :: "string option \<Rightarrow> string \<Rightarrow> json \<Rightarrow> bool \<times> string \<Rightarrow> string act" where
  "plan_and_edit here sid params = (\<lambda>(read_ok, contents).
     Update sid (plan [''in_progress'', ''pending'', ''pending''])
       (SetConfigOption sid ''model'' (JString ''mock-opus'')
         (\<lambda>options. Update sid
            (JObject [(''sessionUpdate'', JString ''config_option_update''), (''configOptions'', options)])
            (bind_act (stream_text sid found_words)
              (\<lambda>_. stop_if_cancelled sid
                (bind_act (edit_file sid (script_cwd here params @ ''/stats.js'') read_ok contents)
                  (\<lambda>_. stop_if_cancelled sid (ask_and_test here sid params))))))))"

definition look_words :: string where
  "look_words =
     ''I'' @ [CHR 0x27] @ ''ll take a look at `stats.js` and check the `median` implementation.'' @
     newline @ newline"

definition run_turn :: "string option \<Rightarrow> string \<Rightarrow> json \<Rightarrow> string act" where
  "run_turn here sid params =
     Update sid available_commands
       (bind_act (think sid (thoughts (prompt_text params)))
         (\<lambda>stop. if stop then Return ''cancelled''
           else bind_act (stream_text sid look_words)
             (\<lambda>_. stop_if_cancelled sid
               (bind_act (read_file sid (script_cwd here params @ ''/stats.js''))
                 (\<lambda>got. stop_if_cancelled sid (plan_and_edit here sid params got))))))"

end
