(* ===== verification/Mock_Logic.thy ===== *)
theory Mock_Logic
  imports Mock_Act
begin

text \<open>
  A logic of effect trees: \<open>wp p I Q h\<close> says that a task, begun after the history \<open>h\<close>, has
  no effect that breaks \<open>I\<close> and ends with \<open>Q\<close>, whatever it is answered. \<open>only A p\<close> says
  that every effect of a task satisfies \<open>A\<close>.
\<close>

section \<open>Weakest preconditions\<close>

primrec wp ::
  "'a act \<Rightarrow> (happened list \<Rightarrow> happened \<Rightarrow> bool) \<Rightarrow> (happened list \<Rightarrow> 'a \<Rightarrow> bool) \<Rightarrow> happened list \<Rightarrow> bool"
where
  "wp (Return x) I Q h = Q h x"
| "wp (Update s u p) I Q h = (I h (Sent s u) \<and> wp p I Q (h @ [Sent s u]))"
| "wp (Emit s u p) I Q h = (I h (Replayed s u) \<and> wp p I Q (h @ [Replayed s u]))"
| "wp (Ask m v k) I Q h =
     (\<forall>r. I h (Asked m v (ReplyIs r)) \<and> wp (k r) I Q (h @ [Asked m v (ReplyIs r)]))"
| "wp (AskUntilCancelled s m v k) I Q h =
     ((\<forall>r. I h (Asked m v (ReplyIs r)) \<and> wp (k (Some r)) I Q (h @ [Asked m v (ReplyIs r)])) \<and>
      I h (Asked m v GaveUp) \<and> wp (k None) I Q (h @ [Asked m v GaveUp]))"
| "wp (AskAndNotify m v n w p) I Q h =
     (\<forall>r. I h (Asked m v (ReplyIs r)) \<and> I (h @ [Asked m v (ReplyIs r)]) (Notified n w) \<and>
        wp p I Q (h @ [Asked m v (ReplyIs r), Notified n w]))"
| "wp (IsCancelled s k) I Q h =
     (\<forall>b. I h (Looked ''cancelled'' b) \<and> wp (k b) I Q (h @ [Looked ''cancelled'' b]))"
| "wp (CanElicitForm k) I Q h =
     (\<forall>b. I h (Looked ''form'' b) \<and> wp (k b) I Q (h @ [Looked ''form'' b]))"
| "wp (CanElicitUrl k) I Q h =
     (\<forall>b. I h (Looked ''url'' b) \<and> wp (k b) I Q (h @ [Looked ''url'' b]))"
| "wp (SetConfigOption s c v k) I Q h = (\<forall>r. I h OtherEffect \<and> wp (k r) I Q (h @ [OtherEffect]))"
| "wp (ConfigOptions s k) I Q h = (\<forall>r. I h OtherEffect \<and> wp (k r) I Q (h @ [OtherEffect]))"
| "wp (McpNotifications k) I Q h = (\<forall>n. I h OtherEffect \<and> wp (k n) I Q (h @ [OtherEffect]))"
| "wp (LowerFlag n p) I Q h = (I h OtherEffect \<and> wp p I Q (h @ [OtherEffect]))"

lemma wp_bind: "wp (bind_act p f) I Q h \<longleftrightarrow> wp p I (\<lambda>h' x. wp (f x) I Q h') h"
  by (induction p arbitrary: h) simp_all

text \<open>What \<open>wp\<close> promises of a run: where it ends, and each effect after those before it.\<close>

fun kept :: "(happened list \<Rightarrow> happened \<Rightarrow> bool) \<Rightarrow> happened list \<Rightarrow> happened list \<Rightarrow> bool" where
  "kept I h [] = True"
| "kept I h (e # es) = (I h e \<and> kept I (h @ [e]) es)"

lemma kept_iff: "kept I h es \<longleftrightarrow> (\<forall>n < length es. I (h @ take n es) (es ! n))"
  by (induction es arbitrary: h) (auto simp: less_Suc_eq_0_disj)

lemma wp_sound:
  assumes "wp p I Q h" and "run p as = Some (hs, x, rest)"
  shows "Q (h @ hs) x \<and> kept I h hs"
  using assms
proof (induction p arbitrary: h as hs)
  case (Update s u p)
  then show ?case by (fastforce simp: seen_Some)
next
  case (Emit s u p)
  then show ?case by (fastforce simp: seen_Some)
next
  case (Ask m v k)
  then show ?case by (fastforce simp: seen_Some split: list.splits answer.splits)
next
  case (AskUntilCancelled s m v k)
  then show ?case by (fastforce simp: seen_Some split: list.splits answer.splits)
next
  case (AskAndNotify m v n w p)
  then show ?case by (fastforce simp: seen_Some split: list.splits answer.splits)
next
  case (IsCancelled s k)
  then show ?case by (fastforce simp: seen_Some split: list.splits answer.splits)
next
  case (CanElicitForm k)
  then show ?case by (fastforce simp: seen_Some split: list.splits answer.splits)
next
  case (CanElicitUrl k)
  then show ?case by (fastforce simp: seen_Some split: list.splits answer.splits)
next
  case (SetConfigOption s c v k)
  then show ?case by (fastforce simp: seen_Some split: list.splits answer.splits)
next
  case (ConfigOptions s k)
  then show ?case by (fastforce simp: seen_Some split: list.splits answer.splits)
next
  case (McpNotifications k)
  then show ?case by (fastforce simp: seen_Some split: list.splits answer.splits)
next
  case (LowerFlag n p)
  then show ?case by (fastforce simp: seen_Some)
qed simp

lemma wp_mono:
  assumes "wp p I Q h" and "\<And>h e. I h e \<Longrightarrow> I' h e" and "\<And>h x. Q h x \<Longrightarrow> Q' h x"
  shows "wp p I' Q' h"
  using assms(1) by (induction p arbitrary: h) (simp_all add: assms(2,3))

section \<open>Tasks whose effects are all of a kind\<close>

primrec only :: "(happened \<Rightarrow> bool) \<Rightarrow> 'a act \<Rightarrow> bool" where
  "only A (Return x) \<longleftrightarrow> True"
| "only A (Update s u p) \<longleftrightarrow> A (Sent s u) \<and> only A p"
| "only A (Emit s u p) \<longleftrightarrow> A (Replayed s u) \<and> only A p"
| "only A (Ask m v k) \<longleftrightarrow> (\<forall>r. A (Asked m v (ReplyIs r)) \<and> only A (k r))"
| "only A (AskUntilCancelled s m v k) \<longleftrightarrow>
     (\<forall>r. A (Asked m v (ReplyIs r)) \<and> only A (k (Some r))) \<and> A (Asked m v GaveUp) \<and> only A (k None)"
| "only A (AskAndNotify m v n w p) \<longleftrightarrow> (\<forall>r. A (Asked m v (ReplyIs r))) \<and> A (Notified n w) \<and> only A p"
| "only A (IsCancelled s k) \<longleftrightarrow> (\<forall>b. A (Looked ''cancelled'' b) \<and> only A (k b))"
| "only A (CanElicitForm k) \<longleftrightarrow> (\<forall>b. A (Looked ''form'' b) \<and> only A (k b))"
| "only A (CanElicitUrl k) \<longleftrightarrow> (\<forall>b. A (Looked ''url'' b) \<and> only A (k b))"
| "only A (SetConfigOption s c v k) \<longleftrightarrow> A OtherEffect \<and> (\<forall>r. only A (k r))"
| "only A (ConfigOptions s k) \<longleftrightarrow> A OtherEffect \<and> (\<forall>r. only A (k r))"
| "only A (McpNotifications k) \<longleftrightarrow> A OtherEffect \<and> (\<forall>r. only A (k r))"
| "only A (LowerFlag n p) \<longleftrightarrow> A OtherEffect \<and> only A p"

lemma only_bind [simp]: "only A p \<Longrightarrow> (\<And>x. only A (f x)) \<Longrightarrow> only A (bind_act p f)"
  by (induction p) simp_all

text \<open>A history that grew from another by effects of a kind.\<close>

definition grown :: "(happened \<Rightarrow> bool) \<Rightarrow> happened list \<Rightarrow> happened list \<Rightarrow> bool" where
  "grown A h h' \<longleftrightarrow> (\<exists>es. h' = h @ es \<and> list_all A es)"

lemma grown_refl: "grown A h h"
  by (simp add: grown_def)

lemma grown_snoc: "grown A h h' \<Longrightarrow> A e \<Longrightarrow> grown A h (h' @ [e])"
  by (force simp: grown_def)

lemma grown_two: "grown A h h' \<Longrightarrow> A e \<Longrightarrow> A e' \<Longrightarrow> grown A h (h' @ [e, e'])"
  by (force simp: grown_def)

lemma wp_grown:
  "only A p \<Longrightarrow> grown A h h' \<Longrightarrow>
     wp p (\<lambda>h2 e. grown A h h2 \<and> A e) (\<lambda>h2 x. grown A h h2) h'"
  by (induction p arbitrary: h') (simp_all add: grown_snoc grown_two)

lemma wp_only:
  assumes "only A p" and "\<And>h' e. grown A h h' \<Longrightarrow> A e \<Longrightarrow> I h' e" and "\<And>h' x. grown A h h' \<Longrightarrow> Q h' x"
  shows "wp p I Q h"
  by (rule wp_mono [OF wp_grown [OF assms(1) grown_refl]]) (use assms(2,3) in blast)+

end
