(* ===== verification/Mock_Turn.thy ===== *)
theory Mock_Turn
  imports Mock_Script Mock_Logic
begin

text \<open>
  What holds of every scripted turn, whatever the client answers and whenever it cancels.
\<close>

section \<open>Kinds of effects\<close>

fun asks :: "string \<Rightarrow> happened \<Rightarrow> bool" where
  "asks m (Asked m' _ _) = (m' = m)"
| "asks m _ = False"

text \<open>A question a user allowed.\<close>

fun granted :: "happened \<Rightarrow> bool" where
  "granted (Asked m _ (ReplyIs r)) = (m = ''session/request_permission'' \<and> allowed r)"
| "granted _ = False"

definition kind_of :: "json \<Rightarrow> string option" where
  "kind_of u = as_str (json_index u ''sessionUpdate'')"

lemma kinds [simp]:
  "kind_of (chunk k t) = Some k" "kind_of (plan sts) = Some ''plan''"
  "kind_of usage_update = Some ''usage_update''"
  "kind_of available_commands = Some ''available_commands_update''"
  "kind_of (JObject ((''sessionUpdate'', JString k) # kvs)) = Some k"
  "kind_of (tool_call i title kind st rest) = Some ''tool_call''"
  "kind_of (tool_update i st rest) = Some ''tool_call_update''"
  by (simp_all add: kind_of_def chunk_def plan_def usage_update_def available_commands_def json_index_def
      tool_call_def tool_update_def)

text \<open>Everything but questions, notifications and tool calls.\<close>

fun talk :: "happened \<Rightarrow> bool" where
  "talk (Sent _ u) = (kind_of u \<notin> {Some ''tool_call'', Some ''tool_call_update''})"
| "talk (Looked _ _) = True"
| "talk OtherEffect = True"
| "talk _ = False"

lemma talk_silent: "talk e \<Longrightarrow> \<not> asks m e \<and> \<not> granted e"
  by (cases e) auto

lemma wp_talk:
  assumes "only talk p" and "\<And>h' e. talk e \<Longrightarrow> I h' e" and "\<And>h' x. grown talk h h' \<Longrightarrow> Q h' x"
  shows "wp p I Q h"
  using assms by (blast intro: wp_only)

lemma only_mono: "only A p \<Longrightarrow> (\<And>e. A e \<Longrightarrow> B e) \<Longrightarrow> only B p"
  by (induction p) simp_all

lemma stream_words_talk: "only talk (stream_words sid ws)"
  by (induction ws) simp_all

lemma stream_text_talk [simp]: "only talk (stream_text sid t)"
  by (simp add: stream_text_def stream_words_talk)

lemma think_talk [simp]: "only talk (think sid cs)"
  by (induction cs) simp_all

text \<open>Talk leaves what matters of a history alone.\<close>

lemma grown_talk:
  "grown talk h h' \<Longrightarrow> list_ex granted h' = list_ex granted h"
  "grown talk h h' \<Longrightarrow> filter (asks m) h' = filter (asks m) h"
  using talk_silent by (auto simp: grown_def list_ex_iff list_all_iff filter_empty_conv)

section \<open>The tests run only when allowed\<close>

definition after_grant :: "happened list \<Rightarrow> happened \<Rightarrow> bool" where
  "after_grant h e \<longleftrightarrow> (asks ''terminal/create'' e \<longrightarrow> list_ex granted h)"

lemma talk_after_grant [simp]: "talk e \<Longrightarrow> after_grant h e"
  using talk_silent by (simp add: after_grant_def)

lemma wp_stream:
  assumes "\<And>h' e. talk e \<Longrightarrow> I h' e" and "\<And>h'. grown talk h h' \<Longrightarrow> Q h' ()"
  shows "wp (stream_text sid t) I Q h"
  using assms by (intro wp_talk) auto

lemma test_and_record_grant:
  "list_ex granted h \<Longrightarrow> wp (test_and_record here sid params) after_grant (\<lambda>_ _. True) h"
  unfolding test_and_record_def run_in_terminal_def stop_if_cancelled_def ask_how_to_record_def
    confirm_out_of_band_def
  by (auto simp: after_grant_def wp_bind Let_def split: option.splits intro!: wp_stream dest: talk_silent)

lemmas turn_steps = run_turn_def plan_and_edit_def ask_and_test_def read_file_def edit_file_def
  edited_def ask_permission_def stop_if_cancelled_def

lemma ask_and_test_grant: "wp (ask_and_test here sid params) after_grant (\<lambda>_ _. True) h"
  unfolding ask_and_test_def ask_permission_def stop_if_cancelled_def
  by (auto simp: after_grant_def wp_bind list_ex_iff intro!: wp_stream test_and_record_grant
      dest: talk_silent)

lemma wp_think:
  assumes "\<And>h' e. talk e \<Longrightarrow> I h' e" and "\<And>h' b. grown talk h h' \<Longrightarrow> Q h' b"
  shows "wp (think sid cs) I Q h"
  using assms by (intro wp_talk) auto

lemma plan_and_edit_grant: "wp (plan_and_edit here sid params got) after_grant (\<lambda>_ _. True) h"
  unfolding plan_and_edit_def edit_file_def edited_def stop_if_cancelled_def
  by (auto simp: after_grant_def wp_bind Let_def intro!: wp_stream ask_and_test_grant
      split: prod.splits dest: talk_silent)

lemma run_turn_grant: "wp (run_turn here sid params) after_grant (\<lambda>_ _. True) h"
  unfolding run_turn_def read_file_def stop_if_cancelled_def
  by (auto simp: after_grant_def wp_bind Let_def intro!: wp_think wp_stream plan_and_edit_grant
      split: sum.splits dest: talk_silent)

text \<open>
  In every run of a turn, whatever the client answers, a process is only asked for after a
  permission request that was answered with an option that allows it.
\<close>

theorem tests_run_only_when_allowed:
  assumes "run (run_turn here sid params) as = Some (hs, stop, rest)"
    and "n < length hs" and "asks ''terminal/create'' (hs ! n)"
  shows "list_ex granted (take n hs)"
  using wp_sound [OF run_turn_grant [of here sid params "[]"] assms(1)] assms(2,3)
  by (simp add: kept_iff after_grant_def)

section \<open>Every tool call is finished\<close>

definition text_at :: "string \<Rightarrow> json \<Rightarrow> string" where
  "text_at k u = default_str [] (as_str (json_index u k))"

text \<open>The calls that were shown to start and not to end.\<close>

fun mark :: "happened \<Rightarrow> string list \<Rightarrow> string list" where
  "mark (Sent _ u) open_calls =
     (if kind_of u = Some ''tool_call'' then text_at ''toolCallId'' u # open_calls
      else if kind_of u = Some ''tool_call_update'' \<and> text_at ''status'' u \<in> {''completed'', ''failed''}
      then filter (\<lambda>i. i \<noteq> text_at ''toolCallId'' u) open_calls
      else open_calls)"
| "mark _ open_calls = open_calls"

definition unfinished :: "happened list \<Rightarrow> string list" where
  "unfinished hs = fold mark hs []"

lemma unfinished_simps [simp]:
  "unfinished [] = []" "unfinished (h @ es) = fold mark es (unfinished h)"
  by (simp_all add: unfinished_def)

lemma tool_texts [simp]:
  "text_at ''toolCallId'' (tool_call i title kind st rest) = i"
  "text_at ''toolCallId'' (tool_update i st rest) = i"
  "text_at ''status'' (tool_update i st rest) = st"
  by (simp_all add: text_at_def json_index_def tool_call_def tool_update_def default_str_def)

lemma mark_talk: "talk e \<Longrightarrow> mark e = id"
  by (cases e) (auto simp: fun_eq_iff)

lemma grown_unfinished: "grown talk h h' \<Longrightarrow> unfinished h' = unfinished h"
proof -
  have "list_all talk es \<Longrightarrow> fold mark es s = s" for es s
    by (induction es) (simp_all add: mark_talk)
  then show "grown talk h h' \<Longrightarrow> unfinished h' = unfinished h"
    by (auto simp: grown_def unfinished_def)
qed

definition done_at_end :: "happened list \<Rightarrow> string \<Rightarrow> bool" where
  "done_at_end h stop \<longleftrightarrow> stop = ''cancelled'' \<or> stop = ''end_turn'' \<and> unfinished h = []"

lemma run_in_terminal_closes:
  assumes "unfinished h = [''call_test'']"
    and "\<And>h' b. unfinished h' = [] \<Longrightarrow> Q h' b"
  shows "wp (run_in_terminal here sid params) (\<lambda>_ _. True) Q h"
  using assms(1) by (auto simp: run_in_terminal_def Let_def split: option.splits intro!: assms(2))

lemma test_and_record_closes:
  "unfinished h = [''call_test''] \<Longrightarrow> wp (test_and_record here sid params) (\<lambda>_ _. True) done_at_end h"
  unfolding test_and_record_def stop_if_cancelled_def ask_how_to_record_def confirm_out_of_band_def
  by (auto simp: wp_bind done_at_end_def grown_unfinished split: option.splits
      intro!: run_in_terminal_closes wp_stream)

lemma ask_and_test_closes:
  "unfinished h = [] \<Longrightarrow> wp (ask_and_test here sid params) (\<lambda>_ _. True) done_at_end h"
  unfolding ask_and_test_def ask_permission_def stop_if_cancelled_def
  by (auto simp: wp_bind done_at_end_def grown_unfinished intro!: wp_stream test_and_record_closes)

lemma plan_and_edit_closes:
  "unfinished h = [] \<Longrightarrow> wp (plan_and_edit here sid params got) (\<lambda>_ _. True) done_at_end h"
  unfolding plan_and_edit_def edit_file_def edited_def stop_if_cancelled_def
  by (auto simp: wp_bind done_at_end_def grown_unfinished Let_def split: prod.splits
      intro!: wp_stream ask_and_test_closes)

lemma run_turn_closes:
  "unfinished h = [] \<Longrightarrow> wp (run_turn here sid params) (\<lambda>_ _. True) done_at_end h"
  unfolding run_turn_def read_file_def stop_if_cancelled_def
  by (auto simp: wp_bind done_at_end_def grown_unfinished Let_def split: sum.splits
      intro!: wp_think wp_stream plan_and_edit_closes)

text \<open>
  A turn ends as cancelled or at its end, and where it reaches its end every tool call it
  has shown has been shown to complete or to fail.
\<close>

theorem finished_turns_leave_no_call_open:
  assumes "run (run_turn here sid params) as = Some (hs, stop, rest)"
  shows "stop = ''cancelled'' \<or> stop = ''end_turn'' \<and> unfinished hs = []"
  using wp_sound [OF run_turn_closes [OF unfinished_simps(1)] assms] by (simp add: done_at_end_def)

section \<open>What the client did not offer is not asked for\<close>

definition offered_last :: "happened list \<Rightarrow> happened \<Rightarrow> bool" where
  "offered_last h e \<longleftrightarrow> (asks ELICITATION_CREATE e \<longrightarrow>
     h \<noteq> [] \<and> (last h = Looked ''form'' True \<or> last h = Looked ''url'' True))"

lemma talk_offered_last [simp]: "talk e \<Longrightarrow> offered_last h e"
  using talk_silent by (simp add: offered_last_def)

lemma test_and_record_offers: "wp (test_and_record here sid params) offered_last (\<lambda>_ _. True) h"
  unfolding test_and_record_def run_in_terminal_def stop_if_cancelled_def ask_how_to_record_def
    confirm_out_of_band_def
  by (auto simp: offered_last_def wp_bind Let_def split: option.splits intro!: wp_stream dest: talk_silent)

lemma ask_and_test_offers: "wp (ask_and_test here sid params) offered_last (\<lambda>_ _. True) h"
  unfolding ask_and_test_def ask_permission_def stop_if_cancelled_def
  by (auto simp: offered_last_def wp_bind intro!: wp_stream test_and_record_offers dest: talk_silent)

lemma plan_and_edit_offers: "wp (plan_and_edit here sid params got) offered_last (\<lambda>_ _. True) h"
  unfolding plan_and_edit_def edit_file_def edited_def stop_if_cancelled_def
  by (auto simp: offered_last_def wp_bind Let_def split: prod.splits
      intro!: wp_stream ask_and_test_offers dest: talk_silent)

lemma run_turn_offers: "wp (run_turn here sid params) offered_last (\<lambda>_ _. True) h"
  unfolding run_turn_def read_file_def stop_if_cancelled_def
  by (auto simp: offered_last_def wp_bind Let_def split: sum.splits
      intro!: wp_think wp_stream plan_and_edit_offers dest: talk_silent)

text \<open>
  A turn puts a question of its own to the user only right after it has seen that the
  client declared it can show such a question.
\<close>

theorem only_offered_questions_are_asked:
  assumes "run (run_turn here sid params) as = Some (hs, stop, rest)"
    and "n < length hs" and "asks ELICITATION_CREATE (hs ! n)"
  shows "0 < n \<and> hs ! (n - 1) \<in> set [Looked ''form'' True, Looked ''url'' True]"
proof -
  have "offered_last (take n hs) (hs ! n)"
    using wp_sound [OF run_turn_offers [of here sid params "[]"] assms(1)] assms(2)
    by (simp add: kept_iff)
  then have "take n hs \<noteq> []" "last (take n hs) \<in> set [Looked ''form'' True, Looked ''url'' True]"
    using assms(3) by (auto simp: offered_last_def)
  moreover from this(1) have "0 < n" by (cases n) auto
  then obtain m where "n = Suc m" by (cases n) auto
  then have "last (take n hs) = hs ! (n - 1)"
    using assms(2) by (simp add: take_Suc_conv_app_nth)
  ultimately show ?thesis by simp
qed

section \<open>How much a turn asks\<close>

fun is_question :: "happened \<Rightarrow> bool" where
  "is_question (Asked _ _ _) = True"
| "is_question _ = False"

abbreviation questions :: "happened list \<Rightarrow> nat" where
  "questions h \<equiv> length (filter is_question h)"

lemma grown_questions: "grown talk h h' \<Longrightarrow> questions h' = questions h"
proof -
  have "talk e \<Longrightarrow> \<not> is_question e" for e by (cases e) auto
  then show "grown talk h h' \<Longrightarrow> questions h' = questions h"
    by (auto simp: grown_def list_all_iff filter_empty_conv)
qed

lemma test_and_record_questions:
  "questions h \<le> 3 \<Longrightarrow> wp (test_and_record here sid params) (\<lambda>_ _. True) (\<lambda>h' _. questions h' \<le> 8) h"
  unfolding test_and_record_def run_in_terminal_def stop_if_cancelled_def ask_how_to_record_def
    confirm_out_of_band_def
  by (auto simp: wp_bind Let_def grown_questions split: option.splits intro!: wp_stream)

lemma ask_and_test_questions:
  "questions h \<le> 2 \<Longrightarrow> wp (ask_and_test here sid params) (\<lambda>_ _. True) (\<lambda>h' _. questions h' \<le> 8) h"
  unfolding ask_and_test_def ask_permission_def stop_if_cancelled_def
  by (auto simp: wp_bind grown_questions intro!: wp_stream test_and_record_questions)

lemma plan_and_edit_questions:
  "questions h \<le> 1 \<Longrightarrow> wp (plan_and_edit here sid params got) (\<lambda>_ _. True) (\<lambda>h' _. questions h' \<le> 8) h"
  unfolding plan_and_edit_def edit_file_def edited_def stop_if_cancelled_def
  by (auto simp: wp_bind Let_def grown_questions split: prod.splits intro!: wp_stream ask_and_test_questions)

lemma run_turn_questions:
  "questions h = 0 \<Longrightarrow> wp (run_turn here sid params) (\<lambda>_ _. True) (\<lambda>h' _. questions h' \<le> 8) h"
  unfolding run_turn_def read_file_def stop_if_cancelled_def
  by (auto simp: wp_bind Let_def grown_questions split: sum.splits
      intro!: wp_think wp_stream plan_and_edit_questions)

section \<open>A refusal ends the turn\<close>

fun refused :: "happened \<Rightarrow> bool" where
  "refused (Asked m _ (ReplyIs r)) = (m = ''session/request_permission'' \<and> \<not> allowed r)"
| "refused _ = False"

lemma grown_refused: "grown talk h h' \<Longrightarrow> list_ex refused h' = list_ex refused h"
proof -
  have "talk e \<Longrightarrow> \<not> refused e" for e by (cases e) auto
  then show "grown talk h h' \<Longrightarrow> list_ex refused h' = list_ex refused h"
    by (auto simp: grown_def list_ex_iff list_all_iff)
qed

definition refusal_ends :: "happened list \<Rightarrow> string \<Rightarrow> bool" where
  "refusal_ends h stop \<longleftrightarrow> (list_ex refused h \<longrightarrow> stop = ''end_turn'')"

lemma test_and_record_refusal:
  "\<not> list_ex refused h \<Longrightarrow> wp (test_and_record here sid params) (\<lambda>_ _. True) refusal_ends h"
  unfolding test_and_record_def run_in_terminal_def stop_if_cancelled_def ask_how_to_record_def
    confirm_out_of_band_def
  by (auto simp: refusal_ends_def wp_bind Let_def grown_refused split: option.splits intro!: wp_stream)

lemma ask_and_test_refusal:
  "\<not> list_ex refused h \<Longrightarrow> wp (ask_and_test here sid params) (\<lambda>_ _. True) refusal_ends h"
  unfolding ask_and_test_def ask_permission_def stop_if_cancelled_def
  by (auto simp: refusal_ends_def wp_bind grown_refused intro!: wp_stream test_and_record_refusal)

lemma plan_and_edit_refusal:
  "\<not> list_ex refused h \<Longrightarrow> wp (plan_and_edit here sid params got) (\<lambda>_ _. True) refusal_ends h"
  unfolding plan_and_edit_def edit_file_def edited_def stop_if_cancelled_def
  by (auto simp: refusal_ends_def wp_bind Let_def grown_refused split: prod.splits
      intro!: wp_stream ask_and_test_refusal)

lemma run_turn_refusal:
  "\<not> list_ex refused h \<Longrightarrow> wp (run_turn here sid params) (\<lambda>_ _. True) refusal_ends h"
  unfolding run_turn_def read_file_def stop_if_cancelled_def
  by (auto simp: refusal_ends_def wp_bind Let_def grown_refused split: sum.splits
      intro!: wp_think wp_stream plan_and_edit_refusal)

text \<open>
  A permission request that is not answered with leave ends the turn as \<open>end_turn\<close>, also
  where the user cancelled the turn and the client answered the request as cancelled:
  cancellation is looked at only before the words that follow, and never reported.
\<close>

theorem a_refusal_is_never_a_cancellation:
  assumes "run (run_turn here sid params) as = Some (hs, stop, rest)" and "list_ex refused hs"
  shows "stop = ''end_turn''"
  using wp_sound [OF run_turn_refusal [of "[]"] assms(1)] assms(2) by (simp add: refusal_ends_def)

section \<open>A turn that is asked, and ends\<close>

text \<open>
  A client that answers whatever it is asked, as it likes after what has happened so far,
  and what it gives a task, in order.
\<close>

record client =
  cl_reply :: "happened list \<Rightarrow> string \<Rightarrow> json \<Rightarrow> reply"
  cl_walks_away :: "happened list \<Rightarrow> bool"
  cl_flag :: "happened list \<Rightarrow> string \<Rightarrow> bool"
  cl_value :: "happened list \<Rightarrow> json"
  cl_count :: "happened list \<Rightarrow> 64 word"

primrec served :: "'a act \<Rightarrow> client \<Rightarrow> happened list \<Rightarrow> answer list" where
  "served (Return x) c h = []"
| "served (Update s u p) c h = served p c (h @ [Sent s u])"
| "served (Emit s u p) c h = served p c (h @ [Replayed s u])"
| "served (Ask m v k) c h =
     (let r = cl_reply c h m v in ReplyIs r # served (k r) c (h @ [Asked m v (ReplyIs r)]))"
| "served (AskUntilCancelled s m v k) c h =
     (if cl_walks_away c h then GaveUp # served (k None) c (h @ [Asked m v GaveUp])
      else let r = cl_reply c h m v in ReplyIs r # served (k (Some r)) c (h @ [Asked m v (ReplyIs r)]))"
| "served (AskAndNotify m v m' v' p) c h =
     (let r = cl_reply c h m v
      in ReplyIs r # served p c (h @ [Asked m v (ReplyIs r), Notified m' v']))"
| "served (IsCancelled s k) c h =
     (let b = cl_flag c h ''cancelled'' in FlagIs b # served (k b) c (h @ [Looked ''cancelled'' b]))"
| "served (CanElicitForm k) c h =
     (let b = cl_flag c h ''form'' in FlagIs b # served (k b) c (h @ [Looked ''form'' b]))"
| "served (CanElicitUrl k) c h =
     (let b = cl_flag c h ''url'' in FlagIs b # served (k b) c (h @ [Looked ''url'' b]))"
| "served (SetConfigOption s i v k) c h =
     (let r = cl_value c h in ValueIs r # served (k r) c (h @ [OtherEffect]))"
| "served (ConfigOptions s k) c h =
     (let r = cl_value c h in ValueIs r # served (k r) c (h @ [OtherEffect]))"
| "served (McpNotifications k) c h =
     (let n = cl_count c h in CountIs n # served (k n) c (h @ [OtherEffect]))"
| "served (LowerFlag f p) c h = served p c (h @ [OtherEffect])"

definition left_over :: "(happened list \<times> 'a \<times> answer list) option \<Rightarrow> answer list option" where
  "left_over r = map_option (\<lambda>(_, _, rest). rest) r"

lemma left_over_seen [simp]: "left_over (seen h r) = left_over r"
  by (cases r) (auto simp: left_over_def seen_def)

lemma served_ends: "left_over (run p (served p c h)) = Some []"
proof (induction p arbitrary: h)
  case (Return x)
  show ?case by (simp add: left_over_def)
qed (simp_all add: Let_def)

text \<open>
  C34: Whatever the client answers, as long as it answers, a turn ends: it has put at most
  eight questions, and has used up exactly what it was answered.
\<close>

theorem turns_end:
  "\<exists>hs stop. run (run_turn here sid params) (served (run_turn here sid params) c []) = Some (hs, stop, []) \<and>
     stop \<in> {''cancelled'', ''end_turn''} \<and> questions hs \<le> 8"
proof -
  obtain hs stop where r: "run (run_turn here sid params) (served (run_turn here sid params) c []) = Some (hs, stop, [])"
    using served_ends [of "run_turn here sid params" c "[]"] by (auto simp: left_over_def)
  moreover have "stop \<in> {''cancelled'', ''end_turn''}"
    using wp_sound [OF run_turn_closes [OF unfinished_simps(1)] r] by (auto simp: done_at_end_def)
  moreover have "questions hs \<le> 8"
    using wp_sound [OF run_turn_questions [of "[]"] r] by simp
  ultimately show ?thesis by blast
qed

section \<open>Text\<close>

lemma split_words_concat: "concat (split_words current s) = current @ s"
  by (induction current s rule: split_words.induct) auto

text \<open>The words of a streamed text are the text, cut and put together again.\<close>

theorem streamed_words_are_the_text: "concat (split_keeping_whitespace s) = s"
  by (simp add: split_keeping_whitespace_def split_words_concat)

end
