(* ===== verification/Mock_Demo.thy ===== *)
theory Mock_Demo
  imports Mock_Turn
begin

text \<open>
  Two turns of the script run to their end: one whose user allows the tests, one whose user
  does not; the client offers forms and nothing else.
\<close>

definition allowing :: reply where
  "allowing = Inr (Some (JObject [(''outcome'',
     JObject [(''outcome'', JString ''selected''), (''optionId'', JString ''allow_once'')])]))"

definition demo_client :: "reply \<Rightarrow> client" where
  "demo_client permission =
     \<lparr>cl_reply = (\<lambda>h m v. if m = ''session/request_permission'' then permission else Inl (method_not_found m)),
      cl_walks_away = (\<lambda>h. False), cl_flag = (\<lambda>h k. k = ''form''),
      cl_value = (\<lambda>h. JNull), cl_count = (\<lambda>h. 0)\<rparr>"

definition demo_run :: "reply \<Rightarrow> (happened list \<times> string \<times> answer list) option" where
  "demo_run permission =
     run (run_turn None ''s'' JNull) (served (run_turn None ''s'' JNull) (demo_client permission) [])"

definition what_happened :: "reply \<Rightarrow> happened list" where
  "what_happened permission = fst (the (demo_run permission))"

definition stop_reason :: "reply \<Rightarrow> string" where
  "stop_reason permission = fst (snd (the (demo_run permission)))"

lemma demo_run_Some:
  "demo_run permission = Some (what_happened permission, stop_reason permission, [])"
proof -
  have "left_over (demo_run permission) = Some []"
    unfolding demo_run_def by (rule served_ends)
  then show ?thesis by (auto simp: left_over_def what_happened_def stop_reason_def)
qed

lemmas demo_turn = demo_run_Some [unfolded demo_run_def]

lemma allowed_turn:
  "map_option (\<lambda>(hs, _). length hs = 152 \<and> asks ''terminal/create'' (hs ! 105) \<and>
     asks ELICITATION_CREATE (hs ! 140)) (demo_run allowing) = Some True"
  by code_simp

lemma allowed_events:
  "length (what_happened allowing) = 152" "asks ''terminal/create'' (what_happened allowing ! 105)"
  "asks ELICITATION_CREATE (what_happened allowing ! 140)"
  using allowed_turn demo_run_Some [of allowing] by (auto split: prod.splits)

lemma refused_turn:
  "map_option (\<lambda>(hs, stop, _). list_ex refused hs) (demo_run (Inl (internal_error []))) = Some True"
  by code_simp

theorem tests_run_only_when_allowed_witness: "list_ex granted (take 105 (what_happened allowing))"
  by (rule tests_run_only_when_allowed [OF demo_turn [of allowing]])
    (simp_all add: allowed_events)

theorem finished_turns_leave_no_call_open_witness:
  "stop_reason allowing = ''cancelled'' \<or>
   stop_reason allowing = ''end_turn'' \<and> unfinished (what_happened allowing) = []"
  by (rule finished_turns_leave_no_call_open [OF demo_turn [of allowing]])

theorem only_offered_questions_are_asked_witness:
  "what_happened allowing ! 139 \<in> set [Looked ''form'' True, Looked ''url'' True]"
  using only_offered_questions_are_asked [OF demo_turn [of allowing], of 140]
    allowed_events by simp

theorem a_refusal_is_never_a_cancellation_witness:
  "stop_reason (Inl (internal_error [])) = ''end_turn''"
proof (rule a_refusal_is_never_a_cancellation [OF demo_turn])
  show "list_ex refused (what_happened (Inl (internal_error [])))"
    using refused_turn demo_run_Some [of "Inl (internal_error [])"] by (auto split: prod.splits)
qed

end
