(* ===== verification/Calendar.thy ===== *)
theory Calendar
  imports Mock_Script
begin

text \<open>
  The timestamp of \<open>crates/mjx-mock-agent/src/main.rs\<close>: \<open>iso8601\<close> and its conversion of a
  number of days into a date, against the Gregorian calendar counted day by day.
\<close>

section \<open>The conversion\<close>

definition year_of_era :: "int \<Rightarrow> int" where
  "year_of_era doe = (doe - doe div 1460 + doe div 36524 - doe div 146096) div 365"

definition civil_from_days :: "int \<Rightarrow> int \<times> int \<times> int" where
  "civil_from_days days =
     (let z = days + 719468;
          era = z div 146097;
          day_of_era = z mod 146097;
          yoe = year_of_era day_of_era;
          day_of_year = day_of_era - (365 * yoe + yoe div 4 - yoe div 100);
          march_month = (5 * day_of_year + 2) div 153;
          day = day_of_year - (153 * march_month + 2) div 5 + 1;
          month = (if march_month < 10 then march_month + 3 else march_month - 9)
      in (era * 400 + yoe + (if month \<le> 2 then 1 else 0), month, day))"

definition iso8601 :: "64 word \<Rightarrow> string" where
  "iso8601 seconds =
     (let s = unat seconds;
          (year, month, day) = civil_from_days (int (s div 86400));
          time = s mod 86400;
          two = (\<lambda>n. pad_left 2 (CHR ''0'') (dec n))
      in pad_left 4 (CHR ''0'') (int_text year) @ ''-'' @ two (nat month) @ ''-'' @ two (nat day) @ ''T'' @
         two (time div 3600) @ '':'' @ two (time mod 3600 div 60) @ '':'' @ two (time mod 60) @ ''Z'')"

section \<open>The Gregorian calendar\<close>

definition leap :: "int \<Rightarrow> bool" where
  "leap y \<longleftrightarrow> 4 dvd y \<and> (100 dvd y \<longrightarrow> 400 dvd y)"

definition month_days :: "int \<Rightarrow> int \<Rightarrow> int" where
  "month_days y m =
     (if m = 2 then (if leap y then 29 else 28) else if m \<in> {4, 6, 9, 11} then 30 else 31)"

fun next_day :: "int \<times> int \<times> int \<Rightarrow> int \<times> int \<times> int" where
  "next_day (y, m, d) =
     (if d < month_days y m then (y, m, d + 1)
      else if m < 12 then (y, m + 1, 1) else (y + 1, 1, 1))"

section \<open>Years that begin in March\<close>

text \<open>The year of an era by its century, its four years and its year among them.\<close>

definition leap_end :: "int \<Rightarrow> int \<Rightarrow> int \<Rightarrow> bool" where
  "leap_end c k r \<longleftrightarrow> r = 3 \<and> (k < 24 \<or> c = 3)"

lemma year_of_era_spec:
  assumes "0 \<le> c" "c < 4" "0 \<le> k" "k < 25" "0 \<le> r" "r < 4" "0 \<le> d"
    and "d < 365 \<or> d = 365 \<and> leap_end c k r"
  shows "year_of_era (36524 * c + 1461 * k + 365 * r + d) = 100 * c + 4 * k + r"
proof -
  let ?doe = "36524 * c + 1461 * k + 365 * r + d"
  let ?x = "24 * c + k + 365 * r + d"
  define e :: int where "e = (if ?x < 1460 then 0 else 1)"
  have cases_d: "d < 365 \<or> d = 365 \<and> r = 3 \<and> (k < 24 \<or> c = 3)"
    using assms(8) by (auto simp: leap_end_def)
  have "?doe = ?x + (25 * c + k) * 1460" by simp
  then have "?doe div 1460 = 25 * c + k + ?x div 1460" by (metis add.commute div_mult_self1 zero_neq_numeral)
  moreover have "?x div 1460 = e"
    using assms cases_d by (auto simp: e_def div_pos_pos_trivial int_div_pos_eq)
  ultimately have fours: "?doe div 1460 = 25 * c + k + e" by simp
  have hundreds: "?doe div 36524 - ?doe div 146096 = c"
  proof (cases "c = 3 \<and> k = 24 \<and> r = 3 \<and> d = 365")
    case True
    then show ?thesis by simp
  next
    case False
    then have below: "1461 * k + 365 * r + d < 36524" and "?doe < 146096" using assms cases_d by auto
    then have "?doe div 146096 = 0" using assms by (intro div_pos_pos_trivial) auto
    moreover have "?doe = (1461 * k + 365 * r + d) + c * 36524" by simp
    then have "?doe div 36524 = c + (1461 * k + 365 * r + d) div 36524"
      by (metis div_mult_self1 zero_neq_numeral)
    moreover have "(1461 * k + 365 * r + d) div 36524 = 0"
      using below assms by (intro div_pos_pos_trivial) auto
    ultimately show ?thesis by simp
  qed
  have "?doe - ?doe div 1460 + ?doe div 36524 - ?doe div 146096 = (d - e) + (100 * c + 4 * k + r) * 365"
    using fours hundreds by simp
  then have "year_of_era ?doe = (100 * c + 4 * k + r) + (d - e) div 365"
    unfolding year_of_era_def by (metis div_mult_self1 zero_neq_numeral)
  moreover have "0 \<le> d - e" "d - e < 365" using assms cases_d by (auto simp: e_def)
  ultimately show ?thesis by simp
qed

lemma march_year:
  assumes "0 \<le> doe" and "doe < 146097"
  obtains c k r d where "0 \<le> c" "c < 4" "0 \<le> k" "k < 25" "0 \<le> r" "r < 4" "0 \<le> d"
    "d < 365 \<or> d = 365 \<and> leap_end c k r" "doe = 36524 * c + 1461 * k + 365 * r + d"
proof -
  define c where "c = min 3 (doe div 36524)"
  define y where "y = doe - 36524 * c"
  define k where "k = y div 1461"
  define x where "x = y - 1461 * k"
  define r where "r = min 3 (x div 365)"
  define d where "d = x - 365 * r"
  have c: "0 \<le> c" "c < 4" and y: "0 \<le> y" "y < 36524 \<or> c = 3 \<and> y = 36524"
    using assms by (auto simp: c_def y_def min_def)
  then have k: "0 \<le> k" "k < 25" by (auto simp: k_def)
  have x: "0 \<le> x" "x < 1461" by (simp_all add: x_def k_def minus_mult_div_eq_mod)
  then have r: "0 \<le> r" "r < 4" and d: "0 \<le> d" "d < 365 \<or> d = 365 \<and> r = 3 \<and> x = 1460"
    by (auto simp: r_def d_def min_def)
  have doe: "doe = 36524 * c + 1461 * k + 365 * r + d" by (simp add: d_def x_def y_def)
  have "k < 24 \<or> c = 3" if "x = 1460"
    using y that k by (auto simp: x_def)
  then have "d < 365 \<or> d = 365 \<and> leap_end c k r" using d by (auto simp: leap_end_def)
  then show thesis using that c k r d(1) doe by blast
qed

text \<open>The date of the \<open>d\<close>-th day of the year that begins in March of \<open>y\<close>.\<close>

definition march_date :: "int \<Rightarrow> int \<Rightarrow> int \<times> int \<times> int" where
  "march_date y d =
     (let mp = (5 * d + 2) div 153; m = (if mp < 10 then mp + 3 else mp - 9)
      in (y + (if m \<le> 2 then 1 else 0), m, d - (153 * mp + 2) div 5 + 1))"

lemma civil_march:
  assumes "0 \<le> c" "c < 4" "0 \<le> k" "k < 25" "0 \<le> r" "r < 4" "0 \<le> d"
    and "d < 365 \<or> d = 365 \<and> leap_end c k r"
    and days: "days + 719468 = 146097 * era + (36524 * c + 1461 * k + 365 * r + d)"
  shows "civil_from_days days = march_date (400 * era + 100 * c + 4 * k + r) d"
proof -
  let ?doe = "36524 * c + 1461 * k + 365 * r + d" and ?yoe = "100 * c + 4 * k + r"
  have doe: "0 \<le> ?doe" "?doe < 146097" using assms by (auto simp: leap_end_def)
  have era: "(days + 719468) div 146097 = era" "(days + 719468) mod 146097 = ?doe"
    unfolding days using doe by simp_all
  have yoe: "year_of_era ?doe = ?yoe" by (rule year_of_era_spec [OF assms(1-8)])
  have "?yoe = r + (25 * c + k) * 4" "?yoe = (4 * k + r) + c * 100" by simp_all
  then have "?yoe div 4 = 25 * c + k + r div 4" "?yoe div 100 = c + (4 * k + r) div 100"
    by (metis div_mult_self1 zero_neq_numeral)+
  then have "?yoe div 4 = 25 * c + k" "?yoe div 100 = c" using assms by simp_all
  then have "?doe - (365 * ?yoe + ?yoe div 4 - ?yoe div 100) = d" by simp
  then show ?thesis
    unfolding civil_from_days_def march_date_def Let_def era yoe by (simp add: algebra_simps)
qed

section \<open>One day later\<close>

lemma leap_march:
  assumes "0 \<le> c" "c < 4" "0 \<le> k" "k < 25" "0 \<le> r" "r < 4"
  shows "leap (400 * era + 100 * c + 4 * k + r + 1) = leap_end c k r"
proof -
  let ?y = "400 * era + 100 * c + 4 * k + r + 1"
  have "?y = (100 * era + 25 * c + k) * 4 + (r + 1)" by simp
  then have "4 dvd ?y \<longleftrightarrow> 4 dvd (r + 1)" by (metis dvd_add_right_iff dvd_triv_right)
  moreover have "r = 0 \<or> r = 1 \<or> r = 2 \<or> r = 3" using assms by linarith
  ultimately have four: "4 dvd ?y \<longleftrightarrow> r = 3" by auto
  have "?y = (4 * era + c) * 100 + (4 * k + r + 1)" by simp
  then have "100 dvd ?y \<longleftrightarrow> 100 dvd (4 * k + r + 1)" by (metis dvd_add_right_iff dvd_triv_right)
  moreover have "100 dvd (4 * k + 3 + 1) \<longleftrightarrow> k = 24" using assms(3,4) by presburger
  ultimately have hundred: "100 dvd ?y \<longleftrightarrow> k = 24" if "r = 3" using that by (simp only: that)
  have "?y = era * 400 + (100 * c + 4 * k + r + 1)" by simp
  then have "400 dvd ?y \<longleftrightarrow> 400 dvd (100 * c + 4 * k + r + 1)" by (metis dvd_add_right_iff dvd_triv_right)
  moreover have "400 dvd (100 * c + 4 * 24 + 3 + 1) \<longleftrightarrow> c = 3" using assms(1,2) by presburger
  ultimately have "400 dvd ?y \<longleftrightarrow> c = 3" if "r = 3" "k = 24" using that by (simp only: that)
  then show ?thesis using four hundred assms by (auto simp: leap_def leap_end_def)
qed

lemma below_twelve:
  "0 \<le> (m :: int) \<Longrightarrow> m < 12 \<Longrightarrow>
     m = 0 \<or> m = 1 \<or> m = 2 \<or> m = 3 \<or> m = 4 \<or> m = 5 \<or> m = 6 \<or> m = 7 \<or> m = 8 \<or> m = 9 \<or> m = 10 \<or> m = 11"
  by presburger

lemma march_date_next:
  assumes "0 \<le> d" and "d < 364 \<or> d = 364 \<and> leap (y + 1)"
  shows "march_date y (d + 1) = next_day (march_date y d)"
proof -
  define m where "m = (5 * d + 2) div 153"
  have lower: "153 * m \<le> 5 * d + 2" and upper: "5 * d + 2 < 153 * m + 153"
    unfolding m_def by presburger+
  have m: "0 \<le> m" "m < 12" using assms by (auto simp: m_def)
  have m': "(5 * (d + 1) + 2) div 153 = (if 5 * d + 7 < 153 * m + 153 then m else m + 1)"
  proof (cases "5 * d + 7 < 153 * m + 153")
    case True
    then have "(5 * (d + 1) + 2) div 153 = m"
      using lower by (intro int_div_pos_eq [where r = "5 * d + 7 - 153 * m"]) auto
    with True show ?thesis by simp
  next
    case False
    then have "(5 * (d + 1) + 2) div 153 = m + 1"
      using upper by (intro int_div_pos_eq [where r = "5 * d + 7 - 153 * (m + 1)"]) auto
    with False show ?thesis by simp
  qed
  show ?thesis
    using below_twelve [OF m] assms lower upper
    unfolding march_date_def Let_def m' m_def [symmetric]
    by (elim disjE) (auto simp: month_days_def)
qed

lemma march_date_last:
  "d = 364 \<and> \<not> leap (y + 1) \<or> d = 365 \<and> leap (y + 1) \<Longrightarrow>
     march_date (y + 1) 0 = next_day (march_date y d)"
  by (auto simp: march_date_def month_days_def)

lemma civil_next_year:
  assumes "0 \<le> c" "c < 4" "0 \<le> k" "k < 25" "0 \<le> r" "r < 4"
    and last_day: "d = (if leap_end c k r then 365 else 364)"
    and days: "days + 719468 = 146097 * era + (36524 * c + 1461 * k + 365 * r + d)"
  shows "civil_from_days (days + 1) = march_date (400 * era + 100 * c + 4 * k + r + 1) 0"
proof -
  consider "r < 3" | "r = 3" "k < 24" | "r = 3" "k = 24" "c < 3" | "r = 3" "k = 24" "c = 3"
    using assms by fastforce
  then show ?thesis
  proof cases
    case 1
    then show ?thesis
      using assms civil_march [of c k "r + 1" 0 "days + 1" era] by (auto simp: leap_end_def algebra_simps)
  next
    case 2
    then show ?thesis
      using assms civil_march [of c "k + 1" 0 0 "days + 1" era] by (auto simp: leap_end_def algebra_simps)
  next
    case 3
    then show ?thesis
      using assms civil_march [of "c + 1" 0 0 0 "days + 1" era] by (auto simp: leap_end_def algebra_simps)
  next
    case 4
    then show ?thesis
      using assms civil_march [of 0 0 0 0 "days + 1" "era + 1"] by (auto simp: leap_end_def algebra_simps)
  qed
qed

lemma civil_next: "civil_from_days (days + 1) = next_day (civil_from_days days)"
proof -
  let ?doe = "(days + 719468) mod 146097"
  define era where "era = (days + 719468) div 146097"
  obtain c k r d where parts: "0 \<le> c" "c < 4" "0 \<le> k" "k < 25" "0 \<le> r" "r < 4" "0 \<le> d"
      "d < 365 \<or> d = 365 \<and> leap_end c k r" and doe: "?doe = 36524 * c + 1461 * k + 365 * r + d"
    using march_year [of ?doe] by (metis Euclidean_Rings.pos_mod_bound Euclidean_Rings.pos_mod_sign zero_less_numeral)
  define y where "y = 400 * era + 100 * c + 4 * k + r"
  have "days + 719468 = 146097 * era + ?doe" unfolding era_def by simp
  then have days: "days + 719468 = 146097 * era + (36524 * c + 1461 * k + 365 * r + d)"
    unfolding doe .
  have today: "civil_from_days days = march_date y d"
    unfolding y_def by (rule civil_march [OF parts days])
  have leap_y: "leap (y + 1) = leap_end c k r"
    unfolding y_def by (rule leap_march [OF parts(1-6)])
  show ?thesis
  proof (cases "d < 364 \<or> d = 364 \<and> leap_end c k r")
    case True
    have later: "0 \<le> d + 1" "d + 1 < 365 \<or> d + 1 = 365 \<and> leap_end c k r"
      using True parts(7) by auto
    have "days + 1 + 719468 = 146097 * era + (36524 * c + 1461 * k + 365 * r + (d + 1))"
      using days by simp
    then have "civil_from_days (days + 1) = march_date y (d + 1)"
      unfolding y_def by (rule civil_march [OF parts(1-6) later])
    also have "\<dots> = next_day (march_date y d)"
      by (rule march_date_next [OF parts(7)]) (simp only: leap_y True)
    finally show ?thesis unfolding today .
  next
    case False
    then have end_of_year: "d = (if leap_end c k r then 365 else 364)" using parts(7,8) by auto
    have "civil_from_days (days + 1) = march_date (y + 1) 0"
      unfolding y_def by (rule civil_next_year [OF parts(1-6) end_of_year days])
    also have "\<dots> = next_day (march_date y d)"
      by (rule march_date_last) (simp add: leap_y end_of_year)
    finally show ?thesis unfolding today .
  qed
qed

text \<open>
  C40: The date of the \<open>n\<close>-th day after 1 January 1970 is the one reached from it by counting
  \<open>n\<close> days in the Gregorian calendar, for every \<open>n\<close>.
\<close>

theorem dates_are_gregorian: "civil_from_days (int n) = (next_day ^^ n) (1970, 1, 1)"
proof (induction n)
  case 0
  have "civil_from_days 0 = march_date (400 * 4 + 100 * 3 + 4 * 17 + 1) 306"
    by (rule civil_march [where era = 4]) simp_all
  then show ?case by (simp add: march_date_def)
next
  case (Suc n)
  have "civil_from_days (int (Suc n)) = civil_from_days (int n + 1)" by (simp add: add.commute)
  then show ?case using Suc civil_next by simp
qed

end
