(* ===== verification/Mock_Agent.thy ===== *)
theory Mock_Agent
  imports Calendar "HOL-Library.Option_ord"
begin

text \<open>
  \<open>crates/mjx-mock-agent/src/main.rs\<close>: the agent's state, its conversations and its
  requests in flight, one frame of its client at a time and one effect of one task at a
  time, so that turns and the frames that arrive meanwhile interleave as in the source.
\<close>

section \<open>State\<close>

record mock_session =
  mk_cwd :: string
  mk_title :: "string option"
  mk_updated_at :: string
  mk_transcript :: "json list"

type_synonym outcome = "json_rpc_error + json"

text \<open>A frame of the outbox, its values not yet printed.\<close>

datatype mock_frame =
    AskClient request_id string json
  | TellClient string json
  | AnswerClient request_id outcome

text \<open>
  Where a task stands; one that is \<open>Fresh\<close> has not been polled yet. The second field of \<open>WaitingOrCancelled\<close> and of \<open>Joining\<close> is the
  reply once it has come; \<open>Joining\<close> holds the notification until it has been sent.
\<close>

datatype mock_task_state =
    Fresh string json
  | Running "outcome act"
  | Waiting request_id "reply \<Rightarrow> outcome act"
  | WaitingOrCancelled string request_id "reply option" "reply option \<Rightarrow> outcome act"
  | Joining request_id bool "(string \<times> json) option" "outcome act"
  | Finished

record mock_task =
  mt_id :: request_id
  mt_state :: mock_task_state

text \<open>
  \<open>pending\<close> says which task waits for an id; \<open>cancelled\<close> which flag a session's last turn
  has, and \<open>flags\<close> are the flags there have been.
\<close>

record mock_agent =
  outbox :: "mock_frame list"
  next_request_id :: "64 word"
  mk_pending :: "(request_id, nat) hmap"
  cancelled :: "(string, nat) hmap"
  flags :: "bool list"
  mk_config :: "(string, (string, json) hmap) hmap"
  elicitation_form :: bool
  elicitation_url :: bool
  mcp_notifications :: "64 word"
  mk_sessions :: "(string, mock_session) hmap"
  id_counter :: "64 word"
  mk_tasks :: "mock_task list"

text \<open>What the process was given: its directory, its version, and what serde makes of JSON.\<close>

datatype offered_server =
    OfferedStdio string
  | OfferedHttp string
  | OfferedSse string
  | OfferedAcp string string
  | OfferedUnknown

record mock_env =
  current_dir :: "string option"
  crate_version :: string
  value_text :: "json \<Rightarrow> string"
  de_servers :: "json list \<Rightarrow> string + offered_server list"

text \<open>The clock a step reads: whole seconds and the nanoseconds of the present one.\<close>

record clock =
  unix_seconds :: "64 word"
  subsec_nanos :: "32 word"

section \<open>Sending and remembering\<close>

definition send_out :: "mock_frame \<Rightarrow> mock_agent \<Rightarrow> mock_agent" where
  "send_out f a = a\<lparr>outbox := outbox a @ [f]\<rparr>"

definition emit :: "string \<Rightarrow> json \<Rightarrow> mock_agent \<Rightarrow> mock_agent" where
  "emit sid u a =
     send_out (TellClient SESSION_UPDATE (JObject [(''sessionId'', JString sid), (''update'', u)])) a"

definition modify_session :: "string \<Rightarrow> (mock_session \<Rightarrow> mock_session) \<Rightarrow> mock_agent \<Rightarrow> mock_agent" where
  "modify_session sid f a =
     (case hm_get (mk_sessions a) sid of
        None \<Rightarrow> a
      | Some s \<Rightarrow> a\<lparr>mk_sessions := hm_insert sid (f s) (mk_sessions a)\<rparr>)"

definition record_update :: "clock \<Rightarrow> string \<Rightarrow> json \<Rightarrow> mock_agent \<Rightarrow> mock_agent" where
  "record_update c sid u =
     modify_session sid (\<lambda>s. s\<lparr>mk_transcript := mk_transcript s @ [u], mk_updated_at := iso8601 (unix_seconds c)\<rparr>)"

definition update_client :: "clock \<Rightarrow> string \<Rightarrow> json \<Rightarrow> mock_agent \<Rightarrow> mock_agent" where
  "update_client c sid u a = emit sid u (record_update c sid u a)"

section \<open>Requests to the client\<close>

definition ask_client :: "nat \<Rightarrow> string \<Rightarrow> json \<Rightarrow> mock_agent \<Rightarrow> request_id \<times> mock_agent" where
  "ask_client n m v a =
     (let i = IdNumber (next_request_id a)
      in (i, send_out (AskClient i m v)
               (a\<lparr>next_request_id := next_request_id a + 1, mk_pending := hm_insert i n (mk_pending a)\<rparr>)))"

definition set_task :: "nat \<Rightarrow> mock_task_state \<Rightarrow> mock_agent \<Rightarrow> mock_agent" where
  "set_task n st a =
     a\<lparr>mk_tasks := (mk_tasks a)[n := (mk_tasks a ! n)\<lparr>mt_state := st\<rparr>]\<rparr>"

text \<open>What a reply does to the task that waits for it; a channel takes one reply, and a task that
  gave up waits no longer.\<close>

fun deliver :: "request_id \<Rightarrow> reply \<Rightarrow> mock_task_state \<Rightarrow> mock_task_state" where
  "deliver i r (Waiting j k) = (if i = j then Running (k r) else Waiting j k)"
| "deliver i r (WaitingOrCancelled s j got k) =
     (if i = j \<and> got = None then WaitingOrCancelled s j (Some r) k else WaitingOrCancelled s j got k)"
| "deliver i r (Joining j got note p) = (if i = j then Joining j True note p else Joining j got note p)"
| "deliver i r st = st"

definition resolve_reply :: "request_id \<Rightarrow> reply \<Rightarrow> mock_agent \<Rightarrow> mock_agent" where
  "resolve_reply i r a =
     (case hm_take i (mk_pending a) of
        (None, _) \<Rightarrow> a
      | (Some n, rest) \<Rightarrow>
          let a1 = a\<lparr>mk_pending := rest\<rparr>
          in if n < length (mk_tasks a1) then set_task n (deliver i r (mt_state (mk_tasks a1 ! n))) a1 else a1)"

section \<open>Cancellation\<close>

definition is_cancelled :: "mock_agent \<Rightarrow> string \<Rightarrow> bool" where
  "is_cancelled a sid =
     (case hm_get (cancelled a) sid of None \<Rightarrow> False | Some n \<Rightarrow> n < length (flags a) \<and> flags a ! n)"

definition begin_turn :: "string \<Rightarrow> mock_agent \<Rightarrow> nat \<times> mock_agent" where
  "begin_turn sid a =
     (length (flags a),
      a\<lparr>cancelled := hm_insert sid (length (flags a)) (cancelled a), flags := flags a @ [False]\<rparr>)"

definition raise_flag :: "string \<Rightarrow> mock_agent \<Rightarrow> mock_agent" where
  "raise_flag sid a =
     (case hm_get (cancelled a) sid of None \<Rightarrow> a | Some n \<Rightarrow> a\<lparr>flags := (flags a)[n := True]\<rparr>)"

section \<open>Config options\<close>

definition default_config_values :: "(string, json) hmap" where
  "default_config_values =
     [(''model'', JString ''mock-sonnet''), (''thought_level'', JString ''balanced''),
      (''web_search'', JBool False)]"

definition offered_value :: "string \<Rightarrow> string \<Rightarrow> (string \<times> json) list \<Rightarrow> json" where
  "offered_value v name rest = JObject ([(''value'', JString v), (''name'', JString name)] @ rest)"

definition about :: "string \<Rightarrow> string \<times> json" where
  "about t = (''description'', JString t)"

definition config_options :: "(string, json) hmap \<Rightarrow> json" where
  "config_options values =
     (let current = \<lambda>i. (''currentValue'', case hm_get values i of None \<Rightarrow> JNull | Some v \<Rightarrow> v);
          option = \<lambda>i name rest. JObject ([(''id'', JString i), (''name'', JString name)] @ rest);
          group = \<lambda>g name opts. JObject [(''group'', JString g), (''name'', JString name), (''options'', JArray opts)]
      in JArray
        [option ''model'' ''Model''
           [about ''Which model answers.'', (''category'', JString ''model''), (''type'', JString ''select''),
            current ''model'',
            (''options'', JArray
              [group ''fast'' ''Fast''
                 [offered_value ''mock-haiku'' ''Mock Haiku'' [about ''Quick, and cheap to be wrong with.'']],
               group ''capable'' ''Capable''
                 [offered_value ''mock-sonnet'' ''Mock Sonnet'' [about ''The balanced default.''],
                  offered_value ''mock-opus'' ''Mock Opus'' [about ''Slower, and thinks harder about it.'']]])],
         option ''thought_level'' ''Thinking''
           [(''category'', JString ''thought_level''), (''type'', JString ''select''),
            current ''thought_level'',
            (''options'', JArray [offered_value ''off'' ''Off'' [], offered_value ''balanced'' ''Balanced'' [],
               offered_value ''deep'' ''Deep'' []])],
         option ''web_search'' ''Web search''
           [about ''Let the agent look things up.'', (''type'', JString ''boolean''), current ''web_search'']])"

definition options_of :: "mock_agent \<Rightarrow> string \<Rightarrow> json" where
  "options_of a sid =
     config_options (case hm_get (mk_config a) sid of None \<Rightarrow> default_config_values | Some vs \<Rightarrow> vs)"

definition set_config_option :: "string \<Rightarrow> string \<Rightarrow> json \<Rightarrow> mock_agent \<Rightarrow> json \<times> mock_agent" where
  "set_config_option sid i v a =
     (let old = (case hm_get (mk_config a) sid of None \<Rightarrow> default_config_values | Some vs \<Rightarrow> vs);
          new = (if hm_get old i = None then old else hm_insert i v old)
      in (config_options new, a\<lparr>mk_config := hm_insert sid new (mk_config a)\<rparr>))"

section \<open>One effect of a task\<close>

text \<open>The effect at the front of a running task; a task that returns answers its request.\<close>

fun perform :: "clock \<Rightarrow> nat \<Rightarrow> request_id \<Rightarrow> outcome act \<Rightarrow> mock_agent \<Rightarrow> mock_task_state \<times> mock_agent" where
  "perform c n i (Return r) a = (Finished, send_out (AnswerClient i r) a)"
| "perform c n i (Update s u p) a = (Running p, update_client c s u a)"
| "perform c n i (Emit s u p) a = (Running p, emit s u a)"
| "perform c n i (Ask m v k) a = (let (j, a1) = ask_client n m v a in (Waiting j k, a1))"
| "perform c n i (AskUntilCancelled s m v k) a =
     (let (j, a1) = ask_client n m v a in (WaitingOrCancelled s j None k, a1))"
| "perform c n i (AskAndNotify m v m' v' p) a =
     (let (j, a1) = ask_client n m v a in (Joining j False (Some (m', v')) p, a1))"
| "perform c n i (IsCancelled s k) a = (Running (k (is_cancelled a s)), a)"
| "perform c n i (CanElicitForm k) a = (Running (k (elicitation_form a)), a)"
| "perform c n i (CanElicitUrl k) a = (Running (k (elicitation_url a)), a)"
| "perform c n i (SetConfigOption s ci v k) a =
     (let (opts, a1) = set_config_option s ci v a in (Running (k opts), a1))"
| "perform c n i (ConfigOptions s k) a = (Running (k (options_of a s)), a)"
| "perform c n i (McpNotifications k) a = (Running (k (mcp_notifications a)), a)"
| "perform c n i (LowerFlag f p) a = (Running p, a\<lparr>flags := (flags a)[f := False]\<rparr>)"

section \<open>Conversations\<close>

definition open_session ::
  "clock \<Rightarrow> string \<Rightarrow> string \<Rightarrow> string option \<Rightarrow> json list \<Rightarrow> mock_agent \<Rightarrow> mock_agent" where
  "open_session c sid cwd title from a =
     a\<lparr>mk_sessions := hm_insert sid
         \<lparr>mk_cwd = cwd, mk_title = title, mk_updated_at = iso8601 (unix_seconds c), mk_transcript = from\<rparr>
         (mk_sessions a)\<rparr>"

definition matching :: "mock_session \<Rightarrow> json \<Rightarrow> json_rpc_error + unit" where
  "matching s params =
     (case as_str (json_index params ''cwd'') of
        None \<Rightarrow> Inr ()
      | Some cwd \<Rightarrow>
          if cwd \<noteq> mk_cwd s
          then Inl (resource_not_found (''that session belongs to '' @ mk_cwd s @ '', not '' @ cwd))
          else Inr ())"

definition session_info :: "string \<times> mock_session \<Rightarrow> json" where
  "session_info = (\<lambda>(i, s). JObject
     ([(''sessionId'', JString i), (''cwd'', JString (mk_cwd s)), (''updatedAt'', JString (mk_updated_at s))] @
      (case mk_title s of None \<Rightarrow> [] | Some t \<Rightarrow> [(''title'', JString t)])))"

text \<open>Newest first; a stable sort, so sessions of one second stay in the map's order.\<close>

definition list_sessions :: "string option \<Rightarrow> mock_agent \<Rightarrow> json list" where
  "list_sessions cwd a =
     rev (sort_key (\<lambda>v. as_str (json_index v ''updatedAt''))
       (rev (map session_info
         (filter (\<lambda>(i, s). case cwd of None \<Rightarrow> True | Some d \<Rightarrow> mk_cwd s = d) (mk_sessions a)))))"

definition session_id_of :: "json \<Rightarrow> json_rpc_error + string" where
  "session_id_of params =
     (case as_str (json_index params ''sessionId'') of
        None \<Rightarrow> Inl (invalid_params ''sessionId is required'') | Some s \<Rightarrow> Inr s)"

definition working_directory :: "mock_env \<Rightarrow> string" where
  "working_directory M = (case current_dir M of None \<Rightarrow> [] | Some d \<Rightarrow> d)"

definition cwd_of :: "mock_env \<Rightarrow> json \<Rightarrow> string" where
  "cwd_of M params =
     (case as_str (json_index params ''cwd'') of
        Some d \<Rightarrow> if d \<noteq> [] then d else working_directory M
      | None \<Rightarrow> working_directory M)"

fun hex :: "nat \<Rightarrow> string" where
  "hex n = (if n < 16 then [''0123456789abcdef'' ! n] else hex (n div 16) @ [''0123456789abcdef'' ! (n mod 16)])"

declare hex.simps [simp del]

definition short_id :: "clock \<Rightarrow> mock_agent \<Rightarrow> string \<times> mock_agent" where
  "short_id c a =
     (hex (unat (subsec_nanos c)) @ hex (unat (id_counter a)), a\<lparr>id_counter := id_counter a + 1\<rparr>)"

section \<open>The prompt in the history\<close>

definition block_text :: "json \<Rightarrow> string option" where
  "block_text b =
     (case as_str (json_index b ''text'') of
        Some t \<Rightarrow> Some t
      | None \<Rightarrow>
          (case as_str (json_index b ''type'') of
             None \<Rightarrow> None
           | Some kind \<Rightarrow>
               if kind = ''resource_link'' then
                 map_option (\<lambda>named. ''@'' @ named)
                   (or_else_str (as_str (json_index b ''name'')) (as_str (json_index b ''uri'')))
               else if kind = ''resource'' then
                 map_option (\<lambda>uri. ''@'' @ uri) (as_str (json_index (json_index b ''resource'') ''uri''))
               else None))"

definition guess_mime :: "string \<Rightarrow> string" where
  "guess_mime uri =
     (case rsplit_once (CHR ''.'') uri of
        None \<Rightarrow> ''text/plain''
      | Some (_, e) \<Rightarrow>
          if e \<in> set [''js'', ''mjs'', ''cjs''] then ''text/javascript''
          else if e \<in> set [''ts'', ''tsx''] then ''text/typescript''
          else if e = ''rs'' then ''text/rust''
          else if e = ''json'' then ''application/json''
          else if e = ''md'' then ''text/markdown''
          else ''text/plain'')"

fun json_set :: "string \<Rightarrow> json \<Rightarrow> json \<Rightarrow> json" where
  "json_set k v (JObject kvs) = JObject (obj_insert k v kvs)"
| "json_set k v j = j"

definition recorded_block :: "json \<Rightarrow> json" where
  "recorded_block b =
     (if as_str (json_index b ''type'') = Some ''resource_link''
      then json_set ''mimeType'' (JString (guess_mime (default_str [] (as_str (json_index b ''uri''))))) b
      else b)"

function trim_start :: "string \<Rightarrow> string" where
  "trim_start s =
     (case find (\<lambda>w. w \<noteq> [] \<and> starts_with s w) white_space of
        None \<Rightarrow> s | Some w \<Rightarrow> trim_start (drop (length w) s))"
  by auto

termination
proof (relation "measure length")
  fix s w assume "find (\<lambda>w. w \<noteq> [] \<and> starts_with s w) white_space = Some w"
  then have "w \<noteq> []" "starts_with s w" by (auto simp: find_Some_iff)
  then show "(drop (length w) s, s) \<in> measure length" by (cases s) (auto simp: starts_with_def)
qed simp

function trim_end :: "string \<Rightarrow> string" where
  "trim_end s =
     (case find (\<lambda>w. w \<noteq> [] \<and> ends_with s w) white_space of
        None \<Rightarrow> s | Some w \<Rightarrow> trim_end (take (length s - length w) s))"
  by auto

termination
proof (relation "measure length")
  fix s w assume "find (\<lambda>w. w \<noteq> [] \<and> ends_with s w) white_space = Some w"
  then have "w \<noteq> []" "ends_with s w" by (auto simp: find_Some_iff)
  then show "(take (length s - length w) s, s) \<in> measure length"
    by (cases s) (auto simp: ends_with_def starts_with_def)
qed simp

declare trim_start.simps [simp del] trim_end.simps [simp del]

text \<open>Where the characters of a text begin.\<close>

definition char_starts :: "string \<Rightarrow> nat list" where
  "char_starts s =
     filter (\<lambda>i. \<not> (128 \<le> (of_char (s ! i) :: nat) \<and> (of_char (s ! i) :: nat) < 192)) [0..<length s]"

definition summarise :: "string \<Rightarrow> string" where
  "summarise t =
     (let line = trim_end (trim_start (case text_lines t of [] \<Rightarrow> t | l # _ \<Rightarrow> l))
      in if 60 < length (char_starts line)
         then trim_end (take (char_starts line ! 60) line) @ map char_of [226, 128, 166::nat]
         else line)"

definition record_prompt :: "clock \<Rightarrow> string \<Rightarrow> json list \<Rightarrow> mock_agent \<Rightarrow> mock_agent" where
  "record_prompt c sid blocks a =
     foldl (\<lambda>a b. record_update c sid
         (JObject [(''sessionUpdate'', JString ''user_message_chunk''), (''content'', recorded_block b)]) a)
       a blocks"

definition title_and_record_prompt :: "clock \<Rightarrow> string \<Rightarrow> json \<Rightarrow> mock_agent \<Rightarrow> mock_agent" where
  "title_and_record_prompt c sid params a =
     (let blocks = (case as_array (json_index params ''prompt'') of None \<Rightarrow> [] | Some bs \<Rightarrow> bs);
          said = concat (List.map_filter block_text blocks)
      in if said = [] then a
         else modify_session sid
                (\<lambda>s. if mk_title s = None then s\<lparr>mk_title := Some (summarise said)\<rparr> else s)
                (record_prompt c sid blocks a))"

section \<open>The servers the agent is offered\<close>

fun describe_server :: "offered_server \<Rightarrow> (string \<times> json) list" where
  "describe_server (OfferedStdio n) = [(''name'', JString n), (''transport'', JString ''stdio'')]"
| "describe_server (OfferedHttp n) = [(''name'', JString n), (''transport'', JString ''http'')]"
| "describe_server (OfferedSse n) = [(''name'', JString n), (''transport'', JString ''sse'')]"
| "describe_server (OfferedAcp n i) =
     [(''name'', JString n), (''transport'', JString ''acp''), (''serverId'', JString i)]"
| "describe_server OfferedUnknown = [(''transport'', JString ''unknown'')]"

definition described_server :: "offered_server \<times> json \<Rightarrow> json" where
  "described_server = (\<lambda>(server, entry). JObject
     (describe_server server @
      (case as_object entry of
         None \<Rightarrow> []
       | Some kvs \<Rightarrow> [(''fields'', JArray (map JString (sort (map fst kvs))))])))"

definition mcp_servers_meta :: "mock_env \<Rightarrow> json \<Rightarrow> json_rpc_error + json" where
  "mcp_servers_meta M params =
     (let offered = json_index params ''mcpServers'';
          entries = (case offered of JNull \<Rightarrow> Some [] | JArray es \<Rightarrow> Some es | _ \<Rightarrow> None)
      in case entries of
           None \<Rightarrow> Inl (invalid_params (''`mcpServers` must be an array, not '' @ value_text M offered))
         | Some es \<Rightarrow>
             (case de_servers M es of
                Inl e \<Rightarrow> Inl (invalid_params (''`mcpServers` is not the schema'' @ [CHR 0x27] @ ''s shape: '' @ e))
              | Inr parsed \<Rightarrow>
                  if length parsed \<noteq> length es
                  then Inl (invalid_params (dec (length es - length parsed) @ '' of '' @ dec (length es) @
                         '' MCP servers were dropped while parsing''))
                  else Inr (JObject [(''mjx.mcpServers'', JArray (map described_server (zip parsed es)))])))"

section \<open>Using a hosted server\<close>

definition error_report :: "string \<Rightarrow> json" where
  "error_report e = JObject [(''error'', JString e)]"

definition or_json_null :: "json option \<Rightarrow> json" where
  "or_json_null v = (case v of None \<Rightarrow> JNull | Some j \<Rightarrow> j)"

definition connection_field :: "string \<Rightarrow> string \<times> json" where
  "connection_field conn = (''connectionId'', JString conn)"

primrec hosted_calls :: "string \<Rightarrow> json \<Rightarrow> (string \<times> string \<times> json) list \<Rightarrow> json option act" where
  "hosted_calls conn report [] =
     McpNotifications (\<lambda>n.
       Ask MCP_DISCONNECT (JObject [connection_field conn])
         (\<lambda>r. Return (Some (json_set ''disconnected'' (JBool (\<not> isl r))
                (json_set ''notifications'' (JNumber (dec_i64 n)) report)))))"
| "hosted_calls conn report (call # calls) =
     Ask MCP_MESSAGE
       (JObject [connection_field conn, (''method'', JString (fst (snd call))), (''params'', snd (snd call))])
       (\<lambda>r. case r of
          Inl e \<Rightarrow> Return (Some (json_set (fst call) (error_report (err_message e)) report))
        | Inr v \<Rightarrow> hosted_calls conn (json_set (fst call) (or_json_null v) report) calls)"

definition mcp_exchange :: "mock_env \<Rightarrow> (string \<times> string \<times> json) list" where
  "mcp_exchange M =
     [(''initialize'', ''initialize'', JObject
         [(''protocolVersion'', JString ''2025-06-18''), (''capabilities'', JObject []),
          (''clientInfo'', JObject [(''name'', JString ''mjx-mock-agent''),
             (''version'', JString (crate_version M))])]),
      (''tools'', ''tools/list'', JObject []),
      (''called'', ''tools/call'', JObject [(''name'', JString ''mock_stat''),
         (''arguments'', JObject [(''path'', JString ''.'')])])]"

definition hosted_id :: "json \<Rightarrow> string option" where
  "hosted_id meta =
     Option.bind (as_array (json_index meta ''mjx.mcpServers''))
       (\<lambda>servers. Option.bind (find (\<lambda>s. json_index s ''transport'' = JString ''acp'') servers)
         (\<lambda>s. as_str (json_index s ''serverId'')))"

definition use_hosted_mcp :: "mock_env \<Rightarrow> json \<Rightarrow> json option act" where
  "use_hosted_mcp M meta =
     (case hosted_id meta of
        None \<Rightarrow> Return None
      | Some i \<Rightarrow>
          Ask MCP_CONNECT (JObject [(''serverId'', JString i)])
            (\<lambda>r. case r of
               Inl e \<Rightarrow> Return (Some (error_report (err_message e)))
             | Inr v \<Rightarrow>
                 (case as_str (json_index (or_json_null v) ''connectionId'') of
                    None \<Rightarrow> Return (Some (error_report ''mcp/connect answered without a connectionId''))
                  | Some conn \<Rightarrow>
                      hosted_calls conn (JObject [(''serverId'', JString i), connection_field conn])
                        (mcp_exchange M))))"

section \<open>Answering a request\<close>

definition empty_object :: json where
  "empty_object = JObject []"

definition modes :: json where
  "modes =
     (let mode = \<lambda>i name t. JObject [(''id'', JString i), (''name'', JString name), about t]
      in JObject
        [(''currentModeId'', JString ''code''),
         (''availableModes'', JArray
           [mode ''ask'' ''Ask'' ''Answer questions, change nothing.'',
            mode ''code'' ''Code'' ''Read and edit files.''])])"

definition initialize_result :: "mock_env \<Rightarrow> json" where
  "initialize_result M = JObject
     [(''protocolVersion'', JNumber ''1''),
      (''agentInfo'', JObject [(''name'', JString ''mjx-mock-agent''), (''version'', JString (crate_version M))]),
      (''agentCapabilities'', JObject
        [(''loadSession'', JBool True),
         (''promptCapabilities'', JObject
           [(''image'', JBool False), (''audio'', JBool False), (''embeddedContext'', JBool True)]),
         (''sessionCapabilities'', JObject
           (map (\<lambda>k. (k, empty_object)) [''list'', ''delete'', ''fork'', ''resume'', ''close''])),
         (''mcpCapabilities'', JObject
           [(''http'', JBool True), (''sse'', JBool False), (''acp'', JBool True)])]),
      (''authMethods'', JArray [])]"

fun is_object :: "json \<Rightarrow> bool" where
  "is_object (JObject _) = True"
| "is_object _ = False"

type_synonym started = "outcome act \<times> mock_agent"

definition handle_initialize :: "mock_env \<Rightarrow> json \<Rightarrow> mock_agent \<Rightarrow> started" where
  "handle_initialize M params a =
     (let offered = json_index (json_index params ''clientCapabilities'') ''elicitation''
      in (Return (Inr (initialize_result M)),
          a\<lparr>elicitation_form := is_object (json_index offered ''form''),
            elicitation_url := is_object (json_index offered ''url'')\<rparr>))"

text \<open>What opening, loading, resuming and forking a session answer, with the servers last.\<close>

definition session_answer :: "(string \<times> json) list \<Rightarrow> json \<Rightarrow> json_rpc_error + json \<Rightarrow> outcome" where
  "session_answer front opts meta =
     (case meta of
        Inl e \<Rightarrow> Inl e
      | Inr m \<Rightarrow> Inr (JObject (front @ [(''modes'', modes), (''configOptions'', opts), (''_meta'', m)])))"

definition handle_new :: "mock_env \<Rightarrow> clock \<Rightarrow> json \<Rightarrow> mock_agent \<Rightarrow> started" where
  "handle_new M c params a =
     (let (short, a1) = short_id c a;
          sid = ''mock-'' @ short;
          a2 = open_session c sid (cwd_of M params) None []
                 (a1\<lparr>mk_config := hm_insert sid default_config_values (mk_config a1)\<rparr>)
      in (case mcp_servers_meta M params of
            Inl e \<Rightarrow> Return (Inl e)
          | Inr meta \<Rightarrow>
              bind_act (use_hosted_mcp M meta)
                (\<lambda>report. Return (session_answer [(''sessionId'', JString sid)]
                   (config_options default_config_values)
                   (Inr (case report of None \<Rightarrow> meta | Some r \<Rightarrow> json_set ''mjx.mcp'' r meta)))), a2))"

text \<open>The session a request names, where it exists and its directory matches.\<close>

definition session_for :: "json \<Rightarrow> mock_agent \<Rightarrow> json_rpc_error + string \<times> mock_session" where
  "session_for params a =
     (case session_id_of params of
        Inl e \<Rightarrow> Inl e
      | Inr sid \<Rightarrow>
          (case hm_get (mk_sessions a) sid of
             None \<Rightarrow> Inl (resource_not_found ''no such session'')
           | Some s \<Rightarrow> (case matching s params of Inl e \<Rightarrow> Inl e | Inr _ \<Rightarrow> Inr (sid, s))))"

primrec replay :: "string \<Rightarrow> json list \<Rightarrow> 'a act \<Rightarrow> 'a act" where
  "replay sid [] p = p"
| "replay sid (u # us) p = Emit sid u (replay sid us p)"

definition handle_load :: "mock_env \<Rightarrow> json \<Rightarrow> mock_agent \<Rightarrow> started" where
  "handle_load M params a =
     (case session_for params a of
        Inl e \<Rightarrow> (Return (Inl e), a)
      | Inr (sid, s) \<Rightarrow>
          (replay sid (mk_transcript s)
             (ConfigOptions sid (\<lambda>opts. Return (session_answer [] opts (mcp_servers_meta M params)))), a))"

definition handle_resume :: "mock_env \<Rightarrow> json \<Rightarrow> mock_agent \<Rightarrow> started" where
  "handle_resume M params a =
     (case session_for params a of
        Inl e \<Rightarrow> (Return (Inl e), a)
      | Inr (sid, s) \<Rightarrow>
          (ConfigOptions sid (\<lambda>opts. Return (session_answer [] opts (mcp_servers_meta M params))), a))"

definition fork_title :: "string \<Rightarrow> mock_session \<Rightarrow> string" where
  "fork_title sid s = ''Fork of '' @ (case mk_title s of None \<Rightarrow> sid | Some t \<Rightarrow> t)"

definition handle_fork :: "mock_env \<Rightarrow> clock \<Rightarrow> json \<Rightarrow> mock_agent \<Rightarrow> started" where
  "handle_fork M c params a =
     (case session_for params a of
        Inl e \<Rightarrow> (Return (Inl e), a)
      | Inr (sid, s) \<Rightarrow>
          let vs = (case hm_get (mk_config a) sid of None \<Rightarrow> default_config_values | Some vs \<Rightarrow> vs);
              (short, a1) = short_id c a;
              fork = ''mock-'' @ short;
              a2 = open_session c fork (mk_cwd s) (Some (fork_title sid s)) (mk_transcript s)
                     (a1\<lparr>mk_config := hm_insert fork vs (mk_config a1)\<rparr>)
          in (Return (session_answer [(''sessionId'', JString fork)] (config_options vs)
                (mcp_servers_meta M params)), a2))"

definition handle_delete :: "json \<Rightarrow> mock_agent \<Rightarrow> started" where
  "handle_delete params a =
     (case session_id_of params of
        Inl e \<Rightarrow> (Return (Inl e), a)
      | Inr sid \<Rightarrow>
          (Return (Inr empty_object),
           a\<lparr>mk_sessions := hm_remove sid (mk_sessions a), mk_config := hm_remove sid (mk_config a)\<rparr>))"

definition handle_close :: "json \<Rightarrow> outcome" where
  "handle_close params = (case session_id_of params of Inl e \<Rightarrow> Inl e | Inr _ \<Rightarrow> Inr empty_object)"

definition handle_prompt :: "mock_env \<Rightarrow> clock \<Rightarrow> json \<Rightarrow> mock_agent \<Rightarrow> started" where
  "handle_prompt M c params a =
     (case session_id_of params of
        Inl e \<Rightarrow> (Return (Inl e), a)
      | Inr sid \<Rightarrow>
          let (flag, a1) = begin_turn sid (title_and_record_prompt c sid params a)
          in (bind_act (run_turn (current_dir M) sid params)
                (\<lambda>stop. LowerFlag flag (Return (Inr (JObject [(''stopReason'', JString stop)])))), a1))"

definition handle_set_mode :: "clock \<Rightarrow> json \<Rightarrow> mock_agent \<Rightarrow> started" where
  "handle_set_mode c params a =
     (let mode = default_str ''code'' (as_str (json_index params ''modeId''))
      in (Return (Inr empty_object),
          case as_str (json_index params ''sessionId'') of
            None \<Rightarrow> a
          | Some sid \<Rightarrow> update_client c sid (JObject
              [(''sessionUpdate'', JString ''current_mode_update''), (''currentModeId'', JString mode)]) a))"

definition handle_set_config :: "json \<Rightarrow> mock_agent \<Rightarrow> started" where
  "handle_set_config params a =
     (case session_id_of params of
        Inl e \<Rightarrow> (Return (Inl e), a)
      | Inr sid \<Rightarrow>
          (case as_str (json_index params ''configId'') of
             None \<Rightarrow> (Return (Inl (invalid_params ''configId is required'')), a)
           | Some i \<Rightarrow>
               (SetConfigOption sid i (json_index params ''value'')
                  (\<lambda>opts. Return (Inr (JObject [(''configOptions'', opts)]))), a)))"

definition handle_mcp :: "json \<Rightarrow> outcome" where
  "handle_mcp params =
     (case as_str (json_index params ''method'') of
        None \<Rightarrow> Inl (invalid_params ''`method` is required'')
      | Some m \<Rightarrow>
          if m = ''roots/list'' then Inr (JObject [(''roots'', JArray [])]) else Inl (method_not_found m))"

definition handle_request :: "mock_env \<Rightarrow> clock \<Rightarrow> string \<Rightarrow> json \<Rightarrow> mock_agent \<Rightarrow> started" where
  "handle_request M c m params a =
     (if m = INITIALIZE then handle_initialize M params a
      else if m = SESSION_NEW then handle_new M c params a
      else if m = ''session/list'' then
        (Return (Inr (JObject [(''sessions'', JArray (list_sessions (as_str (json_index params ''cwd'')) a))])), a)
      else if m = SESSION_LOAD then handle_load M params a
      else if m = SESSION_RESUME then handle_resume M params a
      else if m = SESSION_FORK then handle_fork M c params a
      else if m = SESSION_DELETE then handle_delete params a
      else if m = SESSION_CLOSE then (Return (handle_close params), a)
      else if m = SESSION_PROMPT then handle_prompt M c params a
      else if m = ''session/set_mode'' then handle_set_mode c params a
      else if m = SESSION_SET_CONFIG_OPTION then handle_set_config params a
      else if m = ''authenticate'' then (Return (Inr empty_object), a)
      else if m = MCP_MESSAGE then (Return (handle_mcp params), a)
      else (Return (Inl (method_not_found m)), a))"

text \<open>
  The turn of one task. Where a reply has come and the session is cancelled as well, the
  \<open>select!\<close> takes either: \<open>first\<close> says which.
\<close>

definition task_turn :: "mock_env \<Rightarrow> clock \<Rightarrow> bool \<Rightarrow> nat \<Rightarrow> mock_agent \<Rightarrow> mock_agent" where
  "task_turn M c first n a =
     (if length (mk_tasks a) \<le> n then a
      else case mt_state (mk_tasks a ! n) of
             Fresh m params \<Rightarrow> (let (p, a1) = handle_request M c m params a in set_task n (Running p) a1)
           | Running p \<Rightarrow> (let (st, a1) = perform c n (mt_id (mk_tasks a ! n)) p a in set_task n st a1)
           | WaitingOrCancelled s j got k \<Rightarrow>
               (if is_cancelled a s \<and> (got = None \<or> first) then set_task n (Running (k None)) a
                else case got of None \<Rightarrow> a | Some r \<Rightarrow> set_task n (Running (k (Some r))) a)
           | Joining j got note p \<Rightarrow>
               (case note of
                  Some (m, v) \<Rightarrow> set_task n (Joining j got None p) (send_out (TellClient m v) a)
                | None \<Rightarrow> if got then set_task n (Running p) a else a)
           | _ \<Rightarrow> a)"

section \<open>The client's frames\<close>

text \<open>A frame with its parameters and its result read as JSON, where they can be.\<close>

datatype client_frame =
    ClientReply request_id reply
  | ClientNote string "json option"
  | ClientCall request_id string "json option"

definition read_json :: "('a) serde_scheme \<Rightarrow> raw \<Rightarrow> json option" where
  "read_json E r = (case de_value E r of Inl _ \<Rightarrow> None | Inr v \<Rightarrow> Some v)"

fun read_frame :: "('a) serde_scheme \<Rightarrow> frame \<Rightarrow> client_frame" where
  "read_frame E (Response i (Result r)) = ClientReply i (Inr (read_json E r))"
| "read_frame E (Response i (Error e)) = ClientReply i (Inl e)"
| "read_frame E (Notification m p) = ClientNote m (Option.bind p (read_json E))"
| "read_frame E (Request i m p) = ClientCall i m (Option.bind p (read_json E))"

fun dispatch :: "client_frame \<Rightarrow> mock_agent \<Rightarrow> mock_agent" where
  "dispatch (ClientReply i r) a = resolve_reply i r a"
| "dispatch (ClientNote m p) a =
     (if m = MCP_MESSAGE then a\<lparr>mcp_notifications := mcp_notifications a + 1\<rparr>
      else if m = ''session/cancel'' then
        (case Option.bind p (\<lambda>p. as_str (json_index p ''sessionId'')) of
           None \<Rightarrow> a | Some sid \<Rightarrow> raise_flag sid a)
      else a)"
| "dispatch (ClientCall i m p) a =
     a\<lparr>mk_tasks := mk_tasks a @ [\<lparr>mt_id = i, mt_state = Fresh m (or_json_null p)\<rparr>]\<rparr>"

text \<open>One line of standard input; what is blank or cannot be read is passed over.\<close>

definition read_line :: "('a) serde_scheme \<Rightarrow> string \<Rightarrow> mock_agent \<Rightarrow> mock_agent" where
  "read_line E line a =
     (if is_blank line then a
      else case parse E line of Inl _ \<Rightarrow> a | Inr f \<Rightarrow> dispatch (read_frame E f) a)"

datatype mock_event =
    FromClient client_frame
  | Turn clock bool nat

fun mock_step :: "mock_env \<Rightarrow> mock_agent \<Rightarrow> mock_event \<Rightarrow> mock_agent" where
  "mock_step M a (FromClient f) = dispatch f a"
| "mock_step M a (Turn c first n) = task_turn M c first n a"

abbreviation mock_run :: "mock_env \<Rightarrow> mock_agent \<Rightarrow> mock_event list \<Rightarrow> mock_agent" where
  "mock_run M \<equiv> foldl (mock_step M)"

section \<open>The start\<close>

definition new_agent :: mock_agent where
  "new_agent =
     \<lparr>outbox = [], next_request_id = 1, mk_pending = [], cancelled = [], flags = [], mk_config = [],
      elicitation_form = False, elicitation_url = False, mcp_notifications = 0, mk_sessions = [],
      id_counter = 0, mk_tasks = []\<rparr>"

definition OTHER_PROJECT :: string where
  "OTHER_PROJECT = ''/projects/another-checkout''"

definition seconds_before :: "clock \<Rightarrow> 64 word \<Rightarrow> 64 word" where
  "seconds_before c n = (if unix_seconds c < n then 0 else unix_seconds c - n)"

definition touched :: "64 word \<Rightarrow> string \<Rightarrow> mock_agent \<Rightarrow> mock_agent" where
  "touched t sid = modify_session sid (\<lambda>s. s\<lparr>mk_updated_at := iso8601 t\<rparr>)"

definition yesterday :: "json list" where
  "yesterday =
     [chunk ''user_message_chunk'' ''rename `avg` to `mean` in stats.js'',
      chunk ''agent_thought_chunk'' ''One definition and two call sites.'',
      tool_call ''yesterday-1'' ''Rename avg to mean'' ''edit'' ''completed''
        [(''content'', JArray [JObject
           [(''type'', JString ''diff''), (''path'', JString ''stats.js''),
            (''oldText'', JString (''export function avg(xs) {'' @ newline)),
            (''newText'', JString (''export function mean(xs) {'' @ newline))]])],
      chunk ''agent_message_chunk'' ''Renamed it, and both call sites with it.'']"

definition elsewhere :: "json list" where
  "elsewhere =
     [chunk ''user_message_chunk'' ''retry the fetch three times'',
      chunk ''agent_message_chunk''
        (''Done '' @ map char_of [226, 128, 148::nat] @ '' three attempts, backing off each time.'')]"

definition seed_conversations :: "mock_env \<Rightarrow> clock \<Rightarrow> mock_agent \<Rightarrow> mock_agent" where
  "seed_conversations M c a =
     (let a1 = a\<lparr>mk_config := hm_insert ''mock-yesterday''
                   [(''model'', JString ''mock-haiku''), (''thought_level'', JString ''balanced''),
                    (''web_search'', JBool False)] (mk_config a)\<rparr>;
          a2 = touched (seconds_before c (26 * 60 * 60)) ''mock-yesterday''
                 (open_session c ''mock-yesterday'' (working_directory M)
                    (Some ''Rename the helper in stats.js'') yesterday a1);
          a3 = a2\<lparr>mk_config := hm_insert ''mock-elsewhere'' default_config_values (mk_config a2)\<rparr>
      in touched (seconds_before c (3 * 24 * 60 * 60)) ''mock-elsewhere''
           (open_session c ''mock-elsewhere'' OTHER_PROJECT
              (Some ''Add retries to the fetch helper'') elsewhere a3))"

definition start_agent :: "mock_env \<Rightarrow> clock \<Rightarrow> mock_agent" where
  "start_agent M c = seed_conversations M c new_agent"

end
