(* ===== verification/Mock_Props.thy ===== *)
theory Mock_Props
  imports Mock_Agent
begin

text \<open>
  What holds of the mock agent however its turns and the frames of its client interleave.
\<close>

section \<open>No task runs forever\<close>

text \<open>The steps a task can take, whatever agent it runs in.\<close>

inductive progress :: "mock_task_state \<Rightarrow> mock_task_state \<Rightarrow> bool" where
  started: "progress (Fresh m v) (Running p)"
| performed: "progress (Running p) (fst (perform c n i p a))"
| replied: "deliver i r st \<noteq> st \<Longrightarrow> progress st (deliver i r st)"
| gave_up: "progress (WaitingOrCancelled s j got k) (Running (k None))"
| taken: "progress (WaitingOrCancelled s j (Some r) k) (Running (k (Some r)))"
| noted: "progress (Joining j got (Some nt) p) (Joining j got None p)"
| joined: "progress (Joining j True None p) (Running p)"

definition follows :: "(mock_task_state \<times> mock_task_state) set" where
  "follows = {(st', st). progress st st'}"

lemma accI: "(\<And>st'. progress st st' \<Longrightarrow> st' \<in> Wellfounded.acc follows) \<Longrightarrow> st \<in> Wellfounded.acc follows"
  by (rule acc.intros) (simp add: follows_def)

inductive_cases progress_Finished: "progress Finished st"
inductive_cases progress_Running: "progress (Running p) st"
inductive_cases progress_Waiting: "progress (Waiting j k) st"
inductive_cases progress_WaitingOr: "progress (WaitingOrCancelled s j got k) st"
inductive_cases progress_Joining: "progress (Joining j got nt p) st"
inductive_cases progress_Fresh: "progress (Fresh m v) st"

lemma acc_Finished: "Finished \<in> Wellfounded.acc follows"
  by (rule accI) (auto elim: progress_Finished)

lemma acc_Waiting:
  assumes "\<And>r. Running (k r) \<in> Wellfounded.acc follows"
  shows "Waiting j k \<in> Wellfounded.acc follows"
proof (rule accI)
  fix st assume "progress (Waiting j k) st"
  then show "st \<in> Wellfounded.acc follows"
    using assms by cases (auto split: if_splits)
qed

lemma acc_WaitingOr:
  assumes "\<And>r. Running (k r) \<in> Wellfounded.acc follows"
  shows "WaitingOrCancelled s j got k \<in> Wellfounded.acc follows"
proof -
  have some: "WaitingOrCancelled s j (Some r) k \<in> Wellfounded.acc follows" for r
  proof (rule accI)
    fix st assume "progress (WaitingOrCancelled s j (Some r) k) st"
    then show "st \<in> Wellfounded.acc follows" using assms by cases (auto split: if_splits)
  qed
  show ?thesis
  proof (cases got)
    case None
    show ?thesis
    proof (rule accI)
      fix st assume "progress (WaitingOrCancelled s j got k) st"
      then show "st \<in> Wellfounded.acc follows" using assms some None by cases (auto split: if_splits)
    qed
  qed (simp add: some)
qed

lemma acc_Joining:
  assumes "Running p \<in> Wellfounded.acc follows"
  shows "Joining j got nt p \<in> Wellfounded.acc follows"
proof -
  have d: "Joining j True None p \<in> Wellfounded.acc follows"
  proof (rule accI)
    fix st assume "progress (Joining j True None p) st"
    then show "st \<in> Wellfounded.acc follows" using assms by cases (auto split: if_splits)
  qed
  have n: "Joining j g None p \<in> Wellfounded.acc follows" for g
  proof (rule accI)
    fix st assume "progress (Joining j g None p) st"
    then show "st \<in> Wellfounded.acc follows" using assms d by cases (auto split: if_splits)
  qed
  have t: "Joining j True (Some x) p \<in> Wellfounded.acc follows" for x
  proof (rule accI)
    fix st assume "progress (Joining j True (Some x) p) st"
    then show "st \<in> Wellfounded.acc follows" using assms n by cases (auto split: if_splits)
  qed
  have f: "Joining j False (Some x) p \<in> Wellfounded.acc follows" for x
  proof (rule accI)
    fix st assume "progress (Joining j False (Some x) p) st"
    then show "st \<in> Wellfounded.acc follows" using n t by cases (auto split: if_splits)
  qed
  show ?thesis using n t f by (cases nt; cases got) auto
qed

lemma acc_RunningI:
  assumes "\<And>c n i a. fst (perform c n i p a) \<in> Wellfounded.acc follows"
  shows "Running p \<in> Wellfounded.acc follows"
proof (rule accI)
  fix st assume "progress (Running p) st"
  then show "st \<in> Wellfounded.acc follows" using assms by cases auto
qed

lemma acc_Running: "Running p \<in> Wellfounded.acc follows"
  by (induction p; rule acc_RunningI)
    (simp_all add: Let_def case_prod_beta acc_Finished acc_Waiting acc_WaitingOr acc_Joining)

lemma wf_follows: "wf follows"
proof (rule acc_wfI)
  show "\<forall>st. st \<in> Wellfounded.acc follows"
  proof
    fix st
    show "st \<in> Wellfounded.acc follows"
    proof (cases st)
      case (Fresh m v)
      show ?thesis unfolding Fresh by (rule accI) (auto elim!: progress_Fresh simp: acc_Running)
    qed (simp_all add: acc_Running acc_Waiting acc_WaitingOr acc_Joining acc_Finished)
  qed
qed

section \<open>Steps of the agent\<close>

definition state_of :: "mock_agent \<Rightarrow> nat \<Rightarrow> mock_task_state" where
  "state_of a n = mt_state (mk_tasks a ! n)"

text \<open>What \<open>perform\<close> and the handlers leave alone: the tasks.\<close>

lemma modify_session_tasks [simp]: "mk_tasks (modify_session sid f a) = mk_tasks a"
  by (simp add: modify_session_def split: option.split)

lemma update_tasks [simp]:
  "mk_tasks (send_out f a) = mk_tasks a" "mk_tasks (emit sid u a) = mk_tasks a"
  "mk_tasks (record_update c sid u a) = mk_tasks a" "mk_tasks (update_client c sid u a) = mk_tasks a"
  by (simp_all add: send_out_def emit_def record_update_def update_client_def)

lemma ask_client_tasks [simp]: "mk_tasks (snd (ask_client n m v a)) = mk_tasks a"
  by (simp add: ask_client_def Let_def)

lemma set_config_tasks [simp]: "mk_tasks (snd (set_config_option sid i v a)) = mk_tasks a"
  by (simp add: set_config_option_def Let_def)

lemma perform_tasks [simp]: "mk_tasks (snd (perform c n i p a)) = mk_tasks a"
  by (cases p) (simp_all add: Let_def case_prod_beta)

lemma record_prompt_tasks [simp]: "mk_tasks (record_prompt c sid bs a) = mk_tasks a"
  unfolding record_prompt_def by (induction bs arbitrary: a) simp_all

lemma title_and_record_tasks [simp]: "mk_tasks (title_and_record_prompt c sid v a) = mk_tasks a"
  by (simp add: title_and_record_prompt_def Let_def)

lemma open_session_tasks [simp]: "mk_tasks (open_session c sid d t ts a) = mk_tasks a"
  by (simp add: open_session_def)

lemmas handlers = handle_initialize_def handle_new_def handle_load_def handle_resume_def handle_fork_def
  handle_delete_def handle_prompt_def handle_set_mode_def handle_set_config_def begin_turn_def short_id_def

lemma handle_request_tasks [simp]: "mk_tasks (snd (handle_request M c m v a)) = mk_tasks a"
  unfolding handle_request_def
  by (simp add: handlers Let_def split: sum.split option.split prod.split)

lemma state_set_task:
  "n < length (mk_tasks a) \<Longrightarrow> state_of (set_task n st a) k = (if k = n then st else state_of a k)"
  by (auto simp: state_of_def set_task_def nth_list_update)

lemma length_set_task [simp]: "length (mk_tasks (set_task n st a)) = length (mk_tasks a)"
  by (simp add: set_task_def)












section \<open>A task that rests is waiting or done\<close>

lemma progress_irrefl: "\<not> progress st st"
  using wf_irrefl [OF wf_follows] by (auto simp: follows_def)

text \<open>Whether a task has put a question that has not been answered.\<close>

fun awaits :: "mock_task_state \<Rightarrow> request_id option" where
  "awaits (Waiting i k) = Some i"
| "awaits (WaitingOrCancelled s i got k) = (if got = None then Some i else None)"
| "awaits (Joining i got nt p) = (if got then None else Some i)"
| "awaits _ = None"

lemma turn_of_fresh:
  assumes "n < length (mk_tasks a)" and "state_of (task_turn M c first n a) n = state_of a n"
  shows "state_of a n = Finished \<or> awaits (state_of a n) \<noteq> None"
proof (cases "state_of a n")
  case (Fresh m v)
  then show ?thesis
    using assms by (auto simp: task_turn_def state_of_def [symmetric] case_prod_beta state_set_task)
next
  case (Running p)
  then have "state_of (task_turn M c first n a) n = fst (perform c n (mt_id (mk_tasks a ! n)) p a)"
    using assms(1) by (simp add: task_turn_def state_of_def [symmetric] case_prod_beta state_set_task)
  then show ?thesis
    using assms(2) Running performed [of p c n "mt_id (mk_tasks a ! n)" a] progress_irrefl by auto
next
  case (WaitingOrCancelled s i got k)
  then show ?thesis
    using assms by (auto simp: task_turn_def state_of_def [symmetric] state_set_task
        split: option.splits if_splits)
next
  case (Joining i got nt p)
  then show ?thesis
    using assms by (cases nt) (auto simp: task_turn_def state_of_def [symmetric] state_set_task
        split: option.splits if_splits)
qed auto

text \<open>
  A task that is given its turn and does not move has ended or has a question with the
  client that is not answered: nothing in the agent itself can hold a turn up.
\<close>

theorem only_the_client_is_waited_for:
  assumes "n < length (mk_tasks a)" and "state_of (task_turn M c first n a) n = state_of a n"
  shows "state_of a n = Finished \<or> awaits (state_of a n) \<noteq> None"
  using assms by (rule turn_of_fresh)

end
