(* ===== verification/Mock_Replies.thy ===== *)
theory Mock_Replies
  imports Mock_Props "HOL-Library.Multiset"
begin

text \<open>
  The mock agent and its client's replies: a reply reaches the task that asked, and each
  request of the client is answered once.
\<close>

section \<open>A reply reaches the task that asked\<close>

definition waits_ok :: "mock_agent \<Rightarrow> bool" where
  "waits_ok a \<longleftrightarrow>
     (\<forall>n i. n < length (mk_tasks a) \<longrightarrow> awaits (state_of a n) = Some i \<longrightarrow> hm_get (mk_pending a) i = Some n) \<and>
     (\<forall>i n. hm_get (mk_pending a) i = Some n \<longrightarrow> n < length (mk_tasks a) \<and>
        (\<exists>w. i = IdNumber w \<and> unat w < unat (next_request_id a)))"

lemma deliver_awaits: "awaits (deliver i r st) = (if awaits st = Some i then None else awaits st)"
  by (cases st) auto

lemma set_task_pending [simp]:
  "mk_pending (set_task n st a) = mk_pending a" "next_request_id (set_task n st a) = next_request_id a"
  by (simp_all add: set_task_def)

lemma waits_resolve: 
  assumes "waits_ok a" shows "waits_ok (resolve_reply i r a)"
proof (cases "hm_get (mk_pending a) i")
  case None
  then show ?thesis using assms by (simp add: resolve_reply_def hm_take_def)
next
  case (Some n)
  with assms have n: "n < length (mk_tasks a)" unfolding waits_ok_def by blast
  define a1 where "a1 = a\<lparr>mk_pending := hm_remove i (mk_pending a)\<rparr>"
  have n1: "n < length (mk_tasks a1)" using n by (simp add: a1_def)
  have "hm_take i (mk_pending a) = (Some n, hm_remove i (mk_pending a))"
    using Some by (simp add: hm_take_def)
  then have "resolve_reply i r a = set_task n (deliver i r (mt_state (mk_tasks a1 ! n))) a1"
    unfolding resolve_reply_def Let_def a1_def using n by simp
  then have e: "resolve_reply i r a = set_task n (deliver i r (state_of a n)) a1"
    by (simp add: a1_def state_of_def)
  have states: "state_of (resolve_reply i r a) k = (if k = n then deliver i r (state_of a n) else state_of a k)" for k
    unfolding e state_set_task [OF n1] by (simp add: a1_def state_of_def)
  have parts: "mk_pending (resolve_reply i r a) = hm_remove i (mk_pending a)"
      "length (mk_tasks (resolve_reply i r a)) = length (mk_tasks a)"
      "next_request_id (resolve_reply i r a) = next_request_id a"
    unfolding e by (simp_all add: a1_def)
  show ?thesis
    unfolding waits_ok_def states parts
  proof (intro conjI allI impI)
    fix k j assume k: "k < length (mk_tasks a)"
      and "awaits (if k = n then deliver i r (state_of a n) else state_of a k) = Some j"
    then have "awaits (state_of a k) = Some j" "k = n \<longrightarrow> j \<noteq> i"
      by (auto simp: deliver_awaits split: if_splits)
    with assms k have "hm_get (mk_pending a) j = Some k" unfolding waits_ok_def by blast
    with Some \<open>k = n \<longrightarrow> j \<noteq> i\<close> show "hm_get (hm_remove i (mk_pending a)) j = Some k" by auto
  next
    fix j k assume "hm_get (hm_remove i (mk_pending a)) j = Some k"
    then have "hm_get (mk_pending a) j = Some k" by (auto split: if_splits)
    with assms show "k < length (mk_tasks a)" "\<exists>w. j = IdNumber w \<and> unat w < unat (next_request_id a)"
      unfolding waits_ok_def by blast+
  qed
qed

text \<open>What only the questions touch.\<close>

abbreviation asked_so_far :: "mock_agent \<Rightarrow> (request_id, nat) hmap \<times> 64 word" where
  "asked_so_far a \<equiv> (mk_pending a, next_request_id a)"

lemma send_out_asked [simp]:
  "mk_pending (send_out f a) = mk_pending a" "next_request_id (send_out f a) = next_request_id a"
  by (simp_all add: send_out_def)

lemma modify_session_asked [simp]:
  "mk_pending (modify_session sid f a) = mk_pending a"
  "next_request_id (modify_session sid f a) = next_request_id a"
  by (simp_all add: modify_session_def split: option.split)

lemma update_asked [simp]:
  "mk_pending (emit sid u a) = mk_pending a" "next_request_id (emit sid u a) = next_request_id a"
  "mk_pending (record_update c sid u a) = mk_pending a"
  "next_request_id (record_update c sid u a) = next_request_id a"
  "mk_pending (update_client c sid u a) = mk_pending a"
  "next_request_id (update_client c sid u a) = next_request_id a"
  by (simp_all add: emit_def record_update_def update_client_def)

lemma record_prompt_asked [simp]:
  "mk_pending (record_prompt c sid bs a) = mk_pending a"
  "next_request_id (record_prompt c sid bs a) = next_request_id a"
  unfolding record_prompt_def by (induction bs arbitrary: a) simp_all

lemma title_and_record_asked [simp]:
  "mk_pending (title_and_record_prompt c sid v a) = mk_pending a"
  "next_request_id (title_and_record_prompt c sid v a) = next_request_id a"
  by (simp_all add: title_and_record_prompt_def Let_def)

lemma handle_request_asked [simp]:
  "mk_pending (snd (handle_request M c m v a)) = mk_pending a"
  "next_request_id (snd (handle_request M c m v a)) = next_request_id a"
  unfolding handle_request_def
  by (simp_all add: handlers Let_def open_session_def split: sum.split option.split prod.split)

fun asking :: "'a act \<Rightarrow> bool" where
  "asking (Ask _ _ _) = True"
| "asking (AskUntilCancelled _ _ _ _) = True"
| "asking (AskAndNotify _ _ _ _ _) = True"
| "asking _ = False"

lemma perform_quiet:
  assumes "\<not> asking p"
  shows "asked_so_far (snd (perform c n i p a)) = asked_so_far a \<and> awaits (fst (perform c n i p a)) = None"
  using assms by (cases p) (simp_all add: set_config_option_def Let_def)

lemma perform_asking:
  assumes "asking p"
  shows "awaits (fst (perform c n i p a)) = Some (IdNumber (next_request_id a)) \<and>
    asked_so_far (snd (perform c n i p a)) =
      (hm_insert (IdNumber (next_request_id a)) n (mk_pending a), next_request_id a + 1)"
  using assms by (cases p) (simp_all add: ask_client_def Let_def send_out_def)

lemma waits_quiet:
  assumes "waits_ok a" and "asked_so_far a' = asked_so_far a" and "length (mk_tasks a) \<le> length (mk_tasks a')"
    and "\<And>k i. k < length (mk_tasks a') \<Longrightarrow> awaits (state_of a' k) = Some i \<Longrightarrow>
           k < length (mk_tasks a) \<and> awaits (state_of a k) = Some i"
  shows "waits_ok a'"
  using assms(1) unfolding waits_ok_def
  by (metis assms(2-4) less_le_trans prod.inject)

lemma waits_ask:
  assumes "waits_ok a" and "n < length (mk_tasks a)" and "unat (next_request_id a) + 1 < 2 ^ 64"
    and st: "awaits st = Some (IdNumber (next_request_id a))"
    and a1: "mk_tasks a1 = mk_tasks a"
      "asked_so_far a1 = (hm_insert (IdNumber (next_request_id a)) n (mk_pending a), next_request_id a + 1)"
  shows "waits_ok (set_task n st a1)"
proof -
  let ?i = "IdNumber (next_request_id a)"
  have later: "unat (next_request_id a + 1) = unat (next_request_id a) + 1"
    using assms(3) by (simp add: unat_word_ariths)
  have new: "hm_get (mk_pending a) ?i = None"
  proof (rule ccontr)
    assume "hm_get (mk_pending a) ?i \<noteq> None"
    then obtain k where "hm_get (mk_pending a) ?i = Some k" by blast
    with assms(1) show False unfolding waits_ok_def by blast
  qed
  have states: "state_of (set_task n st a1) k = (if k = n then st else state_of a k)" for k
    using assms(2) a1(1) state_set_task [of n a1 st k] by (simp add: state_of_def)
  show ?thesis
    unfolding waits_ok_def states length_set_task set_task_pending a1(1)
  proof (intro conjI allI impI)
    fix k j assume k: "k < length (mk_tasks a)" and "awaits (if k = n then st else state_of a k) = Some j"
    then have "k = n \<and> j = ?i \<or> k \<noteq> n \<and> awaits (state_of a k) = Some j"
      using st by (auto split: if_splits)
    then show "hm_get (mk_pending a1) j = Some k"
    proof
      assume "k \<noteq> n \<and> awaits (state_of a k) = Some j"
      then have "hm_get (mk_pending a) j = Some k" using assms(1) k unfolding waits_ok_def by blast
      then show ?thesis using new a1(2) by auto
    qed (use a1(2) in auto)
  next
    fix j k assume "hm_get (mk_pending a1) j = Some k"
    then have "j = ?i \<and> k = n \<or> hm_get (mk_pending a) j = Some k"
      using a1(2) by (auto split: if_splits)
    then show "k < length (mk_tasks a)" "\<exists>w. j = IdNumber w \<and> unat w < unat (next_request_id a1)"
    proof (atomize (full), elim disjE conjE)
      assume "j = ?i" "k = n"
      then show "k < length (mk_tasks a) \<and> (\<exists>w. j = IdNumber w \<and> unat w < unat (next_request_id a1))"
        using assms(2) a1(2) later by auto
    next
      assume "hm_get (mk_pending a) j = Some k"
      then obtain w where "k < length (mk_tasks a)" "j = IdNumber w" "unat w < unat (next_request_id a)"
        using assms(1) unfolding waits_ok_def by blast
      then show "k < length (mk_tasks a) \<and> (\<exists>w. j = IdNumber w \<and> unat w < unat (next_request_id a1))"
        using a1(2) later by auto
    qed
  qed
qed

lemma waits_set:
  assumes "waits_ok a" and n: "n < length (mk_tasks a)"
    and a1: "mk_tasks a1 = mk_tasks a" "asked_so_far a1 = asked_so_far a"
    and st: "awaits st = None \<or> awaits st = awaits (state_of a n)"
  shows "waits_ok (set_task n st a1)"
proof (rule waits_quiet [OF assms(1)])
  have states: "state_of (set_task n st a1) k = (if k = n then st else state_of a k)" for k
    using n a1(1) state_set_task [of n a1 st k] by (simp add: state_of_def)
  show "k < length (mk_tasks a) \<and> awaits (state_of a k) = Some i"
    if "k < length (mk_tasks (set_task n st a1))" "awaits (state_of (set_task n st a1) k) = Some i" for k i
    using that st a1(1) by (auto simp: states split: if_splits)
qed (use a1 in simp_all)

lemma waits_turn:
  assumes ok: "waits_ok a" and room: "unat (next_request_id a) + 1 < 2 ^ 64"
  shows "waits_ok (task_turn M c first n a)"
proof (cases "n < length (mk_tasks a)")
  case False
  then show ?thesis using ok by (simp add: task_turn_def)
next
  case True
  have kept: "waits_ok (set_task n st a)" if "awaits st = None \<or> awaits st = awaits (state_of a n)" for st
    using waits_set [OF ok True refl refl that] .
  show ?thesis
  proof (cases "state_of a n")
    case (Fresh m v)
    have "waits_ok (set_task n (Running p) (snd (handle_request M c m v a)))" for p
      by (rule waits_set [OF ok True]) simp_all
    then show ?thesis using True Fresh by (simp add: task_turn_def state_of_def [symmetric] case_prod_beta)
  next
    case (Running p)
    let ?r = "perform c n (mt_id (mk_tasks a ! n)) p a"
    have "waits_ok (set_task n (fst ?r) (snd ?r))"
    proof (cases "asking p")
      case True
      show ?thesis
        by (rule waits_ask [OF ok \<open>n < _\<close> room]) (use perform_asking [OF True] in simp_all)
    next
      case False
      show ?thesis
        by (rule waits_set [OF ok \<open>n < _\<close>]) (use perform_quiet [OF False] in simp_all)
    qed
    then show ?thesis using True Running by (simp add: task_turn_def state_of_def [symmetric] case_prod_beta)
  next
    case (WaitingOrCancelled s j got k)
    then show ?thesis
      using True ok by (auto simp: task_turn_def state_of_def [symmetric] split: option.split intro!: kept)
  next
    case (Joining j got nt p)
    have "waits_ok (set_task n (Joining j got None p) (send_out f a))" for f
      by (rule waits_set [OF ok True]) (simp_all add: Joining)
    then show ?thesis
      using True ok Joining
      by (auto simp: task_turn_def state_of_def [symmetric] split: option.split prod.split intro!: kept)
  qed (use True ok in \<open>simp_all add: task_turn_def state_of_def [symmetric]\<close>)
qed

lemma next_id_turn: "next_request_id (task_turn M c first n a) \<in> {next_request_id a, next_request_id a + 1}"
proof -
  have "next_request_id (snd (perform c n i p a)) \<in> {next_request_id a, next_request_id a + 1}" for i p
    using perform_quiet [of p c n i a] perform_asking [of p c n i a] by (cases "asking p") auto
  then show ?thesis
    by (auto simp: task_turn_def case_prod_beta split: mock_task_state.split option.split)
qed

lemma waits_dispatch:
  assumes "waits_ok a" shows "waits_ok (dispatch f a) \<and> next_request_id (dispatch f a) = next_request_id a"
proof (cases f)
  case (ClientReply i r)
  then show ?thesis
    using waits_resolve [OF assms]
    by (auto simp: resolve_reply_def Let_def split: option.split prod.split)
next
  case (ClientNote m v)
  have "waits_ok (raise_flag sid a)" for sid
    by (cases "hm_get (cancelled a) sid"; rule waits_quiet [OF assms])
      (simp_all add: raise_flag_def state_of_def)
  moreover have "waits_ok (a\<lparr>mcp_notifications := w\<rparr>)" for w
    by (rule waits_quiet [OF assms]) (auto simp: state_of_def)
  ultimately show ?thesis
    using ClientNote assms by (auto simp: raise_flag_def split: option.split)
next
  case (ClientCall i m v)
  show ?thesis
    unfolding ClientCall
    by (auto intro!: waits_quiet [OF assms]) (auto simp: state_of_def nth_append less_Suc_eq split: if_splits)
qed

lemma waits_step:
  assumes "waits_ok a" and "unat (next_request_id a) + 1 < 2 ^ 64"
  shows "waits_ok (mock_step M a e) \<and> unat (next_request_id (mock_step M a e)) \<le> unat (next_request_id a) + 1"
proof (cases e)
  case (FromClient f)
  then show ?thesis using waits_dispatch [OF assms(1)] by simp
next
  case (Turn c first n)
  have "unat (next_request_id a + 1) = unat (next_request_id a) + 1"
    using assms(2) by (simp add: unat_word_ariths)
  then show ?thesis
    using Turn waits_turn [OF assms] next_id_turn [of M c first n a] by auto
qed

lemma waits_run:
  "waits_ok a \<Longrightarrow> unat (next_request_id a) + length es < 2 ^ 64 \<Longrightarrow> waits_ok (mock_run M a es)"
proof (induction es arbitrary: a)
  case (Cons e es)
  then show ?case using waits_step [of a M e] by simp
qed simp

lemma start_agent_fields [simp]:
  "mk_tasks (start_agent M c) = []" "mk_pending (start_agent M c) = []"
  "next_request_id (start_agent M c) = 1" "outbox (start_agent M c) = []"
  by (simp_all add: start_agent_def seed_conversations_def touched_def modify_session_def open_session_def
      new_agent_def Let_def split: option.split)

lemma waits_start: "waits_ok (start_agent M c)"
  by (simp add: waits_ok_def)

lemma reply_lands:
  assumes "waits_ok a" and n: "n < length (mk_tasks a)" and "awaits (state_of a n) = Some i"
  shows "state_of (dispatch (ClientReply i r) a) k = (if k = n then deliver i r (state_of a n) else state_of a k) \<and>
    dispatch (ClientReply i r') (dispatch (ClientReply i r) a) = dispatch (ClientReply i r) a"
proof -
  have "hm_get (mk_pending a) i = Some n" using assms unfolding waits_ok_def by blast
  then have e: "dispatch (ClientReply i r) a =
      set_task n (deliver i r (state_of a n)) (a\<lparr>mk_pending := hm_remove i (mk_pending a)\<rparr>)"
    using n by (simp add: resolve_reply_def hm_take_def state_of_def)
  have "hm_get (mk_pending (dispatch (ClientReply i r) a)) i = None"
    unfolding e by simp
  then have "dispatch (ClientReply i r') (dispatch (ClientReply i r) a) = dispatch (ClientReply i r) a"
    by (simp add: resolve_reply_def [of i r'] hm_take_def)
  moreover have "state_of (dispatch (ClientReply i r) a) k = (if k = n then deliver i r (state_of a n) else state_of a k)"
    unfolding e using n by (subst state_set_task) (simp_all add: state_of_def)
  ultimately show ?thesis by blast
qed

text \<open>
  C36: In every state the agent reaches before its 64-bit counter wraps round, a reply goes to
  the task that put the question, to no other, and only once: the same id a second time
  changes nothing.
\<close>

theorem replies_reach_the_task_that_asked:
  assumes "Suc (length es) < 2 ^ 64" and "n < length (mk_tasks (mock_run M (start_agent M c) es))"
    and "awaits (state_of (mock_run M (start_agent M c) es) n) = Some i"
  shows "state_of (dispatch (ClientReply i r) (mock_run M (start_agent M c) es)) k =
      (if k = n then deliver i r (state_of (mock_run M (start_agent M c) es) n)
       else state_of (mock_run M (start_agent M c) es) k) \<and>
    dispatch (ClientReply i r') (dispatch (ClientReply i r) (mock_run M (start_agent M c) es)) =
      dispatch (ClientReply i r) (mock_run M (start_agent M c) es)"
  by (rule reply_lands [OF waits_run [OF waits_start] assms(2,3)]) (use assms(1) in simp)

section \<open>Each request is answered once\<close>

definition called :: "mock_event list \<Rightarrow> request_id list" where
  "called = List.map_filter (\<lambda>e. case e of FromClient (ClientCall i m p) \<Rightarrow> Some i | _ \<Rightarrow> None)"

definition answered :: "mock_agent \<Rightarrow> request_id list" where
  "answered a = List.map_filter (\<lambda>f. case f of AnswerClient i r \<Rightarrow> Some i | _ \<Rightarrow> None) (outbox a)"

definition running_requests :: "mock_agent \<Rightarrow> request_id list" where
  "running_requests a = map mt_id (filter (\<lambda>t. mt_state t \<noteq> Finished) (mk_tasks a))"

lemma answered_send [simp]:
  "answered (send_out f a) = answered a @ (case f of AnswerClient i r \<Rightarrow> [i] | _ \<Rightarrow> [])"
  by (simp add: answered_def send_out_def List.map_filter_def split: mock_frame.split)

lemma answered_fields:
  "outbox b = outbox a \<Longrightarrow> answered b = answered a"
  by (simp add: answered_def)

lemma modify_session_outbox [simp]: "outbox (modify_session sid f a) = outbox a"
  by (simp add: modify_session_def split: option.split)

lemma record_outbox [simp]: "outbox (record_update c sid u a) = outbox a"
  by (simp add: record_update_def)

lemma answered_update [simp]:
  "answered (update_client c sid u a) = answered a" "answered (emit sid u a) = answered a"
  by (simp_all add: update_client_def emit_def) (simp add: answered_def)

lemma record_prompt_outbox [simp]: "outbox (record_prompt c sid bs a) = outbox a"
  unfolding record_prompt_def by (induction bs arbitrary: a) simp_all

lemma title_and_record_outbox [simp]: "outbox (title_and_record_prompt c sid v a) = outbox a"
  by (simp add: title_and_record_prompt_def Let_def)

lemma handle_set_mode_answered: "answered (snd (handle_set_mode c v a)) = answered a"
  by (simp add: handle_set_mode_def Let_def split: option.split)

lemma handle_request_answered [simp]: "answered (snd (handle_request M c m v a)) = answered a"
proof (cases "m = ''session/set_mode''")
  case True
  then show ?thesis
    by (simp add: handle_request_def handle_set_mode_answered)
next
  case False
  then show ?thesis
    unfolding handle_request_def
    by (intro answered_fields)
      (simp add: handlers Let_def open_session_def split: sum.split option.split prod.split)
qed

lemma ask_client_answered [simp]: "answered (snd (ask_client n m v a)) = answered a"
  by (simp add: ask_client_def Let_def) (simp add: answered_def)

lemma set_config_answered [simp]: "answered (snd (set_config_option sid i v a)) = answered a"
  by (simp add: set_config_option_def Let_def answered_def)

lemma lower_flag_answered [simp]: "answered (a\<lparr>flags := fs\<rparr>) = answered a"
  by (simp add: answered_def)

lemma perform_answered:
  "answered (snd (perform c n i p a)) = answered a @ (if fst (perform c n i p a) = Finished then [i] else [])"
  by (cases p) (simp_all add: Let_def case_prod_beta)

lemma filter_update:
  "n < length xs \<Longrightarrow>
     mset (map f (filter P (xs[n := y]))) + (if P (xs ! n) then {#f (xs ! n)#} else {#}) =
     mset (map f (filter P xs)) + (if P y then {#f y#} else {#})"
proof (induction xs arbitrary: n)
  case (Cons x xs)
  show ?case
  proof (cases n)
    case (Suc k)
    then show ?thesis using Cons.IH [of k] Cons.prems by (auto split: if_splits)
  qed simp
qed simp

lemma same_state: "mt_state t = st \<Longrightarrow> t\<lparr>mt_state := st\<rparr> = t"
  by (cases t) simp

lemma set_task_running:
  assumes "n < length (mk_tasks a)"
  shows "mset (running_requests (set_task n st a)) + (if state_of a n \<noteq> Finished then {#mt_id (mk_tasks a ! n)#} else {#}) =
    mset (running_requests a) + (if st \<noteq> Finished then {#mt_id (mk_tasks a ! n)#} else {#})"
  using filter_update [OF assms, of mt_id "\<lambda>t. mt_state t \<noteq> Finished" "(mk_tasks a ! n)\<lparr>mt_state := st\<rparr>"]
  by (simp add: running_requests_def set_task_def state_of_def)

lemma set_task_answered [simp]: "answered (set_task n st a) = answered a"
  by (simp add: answered_def set_task_def)

text \<open>What a request's number of answers and its running tasks come to.\<close>

definition tally :: "mock_agent \<Rightarrow> request_id multiset" where
  "tally a = mset (answered a) + mset (running_requests a)"

lemma running_tasks: "mk_tasks b = mk_tasks a \<Longrightarrow> running_requests b = running_requests a"
  by (simp add: running_requests_def)

lemma tally_set:
  assumes "n < length (mk_tasks a)" and "mk_tasks a1 = mk_tasks a" and "state_of a n \<noteq> Finished"
    and "answered a1 = answered a @ (if st = Finished then [mt_id (mk_tasks a ! n)] else [])"
  shows "tally (set_task n st a1) = tally a"
  using set_task_running [of n a1 st] assms running_tasks [OF assms(2)]
  by (auto simp: state_of_def tally_def split: if_splits)

lemma tally_deliver: "tally (resolve_reply i r a) = tally a"
proof (cases "hm_take i (mk_pending a)")
  case (Pair who rest)
  have same: "tally (a\<lparr>mk_pending := rest\<rparr>) = tally a"
    by (simp add: tally_def answered_def running_requests_def)
  have "tally (set_task n (deliver i r (mt_state (mk_tasks a ! n))) (a\<lparr>mk_pending := rest\<rparr>)) = tally a"
    if "n < length (mk_tasks a)" for n
  proof (cases "mt_state (mk_tasks a ! n) = Finished")
    case True
    have "mk_tasks (set_task n Finished (a\<lparr>mk_pending := rest\<rparr>)) = mk_tasks a"
      using same_state [OF True] by (simp add: set_task_def)
    then have "running_requests (set_task n Finished (a\<lparr>mk_pending := rest\<rparr>)) = running_requests a"
      by (rule running_tasks)
    then show ?thesis using True by (simp add: tally_def answered_def set_task_def)
  next
    case False
    have "deliver i r st = Finished \<longleftrightarrow> st = Finished" for st by (cases st) auto
    then show ?thesis using False that
      by (intro tally_set) (simp_all add: state_of_def, simp add: answered_def)
  qed
  then show ?thesis using Pair same by (cases who) (simp_all add: resolve_reply_def Let_def)
qed

lemma tally_turn: "tally (task_turn M c first n a) = tally a"
proof (cases "n < length (mk_tasks a)")
  case False
  then show ?thesis by (simp add: task_turn_def)
next
  case True
  note set = tally_set [OF True]
  show ?thesis
  proof (cases "state_of a n")
    case (Fresh m v)
    then show ?thesis
      using True by (simp add: task_turn_def state_of_def [symmetric] case_prod_beta set)
  next
    case (Running p)
    then show ?thesis
      using True by (simp add: task_turn_def state_of_def [symmetric] case_prod_beta set perform_answered)
  next
    case (WaitingOrCancelled s j got k)
    then show ?thesis
      using True by (simp add: task_turn_def state_of_def [symmetric] set split: option.split)
  next
    case (Joining j got nt p)
    then show ?thesis
      using True by (simp add: task_turn_def state_of_def [symmetric] set split: option.split prod.split)
  qed (use True in \<open>simp_all add: task_turn_def state_of_def [symmetric]\<close>)
qed

lemma tally_step: "tally (mock_step M a e) = tally a + mset (called [e])"
proof (cases e)
  case (FromClient f)
  have "tally (raise_flag sid a) = tally a" for sid
    by (simp add: tally_def raise_flag_def answered_def running_requests_def split: option.split)
  moreover have "tally (a\<lparr>mcp_notifications := w\<rparr>) = tally a" for w
    by (simp add: tally_def answered_def running_requests_def)
  moreover have "tally (dispatch (ClientCall i m v) a) = tally a + {#i#}" for i m v
    by (simp add: tally_def answered_def running_requests_def)
  ultimately show ?thesis
    using FromClient tally_deliver
    by (cases f) (auto simp: called_def List.map_filter_def simp del: dispatch.simps(3) split: option.split)
qed (simp add: tally_turn called_def List.map_filter_def)

lemma tally_run: "tally (mock_run M a es) = tally a + mset (called es)"
proof (induction es arbitrary: a)
  case (Cons e es)
  have "mset (called (e # es)) = mset (called [e]) + mset (called es)"
    by (simp add: called_def List.map_filter_def)
  then show ?case using Cons.IH [of "mock_step M a e"] tally_step [of M a e] by simp
qed (simp add: called_def List.map_filter_def)

text \<open>
  C37: Whatever the schedule, the requests the client has made are those that have been answered,
  once each, and those whose task has not ended: none is dropped and none answered twice.
\<close>

theorem requests_get_one_answer:
  "mset (called es) =
     mset (answered (mock_run M (start_agent M c) es)) + mset (running_requests (mock_run M (start_agent M c) es))"
  using tally_run [of M "start_agent M c" es] by (simp add: tally_def answered_def running_requests_def List.map_filter_def)

section \<open>Concrete schedules\<close>

definition sample_env :: mock_env where
  "sample_env = \<lparr>current_dir = Some ''/p'', crate_version = ''1.0'', value_text = (\<lambda>_. ''value''),
     de_servers = (\<lambda>es. Inr (map (\<lambda>_. OfferedAcp ''files'' ''s1'') es))\<rparr>"

definition sample_clock :: clock where
  "sample_clock = \<lparr>unix_seconds = 1000000000, subsec_nanos = 4096\<rparr>"

text \<open>A session is opened with a hosted server and its task asks to connect to it.\<close>

definition sample_params :: json where
  "sample_params = JObject [(''mcpServers'', JArray [JObject []])]"

definition sample_events :: "mock_event list" where
  "sample_events =
     [FromClient (ClientCall (IdNumber 7) SESSION_NEW (Some sample_params)),
      Turn sample_clock True 0, Turn sample_clock True 0]"

definition sample_agent :: mock_agent where
  "sample_agent = mock_run sample_env (start_agent sample_env sample_clock) sample_events"

lemma sample_hosted:
  "(case mcp_servers_meta sample_env sample_params of Inl _ \<Rightarrow> None | Inr meta \<Rightarrow> hosted_id meta) = Some ''s1''"
  by code_simp

lemma sample_first_effect:
  "\<exists>v k. fst (handle_request sample_env sample_clock SESSION_NEW sample_params a) = Ask MCP_CONNECT v k"
  using sample_hosted
  by (auto simp: handle_request_def handle_new_def Let_def case_prod_beta use_hosted_mcp_def split: sum.splits)

lemma sample_waits:
  "(\<exists>k. state_of sample_agent 0 = Waiting (IdNumber 1) k) \<and> length (mk_tasks sample_agent) = 1"
proof -
  define a0 where "a0 = dispatch (ClientCall (IdNumber 7) SESSION_NEW (Some sample_params)) (start_agent sample_env sample_clock)"
  define r where "r = handle_request sample_env sample_clock SESSION_NEW sample_params a0"
  have tasks: "mk_tasks a0 = [\<lparr>mt_id = IdNumber 7, mt_state = Fresh SESSION_NEW sample_params\<rparr>]"
    by (simp add: a0_def or_json_null_def)
  then have first: "task_turn sample_env sample_clock True 0 a0 = set_task 0 (Running (fst r)) (snd r)"
    by (simp add: task_turn_def r_def case_prod_beta)
  have kept: "mk_tasks (snd r) = mk_tasks a0" "next_request_id (snd r) = 1"
    by (simp_all add: r_def) (simp add: a0_def)
  obtain v k where "fst r = Ask MCP_CONNECT v k"
    using sample_first_effect unfolding r_def by blast
  then show ?thesis
    using tasks kept
    by (simp add: sample_agent_def sample_events_def a0_def [symmetric] first del: dispatch.simps)
      (simp add: task_turn_def set_task_def ask_client_def Let_def state_of_def send_out_def)
qed

lemma sample_awaits: "awaits (state_of sample_agent 0) = Some (IdNumber 1)" "0 < length (mk_tasks sample_agent)"
  using sample_waits by auto

theorem replies_reach_the_task_that_asked_witness:
  "state_of (dispatch (ClientReply (IdNumber 1) (Inr None)) sample_agent) 0 =
     deliver (IdNumber 1) (Inr None) (state_of sample_agent 0)"
proof -
  have short: "Suc (length sample_events) < 2 ^ 64" by (simp add: sample_events_def)
  show ?thesis
    using replies_reach_the_task_that_asked [OF short sample_awaits(2,1) [unfolded sample_agent_def],
        of "Inr None" 0 "Inr None"]
    unfolding sample_agent_def by simp
qed

theorem only_the_client_is_waited_for_witness:
  "state_of sample_agent 0 = Finished \<or> awaits (state_of sample_agent 0) \<noteq> None"
proof (rule only_the_client_is_waited_for)
  show "state_of (task_turn sample_env sample_clock True 0 sample_agent) 0 = state_of sample_agent 0"
    using sample_waits by (auto simp: task_turn_def state_of_def)
qed (rule sample_awaits)


end
