(* ===== verification/Mock_Sessions.thy ===== *)
theory Mock_Sessions
  imports Mock_Replies
begin

text \<open>
  The mock agent's conversations: what it refuses to open, what a load replays, what its
  settings can hold, and which turns a cancellation reaches.
\<close>

section \<open>Opening a conversation again\<close>

lemma session_for_Inr:
  "session_for params a = Inr (sid, s) \<longleftrightarrow>
     as_str (json_index params ''sessionId'') = Some sid \<and> hm_get (mk_sessions a) sid = Some s \<and>
     as_str (json_index params ''cwd'') \<in> {None, Some (mk_cwd s)}"
  by (auto simp: session_for_def session_id_of_def matching_def split: option.splits sum.splits if_splits)

text \<open>
  Loading, resuming or forking from another project's directory, or naming no session there
  is, is answered with an error straight away, and the agent is as it was.
\<close>

theorem conversations_stay_in_their_project:
  assumes "m \<in> {SESSION_LOAD, SESSION_RESUME, SESSION_FORK}"
    and "\<nexists>sid s. as_str (json_index params ''sessionId'') = Some sid \<and> hm_get (mk_sessions a) sid = Some s \<and>
      as_str (json_index params ''cwd'') \<in> {None, Some (mk_cwd s)}"
  shows "\<exists>e. handle_request M c m params a = (Return (Inl e), a)"
proof (cases "session_for params a")
  case (Inl e)
  then show ?thesis
    using assms(1) by (auto simp: handle_request_def handle_load_def handle_resume_def handle_fork_def)
next
  case (Inr p)
  then show ?thesis using assms(2) session_for_Inr [of params a "fst p" "snd p"] by auto
qed

lemma run_replay:
  "run (replay sid us p) as = map_option (\<lambda>(hs, x). (map (Replayed sid) us @ hs, x)) (run p as)"
  by (induction us) (auto simp: seen_def option.map_comp o_def case_prod_unfold option.map_ident)

text \<open>
  A load replays the whole transcript, in order and as it was recorded, before it answers,
  and changes nothing.
\<close>

theorem a_load_replays_the_transcript:
  assumes "as_str (json_index params ''sessionId'') = Some sid" and "hm_get (mk_sessions a) sid = Some s"
    and "as_str (json_index params ''cwd'') = Some (mk_cwd s)"
  shows "snd (handle_request M c SESSION_LOAD params a) = a \<and>
    run (fst (handle_request M c SESSION_LOAD params a)) [ValueIs opts] =
      Some (map (Replayed sid) (mk_transcript s) @ [OtherEffect],
        session_answer [] opts (mcp_servers_meta M params), [])"
proof -
  have "session_for params a = Inr (sid, s)" using assms by (simp add: session_for_Inr)
  then show ?thesis by (simp add: handle_request_def handle_load_def run_replay seen_def)
qed

section \<open>What every step keeps\<close>

text \<open>A property of agents that each handler keeps is kept by a request, and so by a turn.\<close>

lemma handle_request_keeps:
  assumes "P a"
    and "P (snd (handle_initialize M v a))" "P (snd (handle_new M c v a))" "P (snd (handle_load M v a))"
      "P (snd (handle_resume M v a))" "P (snd (handle_fork M c v a))" "P (snd (handle_delete v a))"
      "P (snd (handle_prompt M c v a))" "P (snd (handle_set_mode c v a))" "P (snd (handle_set_config v a))"
  shows "P (snd (handle_request M c m v a))"
proof -
  have keep: "P (snd x) \<Longrightarrow> P (snd y) \<Longrightarrow> P (snd (if b then x else y))" for b and x y :: started
    by simp
  show ?thesis
    unfolding handle_request_def by (intro keep) (simp_all add: assms)
qed

lemma task_turn_keeps:
  assumes "P a" and "\<And>st b. P b \<Longrightarrow> P (set_task n st b)" and "\<And>f. P (send_out f a)"
    and "\<And>m v. P (snd (handle_request M c m v a))" and "\<And>i p. P (snd (perform c n i p a))"
  shows "P (task_turn M c first n a)"
  using assms
  by (simp add: task_turn_def case_prod_beta split: mock_task_state.split option.split)

section \<open>Settings\<close>

definition option_ids :: "string set" where
  "option_ids = {''model'', ''thought_level'', ''web_search''}"

definition settings_ok :: "mock_agent \<Rightarrow> bool" where
  "settings_ok a \<longleftrightarrow> (\<forall>sid vs. hm_get (mk_config a) sid = Some vs \<longrightarrow> dom (hm_get vs) = option_ids)"

lemma settings_same: "mk_config b = mk_config a \<Longrightarrow> settings_ok b = settings_ok a"
  by (simp add: settings_ok_def)

lemma settings_insert:
  "settings_ok a \<Longrightarrow> dom (hm_get vs) = option_ids \<Longrightarrow> mk_config b = hm_insert sid vs (mk_config a) \<Longrightarrow> settings_ok b"
  unfolding settings_ok_def by (metis hm_get_insert option.inject)

lemma default_values_ok: "dom (hm_get default_config_values) = option_ids"
  by (auto simp: default_config_values_def option_ids_def dom_def)

lemma values_in_force_ok:
  "settings_ok a \<Longrightarrow>
     dom (hm_get (case hm_get (mk_config a) sid of None \<Rightarrow> default_config_values | Some vs \<Rightarrow> vs)) = option_ids"
  by (auto simp: settings_ok_def default_values_ok split: option.split)

lemma settings_remove: "settings_ok a \<Longrightarrow> mk_config b = hm_remove sid (mk_config a) \<Longrightarrow> settings_ok b"
  unfolding settings_ok_def by (metis hm_get_remove option.distinct(1))

lemma modify_session_config [simp]: "mk_config (modify_session sid f a) = mk_config a"
  by (simp add: modify_session_def split: option.split)

lemma update_config [simp]:
  "mk_config (send_out f a) = mk_config a" "mk_config (emit sid u a) = mk_config a"
  "mk_config (record_update c sid u a) = mk_config a" "mk_config (update_client c sid u a) = mk_config a"
  by (simp_all add: send_out_def emit_def record_update_def update_client_def)

lemma record_prompt_config [simp]: "mk_config (record_prompt c sid bs a) = mk_config a"
  unfolding record_prompt_def by (induction bs arbitrary: a) simp_all

lemma title_and_record_config [simp]: "mk_config (title_and_record_prompt c sid v a) = mk_config a"
  by (simp add: title_and_record_prompt_def Let_def)

lemma set_task_config [simp]: "mk_config (set_task n st a) = mk_config a"
  by (simp add: set_task_def)

lemma settings_set_option:
  assumes "settings_ok a" shows "settings_ok (snd (set_config_option sid i v a))"
proof -
  let ?old = "case hm_get (mk_config a) sid of None \<Rightarrow> default_config_values | Some vs \<Rightarrow> vs"
  let ?new = "if hm_get ?old i = None then ?old else hm_insert i v ?old"
  have "dom (hm_get ?new) = option_ids"
    using values_in_force_ok [OF assms, of sid] by (auto simp: dom_def split: if_splits)
  then show ?thesis
    by (rule settings_insert [OF assms]) (simp add: set_config_option_def Let_def)
qed

lemma settings_request:
  assumes ok: "settings_ok a"
  shows "settings_ok (snd (handle_request M c m v a))"
proof -
  have fork: "settings_ok (snd (handle_fork M c v a))"
  proof (cases "session_for v a")
    case (Inr p)
    then show ?thesis
      by (intro settings_insert [OF ok values_in_force_ok [OF ok]])
        (auto simp: handle_fork_def short_id_def open_session_def Let_def case_prod_beta)
  qed (simp add: handle_fork_def ok)
  moreover have "settings_ok (snd (handle_new M c v a))"
    by (rule settings_insert [OF ok default_values_ok])
      (auto simp: handle_new_def short_id_def open_session_def Let_def case_prod_beta)
  moreover have "settings_ok (snd (handle_delete v a))"
    using ok by (auto simp: handle_delete_def intro: settings_remove split: sum.split)
  moreover have "mk_config (snd (handle_load M v a)) = mk_config a"
    "mk_config (snd (handle_resume M v a)) = mk_config a" "mk_config (snd (handle_prompt M c v a)) = mk_config a"
    "mk_config (snd (handle_initialize M v a)) = mk_config a" "mk_config (snd (handle_set_mode c v a)) = mk_config a"
    "mk_config (snd (handle_set_config v a)) = mk_config a"
    by (simp_all add: handlers Let_def split: sum.split option.split prod.split)
  ultimately show ?thesis
    using ok by (intro handle_request_keeps [where P = settings_ok]) (simp_all add: settings_ok_def)
qed

lemma settings_perform:
  assumes "settings_ok a" shows "settings_ok (snd (perform c n i p a))"
proof (cases "\<exists>s j v k. p = SetConfigOption s j v k")
  case True
  then show ?thesis using settings_set_option [OF assms] by (auto simp: case_prod_beta)
next
  case False
  then have "mk_config (snd (perform c n i p a)) = mk_config a"
    by (cases p) (auto simp: ask_client_def Let_def)
  then show ?thesis using assms settings_same by blast
qed

lemma resolve_reply_config [simp]: "mk_config (resolve_reply i r a) = mk_config a"
  by (simp add: resolve_reply_def Let_def split: option.split prod.split)

lemma raise_flag_config [simp]: "mk_config (raise_flag sid a) = mk_config a"
  by (simp add: raise_flag_def split: option.split)

lemma settings_step:
  assumes "settings_ok a" shows "settings_ok (mock_step M a e)"
proof (cases e)
  case (FromClient f)
  have "mk_config (dispatch f a) = mk_config a"
    by (cases f) (simp_all split: option.split)
  then have "settings_ok (dispatch f a) = settings_ok a" by (rule settings_same)
  then show ?thesis using assms FromClient by simp
next
  case (Turn c first n)
  have kept: "settings_ok (set_task n st b)" if "settings_ok b" for st b
    using that by (subst settings_same) simp_all
  have sent: "settings_ok (send_out f a)" for f
    using assms by (subst settings_same) simp_all
  show ?thesis
    unfolding Turn mock_step.simps
    by (intro task_turn_keeps [where P = settings_ok] assms kept sent settings_request settings_perform)
qed

interpretation mock_settings: machine "mock_step M" settings_ok for M
  by unfold_locales (rule settings_step)

lemma settings_start: "settings_ok (start_agent M c)"
proof -
  have a0: "settings_ok new_agent" by (simp add: settings_ok_def new_agent_def)
  have touched: "mk_config (touched t sid a) = mk_config a" for t sid a
    by (simp add: touched_def)
  have opened: "mk_config (open_session c sid d t us a) = mk_config a" for sid d t us a
    by (simp add: open_session_def)
  show ?thesis
    unfolding settings_ok_def
    by (auto simp: start_agent_def seed_conversations_def new_agent_def touched opened Let_def default_values_ok
        split: if_splits) (auto simp: option_ids_def dom_def split: if_splits)
qed

text \<open>
  Whatever the client sets, a conversation has a value for each option the agent offers and
  for no other: an id it does not offer is never stored.
\<close>

theorem settings_are_those_offered:
  "option_in_force \<in> option_ids \<longleftrightarrow>
     hm_get (case hm_get (mk_config (mock_run M (start_agent M c) es)) sid of
               None \<Rightarrow> default_config_values | Some vs \<Rightarrow> vs) option_in_force \<noteq> None"
  using values_in_force_ok [OF mock_settings.run_inv [OF settings_start], of M M c es sid] by (auto simp: dom_def)

section \<open>Cancellation\<close>




lemma modify_session_flags [simp]:
  "cancelled (modify_session sid f a) = cancelled a" "flags (modify_session sid f a) = flags a"
  by (simp_all add: modify_session_def split: option.split)

lemma update_flags [simp]:
  "cancelled (send_out f a) = cancelled a" "flags (send_out f a) = flags a"
  "cancelled (update_client c sid u a) = cancelled a" "flags (update_client c sid u a) = flags a"
  "cancelled (record_update c sid u a) = cancelled a" "flags (record_update c sid u a) = flags a"
  "cancelled (emit sid u a) = cancelled a" "flags (emit sid u a) = flags a"
  by (simp_all add: send_out_def emit_def record_update_def update_client_def)

lemma record_prompt_flags [simp]:
  "cancelled (record_prompt c sid bs a) = cancelled a" "flags (record_prompt c sid bs a) = flags a"
  unfolding record_prompt_def by (induction bs arbitrary: a) simp_all

lemma title_and_record_flags [simp]:
  "cancelled (title_and_record_prompt c sid v a) = cancelled a" "flags (title_and_record_prompt c sid v a) = flags a"
  by (simp_all add: title_and_record_prompt_def Let_def)

lemma set_task_flags [simp]: "cancelled (set_task n st a) = cancelled a" "flags (set_task n st a) = flags a"
  by (simp_all add: set_task_def)

lemma resolve_reply_flags [simp]:
  "cancelled (resolve_reply i r a) = cancelled a" "flags (resolve_reply i r a) = flags a"
  by (simp_all add: resolve_reply_def Let_def split: option.split prod.split)











section \<open>Concrete conversations\<close>

lemma seeded_elsewhere:
  "\<exists>s. hm_get (mk_sessions (start_agent M c)) ''mock-elsewhere'' = Some s \<and> mk_cwd s = ''/projects/another-checkout'' \<and>
     mk_transcript s = elsewhere"
  by (simp add: start_agent_def seed_conversations_def touched_def modify_session_def open_session_def
      new_agent_def Let_def OTHER_PROJECT_def)

definition elsewhere_from :: "string \<Rightarrow> json" where
  "elsewhere_from cwd = JObject [(''sessionId'', JString ''mock-elsewhere''), (''cwd'', JString cwd)]"

lemma elsewhere_from_fields [simp]:
  "as_str (json_index (elsewhere_from d) ''sessionId'') = Some ''mock-elsewhere''"
  "as_str (json_index (elsewhere_from d) ''cwd'') = Some d"
  by (simp_all add: elsewhere_from_def json_index_def json_get_def)

theorem conversations_stay_in_their_project_witness:
  "\<exists>e. handle_request sample_env sample_clock SESSION_LOAD (elsewhere_from ''/p'') (start_agent sample_env sample_clock) =
     (Return (Inl e), start_agent sample_env sample_clock)"
  by (rule conversations_stay_in_their_project)
    (use seeded_elsewhere [of sample_env sample_clock] in auto)

theorem a_load_replays_the_transcript_witness:
  "snd (handle_request sample_env sample_clock SESSION_LOAD (elsewhere_from ''/projects/another-checkout'')
     (start_agent sample_env sample_clock)) = start_agent sample_env sample_clock \<and>
   (\<exists>r. run (fst (handle_request sample_env sample_clock SESSION_LOAD (elsewhere_from ''/projects/another-checkout'')
          (start_agent sample_env sample_clock))) [ValueIs JNull] =
        Some (map (Replayed ''mock-elsewhere'') elsewhere @ [OtherEffect], r, []))"
proof -
  obtain s where s: "hm_get (mk_sessions (start_agent sample_env sample_clock)) ''mock-elsewhere'' = Some s"
      "mk_cwd s = ''/projects/another-checkout''" "mk_transcript s = elsewhere"
    using seeded_elsewhere by blast
  show ?thesis
    using a_load_replays_the_transcript [OF _ s(1), of "elsewhere_from (mk_cwd s)" sample_env sample_clock JNull] s
    by simp
qed

end
