(* ===== verification/Mock_Conform.thy ===== *)
theory Mock_Conform
  imports Mock_Turn Mock_Sessions
begin

text \<open>
  The mock agent against the protocol: whatever its turns do and however they interleave,
  it only uses the methods \<open>crates/mjx-acp-core/src/method.rs\<close> gives the client, and it asks
  for nothing the client has not offered.
\<close>

section \<open>What one task may say\<close>

definition client_method :: "string \<Rightarrow> bool" where
  "client_method m \<longleftrightarrow> side m \<in> {Some Client_Side, Some Either_Side}"

fun proper :: "happened \<Rightarrow> bool" where
  "proper (Asked m v r) = client_method m"
| "proper (Notified m v) = (side m = Some Client_Side)"
| "proper _ = True"

lemma client_methods_used [simp]:
  "client_method ''fs/read_text_file''" "client_method ''fs/write_text_file''"
  "client_method ''session/request_permission''" "client_method ''terminal/create''"
  "client_method ''terminal/wait_for_exit''" "client_method ''terminal/release''"
  "client_method ELICITATION_CREATE" "client_method MCP_CONNECT" "client_method MCP_MESSAGE"
  "client_method MCP_DISCONNECT"
  by (simp_all add: client_method_def side_def)

lemma told_methods [simp]: "side SESSION_UPDATE = Some Client_Side" "side ELICITATION_COMPLETE = Some Client_Side"
  by (simp_all add: side_def)

lemma only_words: "only proper (stream_words sid ws)"
  by (induction ws) simp_all

lemma only_stream [simp]: "only proper (stream_text sid t)"
  by (simp add: stream_text_def only_words)

lemma only_think [simp]: "only proper (think sid cs)"
  by (induction cs) simp_all

lemma only_case_sum: "(\<And>e. only A (f e)) \<Longrightarrow> (\<And>v. only A (g v)) \<Longrightarrow> only A (case_sum f g r)"
  by (cases r) simp_all

lemma only_terminal: "only proper (run_in_terminal here sid params)"
  by (simp add: run_in_terminal_def Let_def split: option.split)

lemma only_elicitations: "only proper (ask_how_to_record sid)" "only proper (confirm_out_of_band sid)"
  by (simp_all add: ask_how_to_record_def confirm_out_of_band_def split: option.split)

lemma only_last_steps: "only proper (test_and_record here sid params)"
  by (simp add: test_and_record_def stop_if_cancelled_def only_terminal only_elicitations)

lemma only_from_permission: "only proper (ask_and_test here sid params)"
  by (simp add: ask_and_test_def ask_permission_def stop_if_cancelled_def only_last_steps)

lemma only_edit: "only proper (edit_file sid path ok t)"
  by (simp add: edit_file_def edited_def case_prod_beta Let_def)

lemma only_from_plan: "only proper (plan_and_edit here sid params got)"
  by (simp add: plan_and_edit_def stop_if_cancelled_def only_edit only_from_permission case_prod_beta)

lemma only_turn: "only proper (run_turn here sid params)"
  by (simp add: run_turn_def read_file_def stop_if_cancelled_def only_from_plan Let_def split: sum.split)

lemma only_calls: "only proper (hosted_calls conn report calls)"
  by (induction calls arbitrary: report) (simp_all split: sum.split)

lemma only_hosted: "only proper (use_hosted_mcp M meta)"
  by (simp add: use_hosted_mcp_def only_calls split: option.split sum.split)

lemma only_replay: "only proper p \<Longrightarrow> only proper (replay sid us p)"
  by (induction us) simp_all

lemma only_request: "only proper (fst (handle_request M c m params a))"
proof -
  have "only proper (fst (handle_new M c params a))"
    by (simp add: handle_new_def Let_def case_prod_beta only_hosted split: sum.split)
  moreover have "only proper (fst (handle_prompt M c params a))"
    by (simp add: handle_prompt_def Let_def case_prod_beta only_turn split: sum.split)
  moreover have "only proper (fst (handle_load M params a))"
    by (simp add: handle_load_def only_replay split: sum.split prod.split)
  moreover have "only proper (fst (handle_initialize M params a))" "only proper (fst (handle_resume M params a))"
      "only proper (fst (handle_fork M c params a))" "only proper (fst (handle_delete params a))"
      "only proper (fst (handle_set_mode c params a))" "only proper (fst (handle_set_config params a))"
    by (simp_all add: handle_initialize_def handle_resume_def handle_fork_def handle_delete_def
        handle_set_mode_def handle_set_config_def Let_def case_prod_beta split: sum.split option.split)
  ultimately show ?thesis by (simp add: handle_request_def)
qed

section \<open>What the agent says\<close>

fun state_proper :: "mock_task_state \<Rightarrow> bool" where
  "state_proper (Running p) \<longleftrightarrow> only proper p"
| "state_proper (Waiting i k) \<longleftrightarrow> (\<forall>r. only proper (k r))"
| "state_proper (WaitingOrCancelled s i got k) \<longleftrightarrow> (\<forall>r. only proper (k (Some r))) \<and> only proper (k None)"
| "state_proper (Joining i got nt p) \<longleftrightarrow>
     only proper p \<and> (case nt of None \<Rightarrow> True | Some (m, v) \<Rightarrow> side m = Some Client_Side)"
| "state_proper _ \<longleftrightarrow> True"

fun frame_proper :: "mock_frame \<Rightarrow> bool" where
  "frame_proper (AskClient i m v) = client_method m"
| "frame_proper (TellClient m v) = (side m = Some Client_Side)"
| "frame_proper (AnswerClient i r) = True"

definition speech_ok :: "mock_agent \<Rightarrow> bool" where
  "speech_ok a \<longleftrightarrow> list_all frame_proper (outbox a) \<and> list_all (\<lambda>t. state_proper (mt_state t)) (mk_tasks a)"

lemma speech_send: "speech_ok a \<Longrightarrow> frame_proper f \<Longrightarrow> speech_ok (send_out f a)"
  by (simp add: speech_ok_def send_out_def)

lemma speech_same: "speech_ok a \<Longrightarrow> outbox b = outbox a \<Longrightarrow> mk_tasks b = mk_tasks a \<Longrightarrow> speech_ok b"
  by (simp add: speech_ok_def)

lemma speech_set:
  "speech_ok a \<Longrightarrow> state_proper st \<Longrightarrow> speech_ok (set_task n st a)"
  unfolding speech_ok_def set_task_def list_all_iff
  by (auto dest!: set_update_subset_insert [THEN subsetD])

lemma speech_update: "speech_ok a \<Longrightarrow> speech_ok (update_client c sid u a)"
  unfolding update_client_def emit_def by (rule speech_send) (auto intro: speech_same)

lemma handle_set_mode_speech: "speech_ok a \<Longrightarrow> speech_ok (snd (handle_set_mode c v a))"
  by (simp add: handle_set_mode_def Let_def speech_update split: option.split)

lemma speech_request:
  assumes ok: "speech_ok a"
  shows "speech_ok (snd (handle_request M c m v a))"
proof -
  have "outbox (snd (handle_initialize M v a)) = outbox a" "outbox (snd (handle_new M c v a)) = outbox a"
    "outbox (snd (handle_load M v a)) = outbox a" "outbox (snd (handle_resume M v a)) = outbox a"
    "outbox (snd (handle_fork M c v a)) = outbox a" "outbox (snd (handle_delete v a)) = outbox a"
    "outbox (snd (handle_prompt M c v a)) = outbox a" "outbox (snd (handle_set_config v a)) = outbox a"
    by (simp_all add: handlers Let_def open_session_def split: sum.split option.split prod.split)
  moreover have "mk_tasks (snd (handle_initialize M v a)) = mk_tasks a" "mk_tasks (snd (handle_new M c v a)) = mk_tasks a"
    "mk_tasks (snd (handle_load M v a)) = mk_tasks a" "mk_tasks (snd (handle_resume M v a)) = mk_tasks a"
    "mk_tasks (snd (handle_fork M c v a)) = mk_tasks a" "mk_tasks (snd (handle_delete v a)) = mk_tasks a"
    "mk_tasks (snd (handle_prompt M c v a)) = mk_tasks a" "mk_tasks (snd (handle_set_config v a)) = mk_tasks a"
    by (simp_all add: handlers Let_def open_session_def split: sum.split option.split prod.split)
  ultimately show ?thesis
    using ok handle_set_mode_speech speech_same by (intro handle_request_keeps [where P = speech_ok]) blast+
qed

lemma speech_ask: "speech_ok a \<Longrightarrow> client_method m \<Longrightarrow> speech_ok (snd (ask_client n m v a))"
  unfolding ask_client_def Let_def snd_conv by (rule speech_send) (simp_all add: speech_ok_def)

lemma speech_perform:
  assumes "speech_ok a" and "only proper p"
  shows "speech_ok (snd (perform c n i p a)) \<and> state_proper (fst (perform c n i p a))"
  using assms
  by (cases p)
    (auto simp: case_prod_beta Let_def speech_update speech_ask set_config_option_def emit_def
      intro: speech_send elim: speech_same)

lemma speech_deliver: "state_proper st \<Longrightarrow> state_proper (deliver i r st)"
  by (cases st) auto

lemma speech_dispatch:
  assumes "speech_ok a" shows "speech_ok (dispatch f a)"
proof (cases f)
  case (ClientReply i r)
  have "speech_ok (a\<lparr>mk_pending := m\<rparr>)" for m by (rule speech_same [OF assms]) simp_all
  moreover have "n < length (mk_tasks a) \<Longrightarrow> state_proper (mt_state (mk_tasks a ! n))" for n
    using assms by (simp add: speech_ok_def list_all_length)
  ultimately show ?thesis
    using assms by (simp add: ClientReply resolve_reply_def Let_def speech_set speech_deliver split: option.split prod.split)
next
  case (ClientNote m v)
  then show ?thesis using assms by (simp add: speech_ok_def raise_flag_def split: option.split)
next
  case (ClientCall i m v)
  then show ?thesis using assms by (simp add: speech_ok_def)
qed

lemma speech_turn:
  assumes ok: "speech_ok a" shows "speech_ok (task_turn M c first n a)"
proof (cases "n < length (mk_tasks a)")
  case True
  then have "state_proper (mt_state (mk_tasks a ! n))"
    using ok by (simp add: speech_ok_def list_all_length)
  then show ?thesis
    using ok speech_perform [OF ok] speech_request [OF ok] only_request
    by (auto simp: task_turn_def case_prod_beta speech_set intro!: speech_set speech_send
        split: mock_task_state.splits option.splits)
qed (simp add: task_turn_def ok)

interpretation mock_speech: machine "mock_step M" speech_ok for M
proof
  show "speech_ok (mock_step M a e)" if "speech_ok a" for a e
    using speech_dispatch [OF that] speech_turn [OF that] by (cases e) simp_all
qed

text \<open>
  C38: Whatever its client sends and in whatever order its tasks run, every request the agent
  makes and every notification it sends has a method of the client's side.
\<close>

theorem the_agent_keeps_to_the_protocol:
  "list_all frame_proper (outbox (mock_run M (start_agent M c) es))"
proof -
  have "speech_ok (start_agent M c)" by (simp add: speech_ok_def)
  then show ?thesis using mock_speech.run_inv unfolding speech_ok_def by blast
qed

end
