(* ===== verification/Mock_Mcp.thy ===== *)
theory Mock_Mcp
  imports Mock_Agent
begin

text \<open>
  \<open>crates/mjx-mock-agent/src/mcp.rs\<close>: the scripted MCP server. Standard input is the list
  of its lines, and what the server writes is the list of its frames. That a task waits for
  a line while it asks for the roots is a second state of the machine that reads one line
  at a time, to which the loop is shown equal.
\<close>

section \<open>What it answers\<close>

definition MCP_PROTOCOL_VERSION :: string where
  "MCP_PROTOCOL_VERSION = ''2025-06-18''"

definition ROOTS_REQUEST_ID :: request_id where
  "ROOTS_REQUEST_ID = IdString ''mock-mcp-roots''"

text \<open>
  Whether the variable \<open>MJX_MOCK_MCP_TOKEN\<close> is set, the version of the crate, the text of a
  value in a message, and the text of one in a frame, which for a \<open>Value\<close> cannot fail.
\<close>

record mcp_env =
  token_present :: bool
  mcp_version :: string
  shown :: "json \<Rightarrow> string"
  raw_text :: "json \<Rightarrow> raw"

definition mcp_result :: "mcp_env \<Rightarrow> request_id \<Rightarrow> json \<Rightarrow> frame" where
  "mcp_result V i v = Response i (Result (raw_text V v))"

definition handshake_reply :: "mcp_env \<Rightarrow> request_id \<Rightarrow> bool \<Rightarrow> frame list" where
  "handshake_reply V i roots_answered =
     [mcp_result V i (JObject
        [(''protocolVersion'', JString MCP_PROTOCOL_VERSION),
         (''capabilities'', JObject [(''tools'', JObject [(''listChanged'', JBool True)])]),
         (''serverInfo'', JObject [(''name'', JString ''mjx-mock-mcp''), (''version'', JString (mcp_version V))]),
         (''_meta'', JObject [(''mjx.rootsAnswered'', JBool roots_answered)])]),
      Notification ''notifications/tools/list_changed'' (Some (raw_text V (JObject [])))]"

definition mock_stat_tool :: json where
  "mock_stat_tool = JObject
     [(''name'', JString ''mock_stat''),
      (''description'', JString ''Reports whether this server got its credential.''),
      (''inputSchema'', JObject
        [(''type'', JString ''object''),
         (''properties'', JObject [(''path'', JObject [(''type'', JString ''string'')])])])]"

definition mcp_answer :: "mcp_env \<Rightarrow> request_id \<Rightarrow> string \<Rightarrow> json \<Rightarrow> frame list" where
  "mcp_answer V i m params =
     (if m = ''tools/list'' then [mcp_result V i (JObject [(''tools'', JArray [mock_stat_tool])])]
      else if m = ''tools/call'' then
        (if json_index params ''name'' \<noteq> JString ''mock_stat''
         then [frame_error i (invalid_params (''no tool named '' @ shown V (json_index params ''name'')))]
         else [mcp_result V i (JObject
                [(''content'', JArray [JObject
                   [(''type'', JString ''text''),
                    (''text'', JString (''mock_stat ran; credential present: '' @
                       (if token_present V then ''true'' else ''false'')))]]),
                 (''isError'', JBool False)])])
      else [frame_error i (method_not_found m)])"

section \<open>The loop\<close>

definition roots_request :: frame where
  "roots_request = Request ROOTS_REQUEST_ID ''roots/list'' None"

fun is_result :: "response_payload \<Rightarrow> bool" where
  "is_result (Result _) = True"
| "is_result (Error _) = False"

text \<open>Whether a line ends the wait for the roots, and with what.\<close>

definition roots_line :: "('a) serde_scheme \<Rightarrow> string \<Rightarrow> bool option" where
  "roots_line E l =
     (case parse E l of
        Inr (Response i p) \<Rightarrow> if i = ROOTS_REQUEST_ID then Some (is_result p) else None
      | _ \<Rightarrow> None)"

text \<open>What the client answered, and the lines after it; \<open>False\<close> where it went away.\<close>

fun ask_for_roots :: "('a) serde_scheme \<Rightarrow> string list \<Rightarrow> bool \<times> string list" where
  "ask_for_roots E [] = (False, [])"
| "ask_for_roots E (l # ls) =
     (case roots_line E l of Some b \<Rightarrow> (b, ls) | None \<Rightarrow> ask_for_roots E ls)"

lemma ask_for_roots_shorter: "length (snd (ask_for_roots E ls)) \<le> length ls"
  by (induction ls) (auto split: option.split)

definition request_params :: "('a) serde_scheme \<Rightarrow> raw option \<Rightarrow> json" where
  "request_params E p = or_json_null (Option.bind p (read_json E))"

text \<open>What a line outside the handshake asks for.\<close>

datatype heard =
    Initialize request_id
  | Call request_id string json
  | Nothing_Said

definition hear :: "('a) serde_scheme \<Rightarrow> string \<Rightarrow> heard" where
  "hear E l =
     (if is_blank l then Nothing_Said
      else case parse E l of
             Inr (Request i m p) \<Rightarrow> if m = ''initialize'' then Initialize i else Call i m (request_params E p)
           | _ \<Rightarrow> Nothing_Said)"

function serve :: "('a) serde_scheme \<Rightarrow> mcp_env \<Rightarrow> string list \<Rightarrow> frame list" where
  "serve E V [] = []"
| "serve E V (l # ls) =
     (case hear E l of
        Initialize i \<Rightarrow>
          (case ask_for_roots E ls of
             (roots, rest) \<Rightarrow> roots_request # handshake_reply V i roots @ serve E V rest)
      | Call i m params \<Rightarrow> mcp_answer V i m params @ serve E V ls
      | Nothing_Said \<Rightarrow> serve E V ls)"
  by pat_completeness auto

termination
proof (relation "measure (\<lambda>(E, V, ls). length ls)")
  fix E :: "('a) serde_scheme" and V :: mcp_env and l :: string and ls rest i roots
  assume "(roots, rest) = ask_for_roots E ls"
  then show "((E, V, rest), (E, V, l # ls)) \<in> measure (\<lambda>(E, V, ls). length ls)"
    using ask_for_roots_shorter [of E ls] by (cases "ask_for_roots E ls") auto
qed simp_all

section \<open>One line at a time\<close>

datatype mcp_state =
    Serving
  | AwaitingRoots request_id

fun mcp_step :: "('a) serde_scheme \<Rightarrow> mcp_env \<Rightarrow> mcp_state \<Rightarrow> string \<Rightarrow> mcp_state \<times> frame list" where
  "mcp_step E V Serving l =
     (case hear E l of
        Initialize i \<Rightarrow> (AwaitingRoots i, [roots_request])
      | Call i m params \<Rightarrow> (Serving, mcp_answer V i m params)
      | Nothing_Said \<Rightarrow> (Serving, []))"
| "mcp_step E V (AwaitingRoots i) l =
     (case roots_line E l of
        Some b \<Rightarrow> (Serving, handshake_reply V i b)
      | None \<Rightarrow> (AwaitingRoots i, []))"

text \<open>What is still said when standard input closes.\<close>

fun mcp_end :: "mcp_env \<Rightarrow> mcp_state \<Rightarrow> frame list" where
  "mcp_end V Serving = []"
| "mcp_end V (AwaitingRoots i) = handshake_reply V i False"

fun mcp_machine :: "('a) serde_scheme \<Rightarrow> mcp_env \<Rightarrow> mcp_state \<Rightarrow> string list \<Rightarrow> frame list" where
  "mcp_machine E V st [] = mcp_end V st"
| "mcp_machine E V st (l # ls) = snd (mcp_step E V st l) @ mcp_machine E V (fst (mcp_step E V st l)) ls"

lemma machine_awaits:
  "mcp_machine E V (AwaitingRoots i) ls =
     handshake_reply V i (fst (ask_for_roots E ls)) @ mcp_machine E V Serving (snd (ask_for_roots E ls))"
  by (induction ls) (auto split: option.split)

lemma serve_machine: "serve E V ls = mcp_machine E V Serving ls"
  by (induction E V ls rule: serve.induct)
    (auto simp: machine_awaits split: heard.split prod.split)

text \<open>
  The loop, which reads on while it waits for the roots, is the machine that takes one line
  in one of two states: so what it writes for the first lines never depends on later ones.
\<close>

theorem serving_is_a_machine_of_two_states:
  "serve E V ls = mcp_machine E V Serving ls"
  by (rule serve_machine)

section \<open>Who is answered\<close>

definition answers_to :: "frame list \<Rightarrow> request_id list" where
  "answers_to = List.map_filter (\<lambda>f. case f of Response i p \<Rightarrow> Some i | _ \<Rightarrow> None)"

lemma answers_to_append [simp]: "answers_to (fs @ gs) = answers_to fs @ answers_to gs"
  by (simp add: answers_to_def List.map_filter_def)

text \<open>The requests the server takes up: those it reads while no handshake is open.\<close>

fun taken_up :: "('a) serde_scheme \<Rightarrow> bool \<Rightarrow> string list \<Rightarrow> request_id list" where
  "taken_up E waiting [] = []"
| "taken_up E waiting (l # ls) =
     (if waiting then taken_up E (roots_line E l = None) ls
      else case hear E l of
             Initialize i \<Rightarrow> i # taken_up E True ls
           | Call i m params \<Rightarrow> i # taken_up E False ls
           | Nothing_Said \<Rightarrow> taken_up E False ls)"

lemma handshake_answers: "answers_to (handshake_reply V i b) = [i]"
  by (simp add: answers_to_def handshake_reply_def mcp_result_def List.map_filter_def)

lemma call_answers: "answers_to (mcp_answer V i m params) = [i]"
  by (simp add: answers_to_def mcp_answer_def mcp_result_def frame_error_def List.map_filter_def)

lemma machine_answers:
  "answers_to (mcp_machine E V Serving ls) = taken_up E False ls \<and>
   answers_to (mcp_machine E V (AwaitingRoots i) ls) = i # taken_up E True ls"
proof (induction ls arbitrary: i)
  case Nil
  show ?case by (simp add: handshake_answers) (simp add: answers_to_def)
next
  case (Cons l ls)
  have none: "answers_to [] = []" "answers_to [roots_request] = []"
    by (simp_all add: answers_to_def roots_request_def List.map_filter_def)
  show ?case
    by (auto simp: Cons.IH none handshake_answers call_answers split: heard.split option.split)
qed

text \<open>
  Each request the server takes up is answered once and in its order, a handshake whose
  client goes away included; a request that comes in the middle of a handshake is not.
\<close>

theorem requests_taken_up_are_answered_in_order:
  "answers_to (serve E V ls) = taken_up E False ls"
  by (simp add: serve_machine machine_answers)

end
