(* ===== verification/Spec2Isabelle.thy ===== *)
theory Spec2Isabelle
  imports Live_Demo Live_System Session_Laws Server Mention_Uri Mock_Demo Mock_Conform Mock_Mcp
begin

text \<open>
  A verification library for \<open>mjx-acp-agent\<close>: a server that sits between a browser and an
  agent speaking the Agent Client Protocol, its libraries, and the scripted agent it is
  tried against. Paths below are under \<open>src/crates/\<close>.

  \<^bold>\<open>The program.\<close> A browser opens a WebSocket (\<open>mjx-acp-server/src/main.rs\<close>). The pool gives it
  the agent it asks for, an agent that outlived an earlier socket if it names one, and
  starts a process otherwise (\<open>agent_process.rs\<close>). Two tasks then carry lines of JSON-RPC,
  one in each direction, and both call \<open>Relay::handle\<close> (\<open>relay.rs\<close>). On its way a frame's
  ids are bridged, so that the requests of several successive browsers share one id space
  (\<open>id_bridge.rs\<close>); MCP servers are added to a request that opens a session (\<open>mcp.rs\<close>);
  responses are paired with the method they answer (\<open>mjx-acp-core/src/correlator.rs\<close>); the
  conversation is folded into a thread per session (\<open>sessions.rs\<close>, \<open>mjx-acp-thread\<close>), from
  which the browser renders; and the interceptor answers file, terminal and MCP requests
  of the agent on the server's behalf (\<open>workspace_interceptor.rs\<close>, \<open>mjx-workspace\<close>,
  \<open>mcp_host.rs\<close>, \<open>mjx-mcp\<close>), mirroring what it did to the browser. Around this stand the
  configuration (\<open>config.rs\<close>), the catalog of agents (\<open>mjx-agent-catalog\<close>), the mentions a
  prompt can hold (\<open>mention.rs\<close>) and the mock agent (\<open>mjx-mock-agent\<close>).

  \<^bold>\<open>The theories.\<close>

  \<^item> Foundations. \<open>Prelude\<close>: the model of \<open>HashMap\<close>, the \<open>str\<close> operations, decimals, and the
    locales. \<open>Json\<close>: \<open>serde_json::Value\<close>. \<open>Utf8\<close>: \<open>String::from_utf8_lossy\<close>. \<open>Acp\<close>: what the source
    reads of the schema crate's types. \<open>Disk\<close>: a Unix file system with links.
  \<^item> \<open>Frame\<close>, \<open>Method\<close>, \<open>Ext\<close>, \<open>Correlator\<close>: the files of the same names of \<open>mjx-acp-core\<close>. A frame
    survives printing and reading; the correlator's two maps are the requests not yet
    answered of any history.
  \<^item> \<open>Thread_Model\<close> (\<open>lib.rs\<close> and \<open>fold.rs\<close> of \<open>mjx-acp-thread\<close>), \<open>Thread_Props\<close>, \<open>Thread_Laws\<close>: a
    thread under any sequence of updates, prompts and elicitations. Entry ids are unique
    and stay, prose is what was streamed, a settled question stays settled, the events
    returned describe the change.
  \<^item> \<open>Paths\<close>, \<open>Mention\<close>, \<open>Mention_Props\<close>, \<open>Mention_Uri\<close> (\<open>paths.rs\<close>, \<open>mention.rs\<close>): lines are 32-bit
    words; a mention reads back from the URI it prints to.
  \<^item> \<open>Sessions\<close>, \<open>Session_Props\<close>, \<open>Session_Laws\<close> (\<open>sessions.rs\<close>): the store's maps agree, every
    thread in it is a run of a thread's operations (so the laws of threads hold of it),
    interleaved streams are folded as if each had arrived alone.
  \<^item> \<open>Id_Bridge\<close>, \<open>Mcp\<close>, \<open>Sink\<close>, \<open>Relay\<close>, \<open>Relay_Props\<close>, \<open>Connection\<close>, \<open>Relay_Demo\<close> (\<open>id_bridge.rs\<close>,
    \<open>mcp.rs\<close>, \<open>relay.rs\<close>): an answer goes only to the browser that asked; the handshake is
    asked once; questions to the browser are re-asked until answered; a socket that is
    replaced is told and does no harm. \<open>Agent_Process\<close> (\<open>agent_process.rs\<close>) is how a process
    begins and ends.
  \<^item> The same file at the grain of its locks and its awaits. \<open>Relay_Tasks\<close>: a call of \<open>handle\<close> is a tree
    of sections, each what one lock protects, which run one after the other is \<open>handle\<close> of
    \<open>Relay\<close>. \<open>Live\<close>: the reader of the agent, one reader for each socket and every \<open>attach\<close>
    take turns, section by section. \<open>Live_Props\<close>: answers go to whoever asked under every
    interleaving. \<open>Live_Order\<close>: the correlator and the store take in the agent's frames in
    the order it wrote them. \<open>Live_Races\<close>: a call or an \<open>attach\<close> that nothing interrupts is the
    step of \<open>Relay\<close>, and what interruptions can do. \<open>Live_Progress\<close>: no call waits for ever
    on the locks of others. \<open>Live_Demo\<close>: the instances.
  \<^item> \<open>Workspace\<close>, \<open>Workspace_Props\<close>, \<open>Terminal\<close> (\<open>mjx-workspace\<close>): nothing is read or listed outside
    the roots, and nothing written but through a name that is itself a link; a terminal's
    output is text within its budget; every process is accounted for.
  \<^item> \<open>Mcp_Server\<close> (\<open>mjx-mcp\<close>), \<open>Mcp_Host\<close> (\<open>mcp_host.rs\<close>): calls are answered once, questions
    return to the server that asked.
  \<^item> \<open>Interceptor\<close>, \<open>Interceptor_Props\<close>, \<open>Interceptor_Demo\<close> (\<open>workspace_interceptor.rs\<close>): a request
    taken becomes a task, answered once, and a stop leaves nothing running. \<open>System\<close> plugs
    this interceptor into the relay, and \<open>Live_System\<close> into the tasks of \<open>Live\<close>: however all
    of it interleaves, no browser is sent a request that the server answers.
  \<^item> \<open>Config\<close> (\<open>config.rs\<close>), \<open>Catalog\<close> (\<open>mjx-agent-catalog\<close>), \<open>Pool\<close> and \<open>Server\<close> (\<open>main.rs\<close>): what
    is decided before the server listens, which agent an id stands for, which agent a
    socket gets, what each route answers.
  \<^item> The mock agent. \<open>Mock_Act\<close>: a task as a tree of effects. \<open>Mock_Script\<close> (\<open>script.rs\<close>),
    \<open>Mock_Agent\<close> and \<open>Calendar\<close> (\<open>main.rs\<close>), \<open>Mock_Mcp\<close> (\<open>mcp.rs\<close>). \<open>Mock_Logic\<close> and \<open>Mock_Turn\<close>: weakest
    preconditions of trees, and what every scripted turn keeps. \<open>Mock_Props\<close>,
    \<open>Mock_Replies\<close>, \<open>Mock_Sessions\<close>, \<open>Mock_Conform\<close>: tasks come to rest, a reply reaches the
    task that asked, every request gets one answer, a cancellation reaches its session
    only, and only the client's methods are used. \<open>Mock_Demo\<close> runs two turns.

  \<^bold>\<open>How code becomes definitions.\<close> A struct is a \<open>record\<close>, an enum a \<open>datatype\<close>, a method takes the
  state and returns it; what goes out (lines, frames, events) is kept as a list in the
  state or returned. An early return or an error is a branch, an \<open>option\<close> or a sum whose
  \<open>Inl\<close> is the error. An object shared between tasks is a cell, numbered as it is made, and
  the maps hold its number. Concurrent tasks are steps: an event type per component
  (\<open>relay_event\<close>, \<open>live_event\<close>, \<open>store_event\<close>, \<open>mock_event\<close>, ...) says which piece runs next,
  a run folds a list of events, and the theorems quantify over every such list;
  the steps of \<open>System\<close> and \<open>Live_System\<close>, which put several of these together, are inductive
  relations. In \<open>Relay\<close> a call of \<open>handle\<close> is one step; in \<open>Live\<close> it is a step for every lock it
  takes and every line it sends, and any other task can run between two of them.

  \<^bold>\<open>Interfaces.\<close> \<open>request_table\<close> is what a table of requests in flight promises; it is
  interpreted on the hash map, the correlator, the bridge and the MCP server's calls.
  \<open>machine\<close> lifts an invariant of a step to runs and \<open>monotone_machine\<close> a relation that only
  grows; they are interpreted on the correlator, the sink, the relay and its interleaved
  calls, the thread, the session store, the terminals, the MCP server and the mock agent.

  \<^bold>\<open>Bounds and fuel.\<close> The counters of the bridge, of the MCP host and server, of the
  terminals and of the mock agent are as wide as in the source and wrap; theorems on
  freshness say up to how many requests. A walk of the workspace stops at 20000 visits
  and 12 levels (\<open>MAX_VISITS\<close>, \<open>MAX_DEPTH\<close>), which is its measure. Resolving a path follows 40
  links at most (\<open>MAX_LINKS\<close>), the kernel's limit, and fails with \<open>ELOOP\<close> beyond it. Trees
  of effects are finite; that the turns of the mock agent end is a theorem. No result
  depends on a fuel that the source does not have.

  \<^bold>\<open>Parameters.\<close> Code that is not in the repository is an argument: JSON text and the schema
  crate's readers (\<open>serde\<close>, \<open>acp\<close>), the url crates (\<open>url_lib\<close>), TOML and the environment
  (\<open>config_env\<close>), the launch of a process and how it takes its end, the clock, Unicode's
  lower case, base64, and the texts of the system's errors. What is relied on of them is a
  named hypothesis of the theorem that needs it, and its witness gives an instance.

  \<^bold>\<open>Not modelled.\<close> The web client (TypeScript); reading the command line; axum's router and
  listener; logging, sleeps and colours; the bytes of pipes below the line; \<open>Display\<close> and
  \<open>Debug\<close> texts that nothing parses; tests.
\<close>

end
